theory Spec2Isabelle
  imports Main "HOL-Library.Word"
begin

unbundle bit_operations_syntax

section \<open>Target configuration and failure values\<close>

text \<open>
  \<^verbatim>\<open>runtime/vm/compiler/backend/locations.h\<close> is compiled once per target. This
  development fixes the \<^verbatim>\<open>ARCH_IS_64_BIT\<close> configuration: \<^verbatim>\<open>uword\<close> is an
  unsigned 64-bit integer, \<^verbatim>\<open>kBitsPerWord = 64\<close> and \<^verbatim>\<open>kBitsForBaseReg = 6\<close>.
  Values of type \<^verbatim>\<open>intptr_t\<close> that are used as numbers (stack indices, array indices,
  the stack delta) are mathematical integers. The only arithmetic on them is the sum
  \<^verbatim>\<open>stack_index() + stack_delta_\<close> of \<^verbatim>\<open>Rebase\<close>; a sum that leaves the 64-bit range
  (undefined in C++) lies outside the bias of the index field, and so does its wrapped
  value, so that the range check of \<^verbatim>\<open>EncodeStackIndex\<close> fails on it either way.
  Values of type \<^verbatim>\<open>intptr_t\<close> that are used as bit masks (\<^verbatim>\<open>SmallSet::data_\<close>) are
  64-bit words.
  The enumerations \<^verbatim>\<open>Register\<close> and \<^verbatim>\<open>FpuRegister\<close> come from the target's
  constants header; a register is its non-negative register number.
\<close>

type_synonym uword = "64 word"
type_synonym Register = nat
type_synonym FpuRegister = nat

definition kBitsPerByte :: nat where
  "kBitsPerByte = 8"

definition kWordSize :: nat where
  "kWordSize = 8"

definition kBitsPerWord :: nat where
  "kBitsPerWord = kWordSize * kBitsPerByte"

text \<open>
  Every \<^verbatim>\<open>ASSERT\<close> and \<^verbatim>\<open>UNREACHABLE\<close> of the header is a branch of the model.
  \<open>UndefinedBehaviour\<close> marks an operation that C++ leaves undefined (a shift of the
  32-bit literal \<^verbatim>\<open>1\<close> by 32 or more, reading through a pointer to no object).
\<close>

datatype error = AssertionFailed | Unreachable | UndefinedBehaviour

fun err_bind :: "error + 'a \<Rightarrow> ('a \<Rightarrow> error + 'b) \<Rightarrow> error + 'b" where
  "err_bind (Inl e) f = Inl e"
| "err_bind (Inr x) f = f x"

definition ASSERT :: "bool \<Rightarrow> error + unit" where
  "ASSERT c = (if c then Inr () else Inl AssertionFailed)"

section \<open>Bit fields\<close>

text \<open>
  Modelled from the spec: the template \<^verbatim>\<open>BitField<S, T, position, size>\<close> of
  \<^verbatim>\<open>vm/bitfield.h\<close> is not among the sources. The spec says that a Location packs a
  kind code in the low bits and a payload in the remaining high bits, and that
  constructors fail for register codes or offsets that exceed the payload width: a field
  of \<open>width\<close> bits at bit \<open>position\<close>, whose \<^verbatim>\<open>encode\<close> and \<^verbatim>\<open>update\<close> check that the
  value fits.
\<close>

definition BitField_mask :: "nat \<Rightarrow> uword" where
  "BitField_mask width = push_bit width 1 - 1"

definition BitField_mask_in_place :: "nat \<Rightarrow> nat \<Rightarrow> uword" where
  "BitField_mask_in_place position width = push_bit position (BitField_mask width)"

definition BitField_is_valid :: "nat \<Rightarrow> uword \<Rightarrow> bool" where
  "BitField_is_valid width v \<longleftrightarrow> v AND NOT (BitField_mask width) = 0"

definition BitField_encode :: "nat \<Rightarrow> nat \<Rightarrow> uword \<Rightarrow> error + uword" where
  "BitField_encode position width v =
     err_bind (ASSERT (BitField_is_valid width v)) (\<lambda>_. Inr (push_bit position v))"

definition BitField_decode :: "nat \<Rightarrow> nat \<Rightarrow> uword \<Rightarrow> uword" where
  "BitField_decode position width v = drop_bit position v AND BitField_mask width"

definition BitField_update :: "nat \<Rightarrow> nat \<Rightarrow> uword \<Rightarrow> uword \<Rightarrow> error + uword" where
  "BitField_update position width v original =
     err_bind (ASSERT (BitField_is_valid width v))
       (\<lambda>_. Inr (push_bit position v OR (NOT (BitField_mask_in_place position width) AND original)))"

section \<open>Location\<close>

text \<open>The class holds one word, the field \<^verbatim>\<open>value_\<close>.\<close>

datatype Location = Location (raw_value: uword)

definition kKindBitsPos :: nat where
  "kKindBitsPos = 0"

definition kKindBitsSize :: nat where
  "kKindBitsSize = 5"

definition kPayloadBitsPos :: nat where
  "kPayloadBitsPos = kKindBitsPos + kKindBitsSize"

definition kPayloadBitsSize :: nat where
  "kPayloadBitsSize = kBitsPerWord - kPayloadBitsPos"

definition kInvalidLocation :: uword where
  "kInvalidLocation = 0"

definition kLocationTagMask :: uword where
  "kLocationTagMask = 0x3"

subsection \<open>The enumeration \<^verbatim>\<open>Kind\<close>\<close>

text \<open>
  \<^verbatim>\<open>kind()\<close> may return a number that is no enumerator (for a constant location), so
  a kind is the number itself.
\<close>

definition kInvalid :: uword where
  "kInvalid = 0"

definition kConstantTag :: uword where
  "kConstantTag = 1"

definition kPairLocationTag :: uword where
  "kPairLocationTag = 2"

definition kUnallocated :: uword where
  "kUnallocated = 3"

definition kStackSlot :: uword where
  "kStackSlot = 4"

definition kDoubleStackSlot :: uword where
  "kDoubleStackSlot = 7"

definition kQuadStackSlot :: uword where
  "kQuadStackSlot = 11"

definition kRegister :: uword where
  "kRegister = 8"

definition kFpuRegister :: uword where
  "kFpuRegister = 12"

subsection \<open>Fields of the packed word\<close>

definition KindField_encode :: "uword \<Rightarrow> error + uword" where
  "KindField_encode k = BitField_encode kKindBitsPos kKindBitsSize k"

definition KindField_decode :: "uword \<Rightarrow> uword" where
  "KindField_decode v = BitField_decode kKindBitsPos kKindBitsSize v"

definition PayloadField_encode :: "uword \<Rightarrow> error + uword" where
  "PayloadField_encode p = BitField_encode kPayloadBitsPos kPayloadBitsSize p"

definition PayloadField_decode :: "uword \<Rightarrow> uword" where
  "PayloadField_decode v = BitField_decode kPayloadBitsPos kPayloadBitsSize v"

definition PayloadField_update :: "uword \<Rightarrow> uword \<Rightarrow> error + uword" where
  "PayloadField_update p original = BitField_update kPayloadBitsPos kPayloadBitsSize p original"

definition PolicyField_encode :: "uword \<Rightarrow> error + uword" where
  "PolicyField_encode p = BitField_encode 0 3 p"

definition PolicyField_decode :: "uword \<Rightarrow> uword" where
  "PolicyField_decode v = BitField_decode 0 3 v"

definition kBitsForBaseReg :: nat where
  "kBitsForBaseReg = 6"

definition kBitsForStackIndex :: nat where
  "kBitsForStackIndex = kPayloadBitsSize - kBitsForBaseReg"

definition StackSlotBaseField_encode :: "Register \<Rightarrow> error + uword" where
  "StackSlotBaseField_encode r = BitField_encode 0 kBitsForBaseReg (of_nat r)"

definition StackSlotBaseField_decode :: "uword \<Rightarrow> Register" where
  "StackSlotBaseField_decode v = unat (BitField_decode 0 kBitsForBaseReg v)"

definition StackSlotBaseField_update :: "Register \<Rightarrow> uword \<Rightarrow> error + uword" where
  "StackSlotBaseField_update r original = BitField_update 0 kBitsForBaseReg (of_nat r) original"

definition StackIndexField_encode :: "uword \<Rightarrow> error + uword" where
  "StackIndexField_encode i = BitField_encode kBitsForBaseReg kBitsForStackIndex i"

definition StackIndexField_decode :: "uword \<Rightarrow> int" where
  "StackIndexField_decode v = uint (BitField_decode kBitsForBaseReg kBitsForStackIndex v)"

definition StackIndexField_update :: "uword \<Rightarrow> uword \<Rightarrow> error + uword" where
  "StackIndexField_update i original =
     BitField_update kBitsForBaseReg kBitsForStackIndex i original"

definition kStackIndexBias :: int where
  "kStackIndexBias = 2 ^ (kBitsForStackIndex - 1)"

subsection \<open>Constructors and accessors\<close>

text \<open>The private constructor \<^verbatim>\<open>TemplateLocation(Kind kind, uword payload)\<close>.\<close>

definition Location_of :: "uword \<Rightarrow> uword \<Rightarrow> error + Location" where
  "Location_of k p =
     err_bind (KindField_encode k) (\<lambda>kbits.
     err_bind (PayloadField_encode p) (\<lambda>pbits.
     Inr (Location (kbits OR pbits))))"

definition kind :: "Location \<Rightarrow> uword" where
  "kind loc = KindField_decode (raw_value loc)"

definition payload :: "Location \<Rightarrow> uword" where
  "payload loc = PayloadField_decode (raw_value loc)"

definition IsInvalid :: "Location \<Rightarrow> bool" where
  "IsInvalid loc \<longleftrightarrow> raw_value loc = kInvalidLocation"

text \<open>The default constructor; \<^verbatim>\<open>NoLocation()\<close> returns it.\<close>

definition Invalid :: Location where
  "Invalid = Location kInvalidLocation"

definition NoLocation :: Location where
  "NoLocation = Invalid"

definition IsConstant :: "Location \<Rightarrow> bool" where
  "IsConstant loc \<longleftrightarrow> raw_value loc AND kLocationTagMask = kConstantTag"

definition constant_instruction :: "Location \<Rightarrow> error + uword" where
  "constant_instruction loc =
     err_bind (ASSERT (IsConstant loc)) (\<lambda>_. Inr (raw_value loc AND NOT kLocationTagMask))"

text \<open>\<^verbatim>\<open>Constant(obj)\<close>: \<open>obj\<close> is the address of the \<^verbatim>\<open>ConstantInstr\<close>.\<close>

definition Constant :: "uword \<Rightarrow> error + Location" where
  "Constant obj =
     (let loc = Location (obj OR kConstantTag) in
      err_bind (constant_instruction loc) (\<lambda>p.
      err_bind (ASSERT (obj = p)) (\<lambda>_. Inr loc)))"

definition IsPairLocation :: "Location \<Rightarrow> bool" where
  "IsPairLocation loc \<longleftrightarrow> raw_value loc AND kLocationTagMask = kPairLocationTag"

datatype Policy =
  kAny | kPrefersRegister | kRequiresRegister | kRequiresFpuRegister
  | kWritableRegister | kSameAsFirstInput

fun Policy_value :: "Policy \<Rightarrow> uword" where
  "Policy_value kAny = 0"
| "Policy_value kPrefersRegister = 1"
| "Policy_value kRequiresRegister = 2"
| "Policy_value kRequiresFpuRegister = 3"
| "Policy_value kWritableRegister = 4"
| "Policy_value kSameAsFirstInput = 5"

definition IsUnallocated :: "Location \<Rightarrow> bool" where
  "IsUnallocated loc \<longleftrightarrow> kind loc = kUnallocated"

definition UnallocatedLocation :: "Policy \<Rightarrow> error + Location" where
  "UnallocatedLocation policy =
     err_bind (PolicyField_encode (Policy_value policy)) (\<lambda>p. Location_of kUnallocated p)"

definition Any :: "error + Location" where
  "Any = UnallocatedLocation kAny"

definition RequiresRegister :: "error + Location" where
  "RequiresRegister = UnallocatedLocation kRequiresRegister"

text \<open>\<^verbatim>\<open>policy()\<close> returns the decoded number, cast to the enumeration.\<close>

definition policy :: "Location \<Rightarrow> error + uword" where
  "policy loc =
     err_bind (ASSERT (IsUnallocated loc)) (\<lambda>_. Inr (PolicyField_decode (payload loc)))"

definition RegisterLocation :: "Register \<Rightarrow> error + Location" where
  "RegisterLocation r = Location_of kRegister (of_nat r)"

definition IsRegister :: "Location \<Rightarrow> bool" where
  "IsRegister loc \<longleftrightarrow> kind loc = kRegister"

definition reg :: "Location \<Rightarrow> error + Register" where
  "reg loc = err_bind (ASSERT (IsRegister loc)) (\<lambda>_. Inr (unat (payload loc)))"

definition FpuRegisterLocation :: "FpuRegister \<Rightarrow> error + Location" where
  "FpuRegisterLocation r = Location_of kFpuRegister (of_nat r)"

definition IsFpuRegister :: "Location \<Rightarrow> bool" where
  "IsFpuRegister loc \<longleftrightarrow> kind loc = kFpuRegister"

definition fpu_reg :: "Location \<Rightarrow> error + FpuRegister" where
  "fpu_reg loc = err_bind (ASSERT (IsFpuRegister loc)) (\<lambda>_. Inr (unat (payload loc)))"

definition IsMachineRegisterKind :: "uword \<Rightarrow> bool" where
  "IsMachineRegisterKind k \<longleftrightarrow> k = kRegister \<or> k = kFpuRegister"

definition IsMachineRegister :: "Location \<Rightarrow> bool" where
  "IsMachineRegister loc \<longleftrightarrow> IsMachineRegisterKind (kind loc)"

definition EncodeStackIndex :: "int \<Rightarrow> error + uword" where
  "EncodeStackIndex stack_index =
     err_bind (ASSERT (- kStackIndexBias \<le> stack_index \<and> stack_index < kStackIndexBias))
       (\<lambda>_. Inr (word_of_int (kStackIndexBias + stack_index)))"

definition IsStackSlot :: "Location \<Rightarrow> bool" where
  "IsStackSlot loc \<longleftrightarrow> kind loc = kStackSlot"

definition IsDoubleStackSlot :: "Location \<Rightarrow> bool" where
  "IsDoubleStackSlot loc \<longleftrightarrow> kind loc = kDoubleStackSlot"

definition IsQuadStackSlot :: "Location \<Rightarrow> bool" where
  "IsQuadStackSlot loc \<longleftrightarrow> kind loc = kQuadStackSlot"

definition HasStackIndex :: "Location \<Rightarrow> bool" where
  "HasStackIndex loc \<longleftrightarrow> IsStackSlot loc \<or> IsDoubleStackSlot loc \<or> IsQuadStackSlot loc"

definition base_reg :: "Location \<Rightarrow> error + Register" where
  "base_reg loc =
     err_bind (ASSERT (HasStackIndex loc)) (\<lambda>_. Inr (StackSlotBaseField_decode (payload loc)))"

definition stack_index :: "Location \<Rightarrow> error + int" where
  "stack_index loc =
     err_bind (ASSERT (HasStackIndex loc))
       (\<lambda>_. Inr (StackIndexField_decode (payload loc) - kStackIndexBias))"

text \<open>
  The three stack slot constructors share their body but for the kind; the payload is
  the base register field combined with the biased index field, and the final
  \<^verbatim>\<open>ASSERT\<close> re-reads the index.
\<close>

definition stack_payload :: "int \<Rightarrow> Register \<Rightarrow> error + uword" where
  "stack_payload idx base =
     err_bind (StackSlotBaseField_encode base) (\<lambda>b.
     err_bind (EncodeStackIndex idx) (\<lambda>e.
     err_bind (StackIndexField_encode e) (\<lambda>i. Inr (b OR i))))"

definition StackSlot :: "int \<Rightarrow> Register \<Rightarrow> error + Location" where
  "StackSlot idx base =
     err_bind (stack_payload idx base) (\<lambda>p.
     err_bind (Location_of kStackSlot p) (\<lambda>loc.
     err_bind (ASSERT (stack_index loc = Inr idx)) (\<lambda>_. Inr loc)))"

definition DoubleStackSlot :: "int \<Rightarrow> Register \<Rightarrow> error + Location" where
  "DoubleStackSlot idx base =
     err_bind (stack_payload idx base) (\<lambda>p.
     err_bind (Location_of kDoubleStackSlot p) (\<lambda>loc.
     err_bind (ASSERT (stack_index loc = Inr idx)) (\<lambda>_. Inr loc)))"

definition QuadStackSlot :: "int \<Rightarrow> Register \<Rightarrow> error + Location" where
  "QuadStackSlot idx base =
     err_bind (stack_payload idx base) (\<lambda>p.
     err_bind (Location_of kQuadStackSlot p) (\<lambda>loc.
     err_bind (ASSERT (stack_index loc = Inr idx)) (\<lambda>_. Inr loc)))"

definition Equals :: "Location \<Rightarrow> Location \<Rightarrow> bool" where
  "Equals a b \<longleftrightarrow> raw_value a = raw_value b"

text \<open>\<^verbatim>\<open>write()\<close> and \<^verbatim>\<open>read(value)\<close> expose the packed word.\<close>

definition Location_write :: "Location \<Rightarrow> uword" where
  "Location_write loc = raw_value loc"

definition Location_read :: "uword \<Rightarrow> Location" where
  "Location_read v = Location v"

definition set_stack_index :: "int \<Rightarrow> Location \<Rightarrow> error + Location" where
  "set_stack_index idx loc =
     err_bind (ASSERT (HasStackIndex loc)) (\<lambda>_.
     err_bind (EncodeStackIndex idx) (\<lambda>e.
     err_bind (StackIndexField_update e (payload loc)) (\<lambda>p.
     err_bind (PayloadField_update p (raw_value loc)) (\<lambda>v. Inr (Location v)))))"

definition set_base_reg :: "Register \<Rightarrow> Location \<Rightarrow> error + Location" where
  "set_base_reg r loc =
     err_bind (ASSERT (HasStackIndex loc)) (\<lambda>_.
     err_bind (StackSlotBaseField_update r (payload loc)) (\<lambda>p.
     err_bind (PayloadField_update p (raw_value loc)) (\<lambda>v. Inr (Location v))))"

section \<open>PairLocation and the zone that owns it\<close>

definition kPairLength :: int where
  "kPairLength = 2"

text \<open>The class holds the array \<^verbatim>\<open>locations_[kPairLength]\<close>.\<close>

datatype PairLocation = PairLocation (locations: "Location list")

text \<open>
  The constructor: every element of the array is default-constructed, and the loop
  asserts that each one is invalid.
\<close>

definition TemplatePairLocation :: "error + PairLocation" where
  "TemplatePairLocation =
     (let p = PairLocation (replicate (nat kPairLength) Invalid) in
      err_bind (ASSERT (list_all IsInvalid (locations p))) (\<lambda>_. Inr p))"

definition PairLocation_length :: "PairLocation \<Rightarrow> int" where
  "PairLocation_length p = kPairLength"

definition At :: "PairLocation \<Rightarrow> int \<Rightarrow> error + Location" where
  "At p i =
     err_bind (ASSERT (i \<ge> 0)) (\<lambda>_.
     err_bind (ASSERT (i < kPairLength)) (\<lambda>_.
     Inr (locations p ! nat i)))"

definition SetAt :: "PairLocation \<Rightarrow> int \<Rightarrow> Location \<Rightarrow> error + PairLocation" where
  "SetAt p i loc =
     err_bind (ASSERT (i \<ge> 0)) (\<lambda>_.
     err_bind (ASSERT (i < kPairLength)) (\<lambda>_.
     Inr (PairLocation ((locations p)[nat i := loc]))))"

text \<open>
  Modelled from the spec: the zone allocator (\<^verbatim>\<open>vm/zone.h\<close>) is not among the sources.
  The spec says that a PairLocation is owned by the allocation arena of the compilation
  unit, is never freed individually, and is reached from a location through a tagged
  reference. The zone is a store from addresses to PairLocations together with the
  address of the next allocation; a PairLocation takes two words. Reading an address
  that holds no PairLocation is undefined.
\<close>

record Zone =
  pair_objects :: "uword \<rightharpoonup> PairLocation"
  position :: uword

definition kPairLocationSize :: uword where
  "kPairLocationSize = 16"

definition Zone_empty :: "uword \<Rightarrow> Zone" where
  "Zone_empty start = \<lparr>pair_objects = Map.empty, position = start\<rparr>"

definition new_PairLocation :: "Zone \<Rightarrow> error + (Zone \<times> uword)" where
  "new_PairLocation z =
     err_bind TemplatePairLocation (\<lambda>p.
     Inr (z\<lparr>pair_objects := (pair_objects z)(position z \<mapsto> p),
            position := position z + kPairLocationSize\<rparr>, position z))"

definition Zone_At :: "Zone \<Rightarrow> uword \<Rightarrow> int \<Rightarrow> error + Location" where
  "Zone_At z a i =
     (case pair_objects z a of
        None \<Rightarrow> Inl UndefinedBehaviour
      | Some p \<Rightarrow> At p i)"

definition Zone_SetAt :: "Zone \<Rightarrow> uword \<Rightarrow> int \<Rightarrow> Location \<Rightarrow> error + Zone" where
  "Zone_SetAt z a i loc =
     (case pair_objects z a of
        None \<Rightarrow> Inl UndefinedBehaviour
      | Some p \<Rightarrow> err_bind (SetAt p i loc)
          (\<lambda>p'. Inr (z\<lparr>pair_objects := (pair_objects z)(a \<mapsto> p')\<rparr>)))"

text \<open>
  Modelled from the spec: \<^verbatim>\<open>Pair\<close> is declared in the header and defined elsewhere.
  The spec says that \<^verbatim>\<open>Pair(a, b)\<close> allocates a new PairLocation, holding \<open>a\<close> and \<open>b\<close>,
  and returns a pair reference to it: the address of the object with the tag
  \<open>kPairLocationTag\<close> in the bits of \<open>kLocationTagMask\<close>, which must be clear in the
  address.
\<close>

definition Pair :: "Zone \<Rightarrow> Location \<Rightarrow> Location \<Rightarrow> error + (Zone \<times> Location)" where
  "Pair z first second =
     err_bind (new_PairLocation z) (\<lambda>(z1, a).
     err_bind (ASSERT (a AND kLocationTagMask = 0)) (\<lambda>_.
     err_bind (Zone_SetAt z1 a 0 first) (\<lambda>z2.
     err_bind (Zone_SetAt z2 a 1 second) (\<lambda>z3.
     Inr (z3, Location (a OR kPairLocationTag))))))"

text \<open>
  Modelled from the spec: \<^verbatim>\<open>AsPairLocation\<close> is declared in the header and defined
  elsewhere. The spec says that a pair reference is dereferenced to its PairLocation and
  that doing so on a location that is no pair reference is an error; the result is the
  address, the reference without its tag.
\<close>

definition AsPairLocation :: "Location \<Rightarrow> error + uword" where
  "AsPairLocation loc =
     err_bind (ASSERT (IsPairLocation loc))
       (\<lambda>_. Inr (raw_value loc AND NOT kLocationTagMask))"

text \<open>\<^verbatim>\<open>Component(i)\<close> is the header's: \<^verbatim>\<open>AsPairLocation()->At(i)\<close>.\<close>

definition Component :: "Zone \<Rightarrow> Location \<Rightarrow> int \<Rightarrow> error + Location" where
  "Component z loc i = err_bind (AsPairLocation loc) (\<lambda>a. Zone_At z a i)"

section \<open>SmallSet and RegisterSet\<close>

datatype Representation =
  kNoRepresentation | kTagged | kUntagged | kUnboxedDouble | kUnboxedFloat
  | kUnboxedInt32 | kUnboxedUint32 | kUnboxedInt64 | kUnboxedFloat32x4
  | kUnboxedInt32x4 | kUnboxedFloat64x2 | kPairOfTagged | kNumRepresentations

text \<open>The class holds the mask \<^verbatim>\<open>data_\<close>.\<close>

datatype SmallSet = SmallSet (data: uword)

definition SmallSet_empty :: SmallSet where
  "SmallSet_empty = SmallSet 0"

text \<open>
  \<^verbatim>\<open>ToMask\<close> returns \<^verbatim>\<open>1 << static_cast<intptr_t>(value)\<close>. The literal \<^verbatim>\<open>1\<close> is a
  32-bit \<^verbatim>\<open>int\<close>: the shift is done on 32 bits and the result is sign-extended to
  \<^verbatim>\<open>intptr_t\<close>. A shift by 32 or more is undefined.
\<close>

definition kBitsPerInt :: nat where
  "kBitsPerInt = 32"

definition ToMask :: "nat \<Rightarrow> error + uword" where
  "ToMask v =
     err_bind (ASSERT (v < kWordSize * kBitsPerByte)) (\<lambda>_.
     if v < kBitsPerInt then Inr (scast (push_bit v (1 :: 32 word)))
     else Inl UndefinedBehaviour)"


definition SmallSet_Contains :: "SmallSet \<Rightarrow> nat \<Rightarrow> error + bool" where
  "SmallSet_Contains s v = err_bind (ToMask v) (\<lambda>m. Inr (data s AND m \<noteq> 0))"

definition SmallSet_Add :: "SmallSet \<Rightarrow> nat \<Rightarrow> error + SmallSet" where
  "SmallSet_Add s v = err_bind (ToMask v) (\<lambda>m. Inr (SmallSet (data s OR m)))"

definition SmallSet_Remove :: "SmallSet \<Rightarrow> nat \<Rightarrow> error + SmallSet" where
  "SmallSet_Remove s v = err_bind (ToMask v) (\<lambda>m. Inr (SmallSet (data s AND NOT m)))"

definition SmallSet_IsEmpty :: "SmallSet \<Rightarrow> bool" where
  "SmallSet_IsEmpty s \<longleftrightarrow> data s = 0"

record RegisterSet =
  cpu_registers :: SmallSet
  untagged_cpu_registers :: SmallSet
  fpu_registers :: SmallSet

text \<open>
  The constructor; the numbers of cpu and fpu registers of the target are its
  parameters.
\<close>

definition RegisterSet_new :: "nat \<Rightarrow> nat \<Rightarrow> error + RegisterSet" where
  "RegisterSet_new kNumberOfCpuRegisters kNumberOfFpuRegisters =
     err_bind (ASSERT (kNumberOfCpuRegisters \<le> kWordSize * kBitsPerByte)) (\<lambda>_.
     err_bind (ASSERT (kNumberOfFpuRegisters \<le> kWordSize * kBitsPerByte)) (\<lambda>_.
     Inr \<lparr>cpu_registers = SmallSet_empty, untagged_cpu_registers = SmallSet_empty,
          fpu_registers = SmallSet_empty\<rparr>))"


definition MarkUntagged :: "RegisterSet \<Rightarrow> Location \<Rightarrow> error + RegisterSet" where
  "MarkUntagged s loc =
     err_bind (ASSERT (IsRegister loc)) (\<lambda>_.
     err_bind (reg loc) (\<lambda>r.
     err_bind (SmallSet_Add (untagged_cpu_registers s) r) (\<lambda>u.
     Inr (s\<lparr>untagged_cpu_registers := u\<rparr>))))"

definition RegisterSet_Add :: "RegisterSet \<Rightarrow> Location \<Rightarrow> Representation \<Rightarrow> error + RegisterSet" where
  "RegisterSet_Add s loc rep =
     (if IsRegister loc then
        err_bind (reg loc) (\<lambda>r.
        err_bind (SmallSet_Add (cpu_registers s) r) (\<lambda>c.
        if rep \<noteq> kTagged then MarkUntagged (s\<lparr>cpu_registers := c\<rparr>) loc
        else Inr (s\<lparr>cpu_registers := c\<rparr>)))
      else if IsFpuRegister loc then
        err_bind (fpu_reg loc) (\<lambda>r.
        err_bind (SmallSet_Add (fpu_registers s) r) (\<lambda>f.
        Inr (s\<lparr>fpu_registers := f\<rparr>)))
      else Inr s)"

definition RegisterSet_Remove :: "RegisterSet \<Rightarrow> Location \<Rightarrow> error + RegisterSet" where
  "RegisterSet_Remove s loc =
     (if IsRegister loc then
        err_bind (reg loc) (\<lambda>r.
        err_bind (SmallSet_Remove (cpu_registers s) r) (\<lambda>c.
        Inr (s\<lparr>cpu_registers := c\<rparr>)))
      else if IsFpuRegister loc then
        err_bind (fpu_reg loc) (\<lambda>r.
        err_bind (SmallSet_Remove (fpu_registers s) r) (\<lambda>f.
        Inr (s\<lparr>fpu_registers := f\<rparr>)))
      else Inr s)"

definition ContainsRegister :: "RegisterSet \<Rightarrow> Register \<Rightarrow> error + bool" where
  "ContainsRegister s r = SmallSet_Contains (cpu_registers s) r"

definition ContainsFpuRegister :: "RegisterSet \<Rightarrow> FpuRegister \<Rightarrow> error + bool" where
  "ContainsFpuRegister s r = SmallSet_Contains (fpu_registers s) r"

definition RegisterSet_Contains :: "RegisterSet \<Rightarrow> Location \<Rightarrow> error + bool" where
  "RegisterSet_Contains s loc =
     (if IsRegister loc then err_bind (reg loc) (\<lambda>r. ContainsRegister s r)
      else if IsFpuRegister loc then err_bind (fpu_reg loc) (\<lambda>r. ContainsFpuRegister s r)
      else Inl Unreachable)"

definition HasUntaggedValues :: "RegisterSet \<Rightarrow> bool" where
  "HasUntaggedValues s \<longleftrightarrow>
     \<not> SmallSet_IsEmpty (untagged_cpu_registers s) \<or> \<not> SmallSet_IsEmpty (fpu_registers s)"

definition IsTagged :: "RegisterSet \<Rightarrow> Register \<Rightarrow> error + bool" where
  "IsTagged s r =
     err_bind (SmallSet_Contains (untagged_cpu_registers s) r) (\<lambda>b. Inr (\<not> b))"

text \<open>
  Modelled from the spec: \<^verbatim>\<open>RegisterCount\<close> is declared in the header and defined
  elsewhere. The spec says that counting operations return the population count of the
  respective bitmask.
\<close>

definition RegisterCount :: "uword \<Rightarrow> int" where
  "RegisterCount registers = int (length (filter (bit registers) [0..<64]))"

definition CpuRegisterCount :: "RegisterSet \<Rightarrow> int" where
  "CpuRegisterCount s = RegisterCount (data (cpu_registers s))"

definition FpuRegisterCount :: "RegisterSet \<Rightarrow> int" where
  "FpuRegisterCount s = RegisterCount (data (fpu_registers s))"

section \<open>LocationSummary\<close>

datatype ContainsCall =
  kNoCall | kCall | kCallCalleeSafe | kCallOnSlowPath | kCallOnSharedSlowPath

text \<open>
  The fields of the class, but for the stack bitmap (its type is not among the sources
  and no setter reads it) and the debug-only \<^verbatim>\<open>writable_inputs_\<close>.
\<close>

record LocationSummary =
  num_inputs :: int
  input_locations :: "Location list"
  num_temps :: int
  temp_locations :: "Location list"
  output_location :: Location
  contains_call :: ContainsCall
  live_registers :: RegisterSet

text \<open>
  Modelled from the spec: the constructor is declared in the header and defined
  elsewhere. The spec says that it allocates storage for inputs and temps sized to the
  counts and a single output slot, all initialised to Invalid.
\<close>

definition LocationSummary_new :: "int \<Rightarrow> int \<Rightarrow> ContainsCall \<Rightarrow> LocationSummary" where
  "LocationSummary_new input_count temp_count mode =
     \<lparr>num_inputs = input_count,
      input_locations = replicate (nat input_count) Invalid,
      num_temps = temp_count,
      temp_locations = replicate (nat temp_count) Invalid,
      output_location = Invalid,
      contains_call = mode,
      live_registers = \<lparr>cpu_registers = SmallSet_empty,
        untagged_cpu_registers = SmallSet_empty, fpu_registers = SmallSet_empty\<rparr>\<rparr>"

definition always_calls :: "LocationSummary \<Rightarrow> bool" where
  "always_calls s \<longleftrightarrow> contains_call s = kCall \<or> contains_call s = kCallCalleeSafe"

definition in_location :: "LocationSummary \<Rightarrow> int \<Rightarrow> error + Location" where
  "in_location s index =
     err_bind (ASSERT (index \<ge> 0)) (\<lambda>_.
     err_bind (ASSERT (index < num_inputs s)) (\<lambda>_.
     Inr (input_locations s ! nat index)))"

text \<open>
  \<^verbatim>\<open>set_in\<close> reads the components of a pair through the zone. Both assertions of the
  pair branch are modelled as written: each reads \<^verbatim>\<open>At(0)\<close>.
\<close>

definition set_in :: "LocationSummary \<Rightarrow> Zone \<Rightarrow> int \<Rightarrow> Location \<Rightarrow> error + LocationSummary" where
  "set_in s z index loc =
     err_bind (ASSERT (index \<ge> 0)) (\<lambda>_.
     err_bind (ASSERT (index < num_inputs s)) (\<lambda>_.
     err_bind
       (if always_calls s then
          (if IsUnallocated loc then
             err_bind (policy loc) (\<lambda>p. ASSERT (p = Policy_value kAny))
           else if IsPairLocation loc then
             err_bind
               (err_bind (AsPairLocation loc) (\<lambda>a.
                err_bind (Zone_At z a 0) (\<lambda>c.
                if \<not> IsUnallocated c then Inr ()
                else err_bind (AsPairLocation loc) (\<lambda>a'.
                     err_bind (Zone_At z a' 0) (\<lambda>c'.
                     err_bind (policy c') (\<lambda>p. ASSERT (p = Policy_value kAny)))))))
               (\<lambda>_.
                err_bind (AsPairLocation loc) (\<lambda>a.
                err_bind (Zone_At z a 0) (\<lambda>c.
                if \<not> IsUnallocated c then Inr ()
                else err_bind (AsPairLocation loc) (\<lambda>a'.
                     err_bind (Zone_At z a' 0) (\<lambda>c'.
                     err_bind (policy c') (\<lambda>p. ASSERT (p = Policy_value kAny)))))))
           else Inr ())
        else Inr ())
       (\<lambda>_. Inr (s\<lparr>input_locations := (input_locations s)[nat index := loc]\<rparr>))))"

definition temp :: "LocationSummary \<Rightarrow> int \<Rightarrow> error + Location" where
  "temp s index =
     err_bind (ASSERT (index \<ge> 0)) (\<lambda>_.
     err_bind (ASSERT (index < num_temps s)) (\<lambda>_.
     Inr (temp_locations s ! nat index)))"

definition set_temp :: "LocationSummary \<Rightarrow> int \<Rightarrow> Location \<Rightarrow> error + LocationSummary" where
  "set_temp s index loc =
     err_bind (ASSERT (index \<ge> 0)) (\<lambda>_.
     err_bind (ASSERT (index < num_temps s)) (\<lambda>_.
     err_bind (ASSERT (\<not> always_calls s \<or> IsMachineRegister loc)) (\<lambda>_.
     Inr (s\<lparr>temp_locations := (temp_locations s)[nat index := loc]\<rparr>))))"

definition out :: "LocationSummary \<Rightarrow> int \<Rightarrow> error + Location" where
  "out s index = err_bind (ASSERT (index = 0)) (\<lambda>_. Inr (output_location s))"

definition set_out :: "LocationSummary \<Rightarrow> int \<Rightarrow> Location \<Rightarrow> error + LocationSummary" where
  "set_out s index loc =
     err_bind (ASSERT (index = 0)) (\<lambda>_.
     err_bind (ASSERT (\<not> always_calls s \<or>
                       (IsMachineRegister loc \<or> IsInvalid loc \<or> IsPairLocation loc))) (\<lambda>_.
     Inr (s\<lparr>output_location := loc\<rparr>)))"

section \<open>FrameRebase\<close>

record FrameRebase =
  old_base :: Register
  new_base :: Register
  stack_delta :: int

text \<open>
  \<^verbatim>\<open>Rebase\<close> calls itself on the components of a pair, which may be pairs again, and a
  PairLocation can be made to refer to itself through \<^verbatim>\<open>SetAt\<close>; the recursion is
  bounded by fuel, and \<open>None\<close> stands for fuel that ran out. The source passes both
  recursive calls as arguments of one call,
  \<^verbatim>\<open>Location::Pair(Rebase(loc.Component(0)), Rebase(loc.Component(1)))\<close>, and C++ leaves
  open which argument is evaluated first; the order that the compiler has chosen is a
  parameter of the model. It decides in which zone each component is rebased, and so
  the addresses of the pairs that the rebase of a nested pair allocates.
\<close>

datatype ArgumentOrder = LeftToRight | RightToLeft

fun Rebase ::
  "nat \<Rightarrow> ArgumentOrder \<Rightarrow> FrameRebase \<Rightarrow> Zone \<Rightarrow> Location
     \<Rightarrow> (error + Zone \<times> Location) option" where
  "Rebase 0 ord fr z loc = None"
| "Rebase (Suc n) ord fr z loc =
     (if IsPairLocation loc then
        (case ord of
           LeftToRight \<Rightarrow>
             (case Component z loc 0 of
                Inl e \<Rightarrow> Some (Inl e)
              | Inr c0 \<Rightarrow>
             (case Rebase n ord fr z c0 of
                None \<Rightarrow> None
              | Some (Inl e) \<Rightarrow> Some (Inl e)
              | Some (Inr (z1, r0)) \<Rightarrow>
             (case Component z1 loc 1 of
                Inl e \<Rightarrow> Some (Inl e)
              | Inr c1 \<Rightarrow>
             (case Rebase n ord fr z1 c1 of
                None \<Rightarrow> None
              | Some (Inl e) \<Rightarrow> Some (Inl e)
              | Some (Inr (z2, r1)) \<Rightarrow> Some (Pair z2 r0 r1)))))
         | RightToLeft \<Rightarrow>
             (case Component z loc 1 of
                Inl e \<Rightarrow> Some (Inl e)
              | Inr c1 \<Rightarrow>
             (case Rebase n ord fr z c1 of
                None \<Rightarrow> None
              | Some (Inl e) \<Rightarrow> Some (Inl e)
              | Some (Inr (z1, r1)) \<Rightarrow>
             (case Component z1 loc 0 of
                Inl e \<Rightarrow> Some (Inl e)
              | Inr c0 \<Rightarrow>
             (case Rebase n ord fr z1 c0 of
                None \<Rightarrow> None
              | Some (Inl e) \<Rightarrow> Some (Inl e)
              | Some (Inr (z2, r0)) \<Rightarrow> Some (Pair z2 r0 r1))))))
      else if \<not> HasStackIndex loc then Some (Inr (z, loc))
      else
        (case base_reg loc of
           Inl e \<Rightarrow> Some (Inl e)
         | Inr b \<Rightarrow>
             if b \<noteq> old_base fr then Some (Inr (z, loc))
             else Some
               (err_bind (set_base_reg (new_base fr) loc) (\<lambda>l1.
                err_bind (stack_index l1) (\<lambda>k.
                err_bind (set_stack_index (k + stack_delta fr) l1) (\<lambda>l2.
                Inr (z, l2)))))))"

section \<open>The public constructors, as one function\<close>

text \<open>
  A call of one of the public constructors of \<^verbatim>\<open>Location\<close>, and the function that
  makes the call; a statement about every pair of constructors quantifies over these.
  Only \<^verbatim>\<open>Pair\<close> changes the zone. A call is in range when its register number fits
  the field that stores it and its stack index lies within the bias.
\<close>

datatype Construction =
  MakeInvalid
  | MakeUnallocated Policy
  | MakeRegister Register
  | MakeFpuRegister FpuRegister
  | MakeStackSlot int Register
  | MakeDoubleStackSlot int Register
  | MakeQuadStackSlot int Register
  | MakeConstant uword
  | MakePair Location Location

fun construct :: "Zone \<Rightarrow> Construction \<Rightarrow> error + (Zone \<times> Location)" where
  "construct z MakeInvalid = Inr (z, NoLocation)"
| "construct z (MakeUnallocated p) = err_bind (UnallocatedLocation p) (\<lambda>loc. Inr (z, loc))"
| "construct z (MakeRegister r) = err_bind (RegisterLocation r) (\<lambda>loc. Inr (z, loc))"
| "construct z (MakeFpuRegister r) = err_bind (FpuRegisterLocation r) (\<lambda>loc. Inr (z, loc))"
| "construct z (MakeStackSlot i r) = err_bind (StackSlot i r) (\<lambda>loc. Inr (z, loc))"
| "construct z (MakeDoubleStackSlot i r) = err_bind (DoubleStackSlot i r) (\<lambda>loc. Inr (z, loc))"
| "construct z (MakeQuadStackSlot i r) = err_bind (QuadStackSlot i r) (\<lambda>loc. Inr (z, loc))"
| "construct z (MakeConstant obj) = err_bind (Constant obj) (\<lambda>loc. Inr (z, loc))"
| "construct z (MakePair x y) = Pair z x y"

fun in_range :: "Construction \<Rightarrow> bool" where
  "in_range (MakeRegister r) \<longleftrightarrow> r < 2 ^ kPayloadBitsSize"
| "in_range (MakeFpuRegister r) \<longleftrightarrow> r < 2 ^ kPayloadBitsSize"
| "in_range (MakeStackSlot i r) \<longleftrightarrow>
     - kStackIndexBias \<le> i \<and> i < kStackIndexBias \<and> r < 2 ^ kBitsForBaseReg"
| "in_range (MakeDoubleStackSlot i r) \<longleftrightarrow>
     - kStackIndexBias \<le> i \<and> i < kStackIndexBias \<and> r < 2 ^ kBitsForBaseReg"
| "in_range (MakeQuadStackSlot i r) \<longleftrightarrow>
     - kStackIndexBias \<le> i \<and> i < kStackIndexBias \<and> r < 2 ^ kBitsForBaseReg"
| "in_range MakeInvalid \<longleftrightarrow> True"
| "in_range (MakeUnallocated p) \<longleftrightarrow> True"
| "in_range (MakeConstant obj) \<longleftrightarrow> True"
| "in_range (MakePair x y) \<longleftrightarrow> True"

text \<open>
  A sequence of constructor calls, made one after the other in the zone that the call
  before has left; it fails with the first call that fails.
\<close>

fun construct_all :: "Zone \<Rightarrow> Construction list \<Rightarrow> error + Zone" where
  "construct_all z [] = Inr z"
| "construct_all z (c # cs) = err_bind (construct z c) (\<lambda>(z', loc). construct_all z' cs)"

text \<open>
  The invariant of the zone: every PairLocation that it holds lies below the address of
  the next allocation. The empty zone has it, and an allocation keeps it as long as the
  addresses do not wrap around.
\<close>

definition Zone_ok :: "Zone \<Rightarrow> bool" where
  "Zone_ok z \<longleftrightarrow> (\<forall>a \<in> dom (pair_objects z). a < position z)"

section \<open>Bit fields: what fits is read back\<close>

lemma BitField_mask_eq: "BitField_mask w = mask w"
  by (simp add: BitField_mask_def mask_eq_exp_minus_1)

lemma is_valid_iff: "BitField_is_valid w v \<longleftrightarrow> take_bit w v = v"
proof -
  have "v AND NOT (mask w) = 0 \<longleftrightarrow> take_bit w v = v"
    by (auto simp: bit_eq_iff bit_simps)
  then show ?thesis by (simp add: BitField_is_valid_def BitField_mask_eq)
qed

lemma fits_bitD: "take_bit w (v::uword) = v \<Longrightarrow> bit v n \<Longrightarrow> n < w"
  by (metis bit_take_bit_iff)

lemma BitField_encode_fits:
  "take_bit w v = v \<Longrightarrow> BitField_encode pos w v = Inr (push_bit pos v)"
  by (simp add: BitField_encode_def ASSERT_def is_valid_iff)

lemma BitField_encode_overflow:
  "take_bit w v \<noteq> v \<Longrightarrow> BitField_encode pos w v = Inl AssertionFailed"
  by (simp add: BitField_encode_def ASSERT_def is_valid_iff)

lemma BitField_decode_eq: "BitField_decode pos w v = take_bit w (drop_bit pos v)"
  by (simp add: BitField_decode_def BitField_mask_eq take_bit_eq_mask)

lemmas field_consts = kKindBitsPos_def kKindBitsSize_def kPayloadBitsPos_def
  kPayloadBitsSize_def kBitsPerWord_def kWordSize_def kBitsPerByte_def
  kBitsForBaseReg_def kBitsForStackIndex_def

lemma Location_of_fits:
  "take_bit 5 k = k \<Longrightarrow> take_bit 59 p = p \<Longrightarrow>
   Location_of k p = Inr (Location (k OR push_bit 5 p))"
  by (simp add: Location_of_def KindField_encode_def PayloadField_encode_def
      BitField_encode_fits field_consts)

lemma kind_pack:
  assumes "take_bit 5 k = k"
  shows "kind (Location (k OR push_bit 5 p)) = k"
proof -
  have k: "\<And>n. bit k n \<Longrightarrow> n < 5" using assms by (rule fits_bitD)
  have "take_bit 5 (k OR push_bit 5 p) = k"
    by (rule bit_word_eqI) (auto simp: bit_simps dest: k)
  then show ?thesis
    by (simp add: kind_def KindField_decode_def BitField_decode_eq field_consts)
qed

lemma payload_pack:
  assumes "take_bit 5 k = k" and "take_bit 59 p = p"
  shows "payload (Location (k OR push_bit 5 p)) = p"
proof -
  have k: "\<And>n. bit k n \<Longrightarrow> n < 5" using assms(1) by (rule fits_bitD)
  have p: "\<And>n. bit p n \<Longrightarrow> n < 59" using assms(2) by (rule fits_bitD)
  have "take_bit 59 (drop_bit 5 (k OR push_bit 5 p)) = p"
    by (rule bit_word_eqI) (auto simp: bit_simps dest: k p)
  then show ?thesis
    by (simp add: payload_def PayloadField_decode_def BitField_decode_eq field_consts)
qed

lemma kLocationTagMask_eq: "kLocationTagMask = mask 2"
  by (simp add: kLocationTagMask_def mask_eq_exp_minus_1)

lemma tag_pack:
  "(k OR push_bit 5 p) AND kLocationTagMask = k AND kLocationTagMask"
  unfolding kLocationTagMask_eq
  by (rule bit_word_eqI) (auto simp: bit_simps)

lemma stack_fields_fit:
  assumes "take_bit 6 b = b" and "take_bit 53 i = i"
  shows "take_bit 59 (b OR push_bit 6 i) = (b OR push_bit 6 i :: uword)"
proof -
  have b: "\<And>n. bit b n \<Longrightarrow> n < 6" using assms(1) by (rule fits_bitD)
  have i: "\<And>n. bit i n \<Longrightarrow> n < 53" using assms(2) by (rule fits_bitD)
  show ?thesis
    by (rule bit_word_eqI) (auto simp: bit_simps dest: b i)
qed

lemma stack_base_field:
  assumes "take_bit 6 b = b"
  shows "take_bit 6 (b OR push_bit 6 i) = (b :: uword)"
proof -
  have b: "\<And>n. bit b n \<Longrightarrow> n < 6" using assms(1) by (rule fits_bitD)
  show ?thesis
    by (rule bit_word_eqI) (auto simp: bit_simps dest: b)
qed

lemma stack_index_field:
  assumes "take_bit 6 b = b" and "take_bit 53 i = i"
  shows "take_bit 53 (drop_bit 6 (b OR push_bit 6 i)) = (i :: uword)"
proof -
  have b: "\<And>n. bit b n \<Longrightarrow> n < 6" using assms(1) by (rule fits_bitD)
  have i: "\<And>n. bit i n \<Longrightarrow> n < 53" using assms(2) by (rule fits_bitD)
  show ?thesis
    by (rule bit_word_eqI) (auto simp: bit_simps dest: b i)
qed

lemma of_nat_fits: "r < 2 ^ w \<Longrightarrow> take_bit w (of_nat r :: uword) = of_nat r"
  by (simp add: take_bit_of_nat take_bit_nat_eq_self)

lemma unat_of_nat_small: "r < 2 ^ 64 \<Longrightarrow> unat (of_nat r :: uword) = r"
  by (simp add: unat_of_nat)

lemma word_of_int_fits: "0 \<le> x \<Longrightarrow> x < 2 ^ w \<Longrightarrow> take_bit w (word_of_int x :: uword) = word_of_int x"
  by (simp add: take_bit_of_int take_bit_int_eq_self)

lemma uint_word_of_int_small: "0 \<le> x \<Longrightarrow> x < 2 ^ 64 \<Longrightarrow> uint (word_of_int x :: uword) = x"
  by (simp add: uint_word_of_int)

lemma kStackIndexBias_eq: "kStackIndexBias = 2 ^ 52"
  by (simp add: kStackIndexBias_def field_consts)


lemmas kind_consts = kInvalid_def kConstantTag_def kPairLocationTag_def kUnallocated_def
  kStackSlot_def kDoubleStackSlot_def kQuadStackSlot_def kRegister_def kFpuRegister_def

lemma kind_codes_fit:
  "take_bit 5 kInvalid = kInvalid" "take_bit 5 kUnallocated = kUnallocated"
  "take_bit 5 kStackSlot = kStackSlot" "take_bit 5 kDoubleStackSlot = kDoubleStackSlot"
  "take_bit 5 kQuadStackSlot = kQuadStackSlot" "take_bit 5 kRegister = kRegister"
  "take_bit 5 kFpuRegister = kFpuRegister"
  by (simp_all add: kind_consts take_bit_eq_mask mask_eq_exp_minus_1)

lemma decode_base_field:
  assumes "take_bit 6 b = b"
  shows "BitField_decode 0 kBitsForBaseReg (b OR push_bit 6 i) = b"
proof -
  have b: "\<And>n. bit b n \<Longrightarrow> n < 6" using assms(1) by (rule fits_bitD)
  have "take_bit 6 (drop_bit 0 (b OR push_bit 6 i)) = b"
    by (rule bit_word_eqI) (auto simp: bit_simps dest: b)
  then show ?thesis
    unfolding BitField_decode_eq kBitsForBaseReg_def .
qed

lemma decode_index_field:
  assumes "take_bit 6 b = b" and "take_bit 53 i = i"
  shows "BitField_decode kBitsForBaseReg kBitsForStackIndex (b OR push_bit 6 i) = i"
proof -
  have w: "kBitsForStackIndex = 53" by (simp add: field_consts)
  show ?thesis
    unfolding BitField_decode_eq kBitsForBaseReg_def w
    by (rule stack_index_field [OF assms])
qed

lemma pack_slot:
  assumes k: "take_bit 5 k = k" and b: "take_bit 6 b = b" and i: "take_bit 53 i = i"
  defines "loc \<equiv> Location (k OR push_bit 5 (b OR push_bit 6 i))"
  shows "Location_of k (b OR push_bit 6 i) = Inr loc"
    and "kind loc = k"
    and "payload loc = b OR push_bit 6 i"
    and "StackSlotBaseField_decode (payload loc) = unat b"
    and "StackIndexField_decode (payload loc) = uint i"
proof -
  have p: "take_bit 59 (b OR push_bit 6 i) = b OR push_bit 6 i"
    by (rule stack_fields_fit [OF b i])
  show "Location_of k (b OR push_bit 6 i) = Inr loc"
    unfolding loc_def by (rule Location_of_fits [OF k p])
  show "kind loc = k" unfolding loc_def by (rule kind_pack [OF k])
  show pl: "payload loc = b OR push_bit 6 i"
    unfolding loc_def by (rule payload_pack [OF k p])
  show "StackSlotBaseField_decode (payload loc) = unat b"
    unfolding pl StackSlotBaseField_decode_def by (simp only: decode_base_field [OF b])
  show "StackIndexField_decode (payload loc) = uint i"
    unfolding pl StackIndexField_decode_def by (simp only: decode_index_field [OF b i])
qed

lemma base_encode_fits:
  assumes "r < 2 ^ kBitsForBaseReg"
  shows "StackSlotBaseField_encode r = Inr (of_nat r)"
    and "take_bit 6 (of_nat r :: uword) = of_nat r"
    and "unat (of_nat r :: uword) = r"
proof -
  show b: "take_bit 6 (of_nat r :: uword) = of_nat r"
    using assms by (simp add: of_nat_fits kBitsForBaseReg_def)
  then show "StackSlotBaseField_encode r = Inr (of_nat r)"
    by (simp add: StackSlotBaseField_encode_def BitField_encode_fits kBitsForBaseReg_def)
  show "unat (of_nat r :: uword) = r"
    using assms by (simp add: unat_of_nat kBitsForBaseReg_def)
qed

lemma index_encode_fits:
  assumes "- kStackIndexBias \<le> idx" and "idx < kStackIndexBias"
  defines "e \<equiv> word_of_int (kStackIndexBias + idx) :: uword"
  shows "EncodeStackIndex idx = Inr e"
    and "take_bit 53 e = e"
    and "uint e = kStackIndexBias + idx"
    and "StackIndexField_encode e = Inr (push_bit 6 e)"
proof -
  show "EncodeStackIndex idx = Inr e"
    using assms(1,2) by (simp add: EncodeStackIndex_def ASSERT_def e_def)
  show f: "take_bit 53 e = e"
    unfolding e_def using assms(1,2)
    by (intro word_of_int_fits) (simp_all add: kStackIndexBias_eq)
  show "uint e = kStackIndexBias + idx"
    unfolding e_def using assms(1,2)
    by (intro uint_word_of_int_small) (simp_all add: kStackIndexBias_eq)
  have "kBitsForStackIndex = 53" by (simp add: field_consts)
  with f show "StackIndexField_encode e = Inr (push_bit 6 e)"
    by (simp add: StackIndexField_encode_def BitField_encode_fits kBitsForBaseReg_def)
qed

lemma stack_payload_fits:
  assumes "- kStackIndexBias \<le> idx" and "idx < kStackIndexBias" and "r < 2 ^ kBitsForBaseReg"
  shows "stack_payload idx r =
    Inr (of_nat r OR push_bit 6 (word_of_int (kStackIndexBias + idx)))"
  unfolding stack_payload_def
  by (simp only: base_encode_fits(1) [OF assms(3)] index_encode_fits(1,4) [OF assms(1,2)]
      err_bind.simps)

lemma BitField_encode_error: "BitField_encode pos w v = Inl e \<Longrightarrow> e = AssertionFailed"
  by (auto simp: BitField_encode_def ASSERT_def split: if_splits)

lemma stack_payload_out_of_range:
  assumes "\<not> (- kStackIndexBias \<le> idx \<and> idx < kStackIndexBias)"
  shows "stack_payload idx r = Inl AssertionFailed"
proof (cases "StackSlotBaseField_encode r")
  case (Inl e)
  then have "e = AssertionFailed"
    unfolding StackSlotBaseField_encode_def by (rule BitField_encode_error)
  with Inl show ?thesis by (simp add: stack_payload_def)
next
  case (Inr b)
  have "EncodeStackIndex idx = Inl AssertionFailed"
    using assms unfolding EncodeStackIndex_def ASSERT_def by auto
  with Inr show ?thesis by (simp add: stack_payload_def)
qed

lemma slot_roundtrip:
  assumes "- kStackIndexBias \<le> idx" and "idx < kStackIndexBias" and "r < 2 ^ kBitsForBaseReg"
    and k: "take_bit 5 k = k" and hs: "k = kStackSlot \<or> k = kDoubleStackSlot \<or> k = kQuadStackSlot"
  shows "\<exists>loc. err_bind (stack_payload idx r) (\<lambda>p.
           err_bind (Location_of k p) (\<lambda>loc.
           err_bind (ASSERT (stack_index loc = Inr idx)) (\<lambda>_. Inr loc))) = Inr loc
         \<and> kind loc = k \<and> stack_index loc = Inr idx \<and> base_reg loc = Inr r"
proof -
  define b e where "b = (of_nat r :: uword)" and "e = (word_of_int (kStackIndexBias + idx) :: uword)"
  define loc where "loc = Location (k OR push_bit 5 (b OR push_bit 6 e))"
  note bf = base_encode_fits [OF assms(3), folded b_def]
  note ef = index_encode_fits [OF assms(1,2), folded e_def]
  note ps = pack_slot [OF k bf(2) ef(2), folded loc_def]
  have sp: "stack_payload idx r = Inr (b OR push_bit 6 e)"
    unfolding b_def e_def by (rule stack_payload_fits [OF assms(1-3)])
  have h: "HasStackIndex loc"
    using hs ps(2) by (auto simp: HasStackIndex_def IsStackSlot_def IsDoubleStackSlot_def IsQuadStackSlot_def)
  have si: "stack_index loc = Inr idx"
    using h by (simp add: stack_index_def ASSERT_def ps(5) ef(3))
  have br: "base_reg loc = Inr r"
    using h by (simp add: base_reg_def ASSERT_def ps(4) bf(3))
  show ?thesis
    by (rule exI [of _ loc]) (simp add: sp ps(1,2) si br ASSERT_def)
qed

lemma StackSlot_in_range:
  assumes "- kStackIndexBias \<le> idx" and "idx < kStackIndexBias" and "r < 2 ^ kBitsForBaseReg"
  shows "\<exists>loc. StackSlot idx r = Inr loc \<and> kind loc = kStackSlot \<and> stack_index loc = Inr idx \<and> base_reg loc = Inr r"
  unfolding StackSlot_def by (rule slot_roundtrip [OF assms kind_codes_fit(3)]) simp

lemma DoubleStackSlot_in_range:
  assumes "- kStackIndexBias \<le> idx" and "idx < kStackIndexBias" and "r < 2 ^ kBitsForBaseReg"
  shows "\<exists>loc. DoubleStackSlot idx r = Inr loc \<and> kind loc = kDoubleStackSlot
           \<and> stack_index loc = Inr idx \<and> base_reg loc = Inr r"
  unfolding DoubleStackSlot_def by (rule slot_roundtrip [OF assms kind_codes_fit(4)]) simp

lemma QuadStackSlot_in_range:
  assumes "- kStackIndexBias \<le> idx" and "idx < kStackIndexBias" and "r < 2 ^ kBitsForBaseReg"
  shows "\<exists>loc. QuadStackSlot idx r = Inr loc \<and> kind loc = kQuadStackSlot
           \<and> stack_index loc = Inr idx \<and> base_reg loc = Inr r"
  unfolding QuadStackSlot_def by (rule slot_roundtrip [OF assms kind_codes_fit(5)]) simp

lemma slots_out_of_range:
  assumes "\<not> (- kStackIndexBias \<le> idx \<and> idx < kStackIndexBias)"
  shows "StackSlot idx r = Inl AssertionFailed"
    and "DoubleStackSlot idx r = Inl AssertionFailed"
    and "QuadStackSlot idx r = Inl AssertionFailed"
  by (simp_all add: StackSlot_def DoubleStackSlot_def QuadStackSlot_def
      stack_payload_out_of_range [OF assms])

section \<open>Round trip of stack slots\<close>

text \<open>
  C2. For every signed stack index \<open>idx\<close> with
  \<open>- kStackIndexBias \<le> idx < kStackIndexBias\<close>, the bias being half the range of the
  index field, and every base register \<open>r\<close> that fits the base register field, each of
  \<open>StackSlot\<close>, \<open>DoubleStackSlot\<close> and \<open>QuadStackSlot\<close> returns a location of its kind
  whose \<open>stack_index\<close> is exactly \<open>idx\<close> and whose \<open>base_reg\<close> is exactly \<open>r\<close>; for an
  index outside that range the construction fails its assertion.
\<close>

theorem stack_slot_roundtrip:
  "2 * kStackIndexBias = 2 ^ kBitsForStackIndex \<and>
   (- kStackIndexBias \<le> idx \<and> idx < kStackIndexBias \<and> r < 2 ^ kBitsForBaseReg \<longrightarrow>
      (\<exists>loc. StackSlot idx r = Inr loc \<and> IsStackSlot loc
         \<and> stack_index loc = Inr idx \<and> base_reg loc = Inr r) \<and>
      (\<exists>loc. DoubleStackSlot idx r = Inr loc \<and> IsDoubleStackSlot loc
         \<and> stack_index loc = Inr idx \<and> base_reg loc = Inr r) \<and>
      (\<exists>loc. QuadStackSlot idx r = Inr loc \<and> IsQuadStackSlot loc
         \<and> stack_index loc = Inr idx \<and> base_reg loc = Inr r)) \<and>
   (\<not> (- kStackIndexBias \<le> idx \<and> idx < kStackIndexBias) \<longrightarrow>
      StackSlot idx r = Inl AssertionFailed \<and>
      DoubleStackSlot idx r = Inl AssertionFailed \<and>
      QuadStackSlot idx r = Inl AssertionFailed)"
proof (intro conjI impI)
  show "2 * kStackIndexBias = 2 ^ kBitsForStackIndex"
    by (simp add: kStackIndexBias_def field_consts)
next
  assume a: "- kStackIndexBias \<le> idx \<and> idx < kStackIndexBias \<and> r < 2 ^ kBitsForBaseReg"
  then have a1: "- kStackIndexBias \<le> idx" and a2: "idx < kStackIndexBias"
    and a3: "r < 2 ^ kBitsForBaseReg"
    by simp_all
  from StackSlot_in_range [OF a1 a2 a3]
  show "\<exists>loc. StackSlot idx r = Inr loc \<and> IsStackSlot loc
         \<and> stack_index loc = Inr idx \<and> base_reg loc = Inr r"
    by (simp add: IsStackSlot_def)
  from DoubleStackSlot_in_range [OF a1 a2 a3]
  show "\<exists>loc. DoubleStackSlot idx r = Inr loc \<and> IsDoubleStackSlot loc
         \<and> stack_index loc = Inr idx \<and> base_reg loc = Inr r"
    by (simp add: IsDoubleStackSlot_def)
  from QuadStackSlot_in_range [OF a1 a2 a3]
  show "\<exists>loc. QuadStackSlot idx r = Inr loc \<and> IsQuadStackSlot loc
         \<and> stack_index loc = Inr idx \<and> base_reg loc = Inr r"
    by (simp add: IsQuadStackSlot_def)
next
  assume b: "\<not> (- kStackIndexBias \<le> idx \<and> idx < kStackIndexBias)"
  show "StackSlot idx r = Inl AssertionFailed" by (rule slots_out_of_range(1) [OF b])
  show "DoubleStackSlot idx r = Inl AssertionFailed" by (rule slots_out_of_range(2) [OF b])
  show "QuadStackSlot idx r = Inl AssertionFailed" by (rule slots_out_of_range(3) [OF b])
qed

theorem stack_slot_roundtrip_witness:
  "(\<exists>loc. StackSlot (- 3) 29 = Inr loc \<and> IsStackSlot loc
      \<and> stack_index loc = Inr (- 3) \<and> base_reg loc = Inr 29) \<and>
   (\<exists>loc. QuadStackSlot (2 ^ 52 - 1) 63 = Inr loc \<and> IsQuadStackSlot loc
      \<and> stack_index loc = Inr (2 ^ 52 - 1) \<and> base_reg loc = Inr 63) \<and>
   DoubleStackSlot (2 ^ 52) 29 = Inl AssertionFailed \<and>
   StackSlot (- (2 ^ 52) - 1) 29 = Inl AssertionFailed"
  using stack_slot_roundtrip [of "- 3" 29] stack_slot_roundtrip [of "2 ^ 52 - 1" 63]
    stack_slot_roundtrip [of "2 ^ 52" 29] stack_slot_roundtrip [of "- (2 ^ 52) - 1" 29]
  by (simp add: kStackIndexBias_eq kBitsForBaseReg_def)

section \<open>Tags and kinds\<close>

lemma err_bind_eq_Inr: "err_bind m f = Inr y \<longleftrightarrow> (\<exists>x. m = Inr x \<and> f x = Inr y)"
  by (cases m) auto

lemma ASSERT_eq_Inr: "ASSERT c = Inr u \<longleftrightarrow> c"
  by (simp add: ASSERT_def)

lemma BitField_encode_Inr:
  "BitField_encode pos w v = Inr x \<longleftrightarrow> take_bit w v = v \<and> x = push_bit pos v"
  by (auto simp: BitField_encode_def err_bind_eq_Inr ASSERT_eq_Inr is_valid_iff)

lemma Location_of_Inr:
  "Location_of k p = Inr loc \<longleftrightarrow>
     take_bit 5 k = k \<and> take_bit 59 p = p \<and> loc = Location (k OR push_bit 5 p)"
  by (auto simp: Location_of_def err_bind_eq_Inr KindField_encode_def PayloadField_encode_def
      BitField_encode_Inr field_consts)

lemma Location_of_tag:
  "Location_of k p = Inr loc \<Longrightarrow> raw_value loc AND kLocationTagMask = k AND kLocationTagMask"
  by (auto simp: Location_of_Inr tag_pack)

lemma kind_tags:
  "kInvalid AND kLocationTagMask \<noteq> kConstantTag"
  "kInvalid AND kLocationTagMask \<noteq> kPairLocationTag"
  "kUnallocated AND kLocationTagMask \<noteq> kConstantTag"
  "kUnallocated AND kLocationTagMask \<noteq> kPairLocationTag"
  "kStackSlot AND kLocationTagMask \<noteq> kConstantTag"
  "kStackSlot AND kLocationTagMask \<noteq> kPairLocationTag"
  "kDoubleStackSlot AND kLocationTagMask \<noteq> kConstantTag"
  "kDoubleStackSlot AND kLocationTagMask \<noteq> kPairLocationTag"
  "kQuadStackSlot AND kLocationTagMask \<noteq> kConstantTag"
  "kQuadStackSlot AND kLocationTagMask \<noteq> kPairLocationTag"
  "kRegister AND kLocationTagMask \<noteq> kConstantTag"
  "kRegister AND kLocationTagMask \<noteq> kPairLocationTag"
  "kFpuRegister AND kLocationTagMask \<noteq> kConstantTag"
  "kFpuRegister AND kLocationTagMask \<noteq> kPairLocationTag"
  by (simp_all add: kind_consts kLocationTagMask_def)

lemma untagged_kind:
  assumes "Location_of k p = Inr loc"
    and "k AND kLocationTagMask \<noteq> kConstantTag" and "k AND kLocationTagMask \<noteq> kPairLocationTag"
  shows "\<not> IsConstant loc \<and> \<not> IsPairLocation loc"
  using assms(2,3) by (simp add: IsConstant_def IsPairLocation_def Location_of_tag [OF assms(1)])

lemma UnallocatedLocation_untagged:
  "UnallocatedLocation p = Inr loc \<Longrightarrow> \<not> IsConstant loc \<and> \<not> IsPairLocation loc"
  by (auto simp: UnallocatedLocation_def err_bind_eq_Inr dest!: untagged_kind [OF _ kind_tags(3,4)])

lemma RegisterLocation_untagged:
  "RegisterLocation r = Inr loc \<Longrightarrow> \<not> IsConstant loc \<and> \<not> IsPairLocation loc"
  unfolding RegisterLocation_def by (rule untagged_kind [OF _ kind_tags(11,12)])

lemma FpuRegisterLocation_untagged:
  "FpuRegisterLocation r = Inr loc \<Longrightarrow> \<not> IsConstant loc \<and> \<not> IsPairLocation loc"
  unfolding FpuRegisterLocation_def by (rule untagged_kind [OF _ kind_tags(13,14)])

lemma StackSlot_untagged:
  "StackSlot i r = Inr loc \<Longrightarrow> \<not> IsConstant loc \<and> \<not> IsPairLocation loc"
  by (auto simp: StackSlot_def err_bind_eq_Inr dest!: untagged_kind [OF _ kind_tags(5,6)])

lemma DoubleStackSlot_untagged:
  "DoubleStackSlot i r = Inr loc \<Longrightarrow> \<not> IsConstant loc \<and> \<not> IsPairLocation loc"
  by (auto simp: DoubleStackSlot_def err_bind_eq_Inr dest!: untagged_kind [OF _ kind_tags(7,8)])

lemma QuadStackSlot_untagged:
  "QuadStackSlot i r = Inr loc \<Longrightarrow> \<not> IsConstant loc \<and> \<not> IsPairLocation loc"
  by (auto simp: QuadStackSlot_def err_bind_eq_Inr dest!: untagged_kind [OF _ kind_tags(9,10)])

lemma Invalid_untagged: "\<not> IsConstant Invalid \<and> \<not> IsPairLocation Invalid"
  by (simp add: IsConstant_def IsPairLocation_def Invalid_def kInvalidLocation_def
      kConstantTag_def kPairLocationTag_def)

lemma UnallocatedLocation_value:
  "UnallocatedLocation p = Inr (Location (kUnallocated OR push_bit 5 (Policy_value p)))"
proof -
  have "take_bit 3 (Policy_value p) = Policy_value p"
    by (cases p) (simp_all add: take_bit_eq_mask mask_eq_exp_minus_1)
  moreover have "take_bit 59 (Policy_value p) = Policy_value p"
    by (cases p) (simp_all add: take_bit_eq_mask mask_eq_exp_minus_1)
  ultimately show ?thesis
    by (simp add: UnallocatedLocation_def PolicyField_encode_def BitField_encode_fits
        Location_of_fits kind_codes_fit)
qed

lemma RegisterLocation_value:
  "r < 2 ^ kPayloadBitsSize \<Longrightarrow> RegisterLocation r = Inr (Location (kRegister OR push_bit 5 (of_nat r)))"
  by (simp add: RegisterLocation_def Location_of_fits kind_codes_fit of_nat_fits field_consts)

lemma FpuRegisterLocation_value:
  "r < 2 ^ kPayloadBitsSize \<Longrightarrow> FpuRegisterLocation r = Inr (Location (kFpuRegister OR push_bit 5 (of_nat r)))"
  by (simp add: FpuRegisterLocation_def Location_of_fits kind_codes_fit of_nat_fits field_consts)

text \<open>
  C3. None of the kind codes \<open>kInvalid\<close>, \<open>kUnallocated\<close>, \<open>kStackSlot\<close>,
  \<open>kDoubleStackSlot\<close>, \<open>kQuadStackSlot\<close>, \<open>kRegister\<close>, \<open>kFpuRegister\<close> has its low two
  bits equal to \<open>kConstantTag\<close> or \<open>kPairLocationTag\<close>; hence no location that the
  invalid, unallocated, register, fpu register or stack slot constructors return has
  the tag bits of a constant or of a pair, and \<open>IsConstant\<close> and \<open>IsPairLocation\<close> are
  false on all of them.
\<close>

theorem tag_non_collision:
  "kInvalid AND kLocationTagMask \<noteq> kConstantTag \<and>
   kInvalid AND kLocationTagMask \<noteq> kPairLocationTag \<and>
   kUnallocated AND kLocationTagMask \<noteq> kConstantTag \<and>
   kUnallocated AND kLocationTagMask \<noteq> kPairLocationTag \<and>
   kStackSlot AND kLocationTagMask \<noteq> kConstantTag \<and>
   kStackSlot AND kLocationTagMask \<noteq> kPairLocationTag \<and>
   kDoubleStackSlot AND kLocationTagMask \<noteq> kConstantTag \<and>
   kDoubleStackSlot AND kLocationTagMask \<noteq> kPairLocationTag \<and>
   kQuadStackSlot AND kLocationTagMask \<noteq> kConstantTag \<and>
   kQuadStackSlot AND kLocationTagMask \<noteq> kPairLocationTag \<and>
   kRegister AND kLocationTagMask \<noteq> kConstantTag \<and>
   kRegister AND kLocationTagMask \<noteq> kPairLocationTag \<and>
   kFpuRegister AND kLocationTagMask \<noteq> kConstantTag \<and>
   kFpuRegister AND kLocationTagMask \<noteq> kPairLocationTag \<and>
   \<not> IsConstant Invalid \<and> \<not> IsPairLocation Invalid \<and>
   \<not> IsConstant NoLocation \<and> \<not> IsPairLocation NoLocation \<and>
   (\<forall>loc. UnallocatedLocation p = Inr loc \<longrightarrow> \<not> IsConstant loc \<and> \<not> IsPairLocation loc) \<and>
   (\<forall>loc. RegisterLocation r = Inr loc \<longrightarrow> \<not> IsConstant loc \<and> \<not> IsPairLocation loc) \<and>
   (\<forall>loc. FpuRegisterLocation r = Inr loc \<longrightarrow> \<not> IsConstant loc \<and> \<not> IsPairLocation loc) \<and>
   (\<forall>loc. StackSlot idx r = Inr loc \<longrightarrow> \<not> IsConstant loc \<and> \<not> IsPairLocation loc) \<and>
   (\<forall>loc. DoubleStackSlot idx r = Inr loc \<longrightarrow> \<not> IsConstant loc \<and> \<not> IsPairLocation loc) \<and>
   (\<forall>loc. QuadStackSlot idx r = Inr loc \<longrightarrow> \<not> IsConstant loc \<and> \<not> IsPairLocation loc)"
  using kind_tags Invalid_untagged UnallocatedLocation_untagged RegisterLocation_untagged
    FpuRegisterLocation_untagged StackSlot_untagged DoubleStackSlot_untagged
    QuadStackSlot_untagged
  unfolding NoLocation_def by blast

theorem tag_non_collision_witness:
  "UnallocatedLocation kRequiresRegister = Inr (Location 67) \<and>
   \<not> IsConstant (Location 67) \<and> \<not> IsPairLocation (Location 67) \<and>
   RegisterLocation 5 = Inr (Location 168) \<and>
   \<not> IsConstant (Location 168) \<and> \<not> IsPairLocation (Location 168) \<and>
   FpuRegisterLocation 31 = Inr (Location 1004) \<and>
   \<not> IsConstant (Location 1004) \<and> \<not> IsPairLocation (Location 1004) \<and>
   (\<exists>loc. StackSlot (- 3) 29 = Inr loc \<and> \<not> IsConstant loc \<and> \<not> IsPairLocation loc) \<and>
   (\<exists>loc. DoubleStackSlot 0 5 = Inr loc \<and> \<not> IsConstant loc \<and> \<not> IsPairLocation loc) \<and>
   (\<exists>loc. QuadStackSlot 8 4 = Inr loc \<and> \<not> IsConstant loc \<and> \<not> IsPairLocation loc)"
proof -
  have u: "UnallocatedLocation kRequiresRegister = Inr (Location 67)"
    by (simp add: UnallocatedLocation_value kUnallocated_def)
  have r: "RegisterLocation 5 = Inr (Location 168)"
    by (simp add: RegisterLocation_value kRegister_def field_consts)
  have f: "FpuRegisterLocation 31 = Inr (Location 1004)"
    by (simp add: FpuRegisterLocation_value kFpuRegister_def field_consts)
  obtain l1 where s: "StackSlot (- 3) 29 = Inr l1"
    using StackSlot_in_range [of "- 3" 29]
    by (auto simp: kStackIndexBias_eq kBitsForBaseReg_def)
  obtain l2 where d: "DoubleStackSlot 0 5 = Inr l2"
    using DoubleStackSlot_in_range [of 0 5]
    by (auto simp: kStackIndexBias_eq kBitsForBaseReg_def)
  obtain l3 where q: "QuadStackSlot 8 4 = Inr l3"
    using QuadStackSlot_in_range [of 8 4]
    by (auto simp: kStackIndexBias_eq kBitsForBaseReg_def)
  show ?thesis
    using tag_non_collision [of kRequiresRegister 5 "- 3"] tag_non_collision [of kAny 31 0]
      tag_non_collision [of kAny 5 0] tag_non_collision [of kAny 4 8]
      tag_non_collision [of kAny 29 "- 3"] u r f s d q
    by simp
qed

section \<open>Kinds of tagged and untagged locations\<close>

lemma kind_low_bits: "kind loc AND kLocationTagMask = raw_value loc AND kLocationTagMask"
  unfolding kind_def KindField_decode_def BitField_decode_eq kLocationTagMask_eq
  by (rule bit_word_eqI) (auto simp: bit_simps field_consts)

lemma tagged_kind_cases:
  assumes "IsConstant loc \<or> IsPairLocation loc"
  shows "kind loc \<noteq> kInvalid" "kind loc \<noteq> kUnallocated" "kind loc \<noteq> kStackSlot"
    "kind loc \<noteq> kDoubleStackSlot" "kind loc \<noteq> kQuadStackSlot"
    "kind loc \<noteq> kRegister" "kind loc \<noteq> kFpuRegister"
proof -
  have t: "kind loc AND kLocationTagMask = kConstantTag \<or> kind loc AND kLocationTagMask = kPairLocationTag"
    using assms by (simp add: kind_low_bits IsConstant_def IsPairLocation_def)
  show "kind loc \<noteq> kInvalid" using t kind_tags(1,2) by auto
  show "kind loc \<noteq> kUnallocated" using t kind_tags(3,4) by auto
  show "kind loc \<noteq> kStackSlot" using t kind_tags(5,6) by auto
  show "kind loc \<noteq> kDoubleStackSlot" using t kind_tags(7,8) by auto
  show "kind loc \<noteq> kQuadStackSlot" using t kind_tags(9,10) by auto
  show "kind loc \<noteq> kRegister" using t kind_tags(11,12) by auto
  show "kind loc \<noteq> kFpuRegister" using t kind_tags(13,14) by auto
qed

lemma kind_Invalid: "kind Invalid = kInvalid"
  by (simp add: kind_def Invalid_def kInvalidLocation_def KindField_decode_def
      BitField_decode_eq kInvalid_def)

lemma IsInvalid_kind: "IsInvalid loc \<Longrightarrow> kind loc = kInvalid"
  by (cases loc) (simp add: IsInvalid_def kind_Invalid [unfolded Invalid_def])

lemma not_machine_register:
  assumes "IsInvalid loc \<or> IsConstant loc \<or> IsPairLocation loc \<or> IsUnallocated loc
     \<or> HasStackIndex loc"
  shows "\<not> IsRegister loc \<and> \<not> IsFpuRegister loc"
  using assms tagged_kind_cases(6,7) [of loc] IsInvalid_kind [of loc]
  by (auto simp: IsRegister_def IsFpuRegister_def IsUnallocated_def HasStackIndex_def
      IsStackSlot_def IsDoubleStackSlot_def IsQuadStackSlot_def kind_consts)

lemma RegisterSet_noop:
  assumes "\<not> IsRegister loc" and "\<not> IsFpuRegister loc"
  shows "RegisterSet_Add s loc rep = Inr s" and "RegisterSet_Remove s loc = Inr s"
    and "RegisterSet_Contains s loc = Inl Unreachable"
  using assms by (simp_all add: RegisterSet_Add_def RegisterSet_Remove_def RegisterSet_Contains_def)

lemma low2_zeroD:
  assumes "(obj :: uword) AND kLocationTagMask = 0" and "bit obj n"
  shows "2 \<le> n"
proof (rule ccontr)
  assume "\<not> 2 \<le> n"
  then have "bit (obj AND kLocationTagMask) n"
    using assms(2) unfolding kLocationTagMask_eq by (simp add: bit_simps)
  then show False by (simp add: assms(1))
qed

lemma clear_tag_of_tagged:
  assumes "(obj :: uword) AND kLocationTagMask = 0" and "t AND NOT kLocationTagMask = 0"
  shows "(obj OR t) AND NOT kLocationTagMask = obj" and "(obj OR t) AND kLocationTagMask = t"
proof -
  have t: "\<And>n. bit t n \<Longrightarrow> n < 2"
  proof (rule ccontr)
    fix n assume "bit t n" and "\<not> n < 2"
    then have "bit (t AND NOT kLocationTagMask) n"
      unfolding kLocationTagMask_eq using bit_imp_le_length [of t n] by (simp add: bit_simps)
    then show False by (simp add: assms(2))
  qed
  show "(obj OR t) AND NOT kLocationTagMask = obj"
    unfolding kLocationTagMask_eq
    by (rule bit_word_eqI) (auto simp: bit_simps dest: low2_zeroD [OF assms(1)] t)
  show "(obj OR t) AND kLocationTagMask = t"
    unfolding kLocationTagMask_eq
    by (rule bit_word_eqI) (auto simp: bit_simps dest: low2_zeroD [OF assms(1)] t)
qed

lemma tag_values_fit:
  "kConstantTag AND NOT kLocationTagMask = 0" "kPairLocationTag AND NOT kLocationTagMask = 0"
  by (simp_all add: kConstantTag_def kPairLocationTag_def kLocationTagMask_def)

lemma cleared_has_no_tag: "(v AND NOT kLocationTagMask) AND kLocationTagMask = (0 :: uword)"
  by (simp add: and.assoc)

lemma Constant_Inr:
  "Constant obj = Inr loc \<longleftrightarrow> obj AND kLocationTagMask = 0 \<and> loc = Location (obj OR kConstantTag)"
proof (cases "obj AND kLocationTagMask = 0")
  case True
  note c = clear_tag_of_tagged [OF True tag_values_fit(1)]
  show ?thesis
    using True by (auto simp: Constant_def Let_def constant_instruction_def IsConstant_def
        ASSERT_def c)
next
  case False
  have "obj \<noteq> (obj OR kConstantTag) AND NOT kLocationTagMask"
  proof
    assume "obj = (obj OR kConstantTag) AND NOT kLocationTagMask"
    then have "obj AND kLocationTagMask
      = ((obj OR kConstantTag) AND NOT kLocationTagMask) AND kLocationTagMask"
      by simp
    with False show False by (simp only: cleared_has_no_tag)
  qed
  then show ?thesis
    using False by (auto simp: Constant_def Let_def constant_instruction_def
        err_bind_eq_Inr ASSERT_eq_Inr)
qed

lemma Constant_IsConstant: "Constant obj = Inr loc \<Longrightarrow> IsConstant loc"
  by (auto simp: Constant_Inr IsConstant_def clear_tag_of_tagged(2) tag_values_fit)

section \<open>SmallSet and RegisterSet\<close>

lemma ToMask_small:
  "r < kBitsPerInt \<Longrightarrow> ToMask r = Inr (scast (push_bit r (1 :: 32 word)))"
  by (simp add: ToMask_def ASSERT_def kBitsPerInt_def kWordSize_def kBitsPerByte_def)


lemma bit_ToMask:
  assumes "r < kBitsPerInt"
  shows "bit (scast (push_bit r (1 :: 32 word)) :: uword) n \<longleftrightarrow> n < 64 \<and> min 31 n = r"
  using assms by (auto simp: bit_signed_iff bit_simps kBitsPerInt_def)

lemma ToMask_nonzero:
  assumes "r < kBitsPerInt"
  shows "(scast (push_bit r (1 :: 32 word)) :: uword) \<noteq> 0"
proof
  assume eq: "(scast (push_bit r (1 :: 32 word)) :: uword) = 0"
  have "bit (scast (push_bit r (1 :: 32 word)) :: uword) r"
    unfolding bit_ToMask [OF assms] using assms by (simp add: kBitsPerInt_def)
  then show False unfolding eq by simp
qed

lemma ToMask_single_bit:
  assumes "r < 31"
  shows "(scast (push_bit r (1 :: 32 word)) :: uword) = push_bit r 1"
proof (rule bit_word_eqI)
  fix n assume "n < LENGTH(64)"
  have r: "r < kBitsPerInt" using assms by (simp add: kBitsPerInt_def)
  show "bit (scast (push_bit r (1 :: 32 word)) :: uword) n \<longleftrightarrow> bit (push_bit r 1 :: uword) n"
    unfolding bit_ToMask [OF r] using assms by (auto simp: bit_simps)
qed

lemma ToMask_Inr:
  assumes "r < kBitsPerInt"
  obtains m where "ToMask r = Inr m" and "m \<noteq> 0" and "r < 31 \<Longrightarrow> m = push_bit r 1"
  using ToMask_small [OF assms] ToMask_nonzero [OF assms] ToMask_single_bit [of r]
  by blast

lemma and_single_bit: "(d :: uword) AND push_bit r 1 \<noteq> 0 \<longleftrightarrow> bit d r"
  by (simp add: bit_iff_and_push_bit_not_eq_0)

lemma SmallSet_Contains_bit:
  assumes "r < 31"
  shows "SmallSet_Contains s r = Inr (bit (data s) r)"
proof -
  have "r < kBitsPerInt" using assms by (simp add: kBitsPerInt_def)
  then have "ToMask r = Inr (push_bit r 1)"
    using ToMask_small [of r] ToMask_single_bit [OF assms] by simp
  then show ?thesis
    unfolding SmallSet_Contains_def by (simp only: err_bind.simps and_single_bit)
qed


lemma SmallSet_laws:
  assumes "r < kBitsPerInt"
  shows "\<exists>s1. SmallSet_Add s r = Inr s1 \<and> SmallSet_Contains s1 r = Inr True
           \<and> SmallSet_Add s1 r = Inr s1 \<and> \<not> SmallSet_IsEmpty s1"
    and "\<exists>s1. SmallSet_Add SmallSet_empty r = Inr s1 \<and> SmallSet_Remove s1 r = Inr SmallSet_empty"
    and "\<exists>b. SmallSet_Contains s r = Inr b"
    and "SmallSet_Contains SmallSet_empty r = Inr False"
proof -
  obtain m where m: "ToMask r = Inr m" "m \<noteq> 0"
    using assms by (rule ToMask_Inr)
  have a: "(data s OR m) AND m = m" by (simp add: and.commute)
  have ne: "data s OR m \<noteq> 0" using m(2) by (simp add: or_eq_0_iff)
  show "\<exists>s1. SmallSet_Add s r = Inr s1 \<and> SmallSet_Contains s1 r = Inr True
           \<and> SmallSet_Add s1 r = Inr s1 \<and> \<not> SmallSet_IsEmpty s1"
    using m a ne
    by (simp add: SmallSet_Add_def SmallSet_Contains_def SmallSet_IsEmpty_def or.assoc)
  show "\<exists>s1. SmallSet_Add SmallSet_empty r = Inr s1 \<and> SmallSet_Remove s1 r = Inr SmallSet_empty"
    using m by (simp add: SmallSet_Add_def SmallSet_Remove_def SmallSet_empty_def)
  show "\<exists>b. SmallSet_Contains s r = Inr b"
    using m by (simp add: SmallSet_Contains_def)
  show "SmallSet_Contains SmallSet_empty r = Inr False"
    using m by (simp add: SmallSet_Contains_def SmallSet_empty_def)
qed

lemma RegisterCount_zero: "RegisterCount 0 = 0"
  by (simp add: RegisterCount_def)


lemma reg_of_IsRegister: "IsRegister loc \<Longrightarrow> reg loc = Inr (unat (payload loc))"
  by (simp add: reg_def ASSERT_def)

lemma fpu_reg_of_IsFpuRegister: "IsFpuRegister loc \<Longrightarrow> fpu_reg loc = Inr (unat (payload loc))"
  by (simp add: fpu_reg_def ASSERT_def)

lemma register_kinds_disjoint: "IsRegister loc \<Longrightarrow> \<not> IsFpuRegister loc"
  by (simp add: IsRegister_def IsFpuRegister_def kind_consts)

lemma RegisterSet_new_Inr:
  "RegisterSet_new ncpu nfpu = Inr s0 \<Longrightarrow>
   s0 = \<lparr>cpu_registers = SmallSet_empty, untagged_cpu_registers = SmallSet_empty,
         fpu_registers = SmallSet_empty\<rparr>"
  by (auto simp: RegisterSet_new_def err_bind_eq_Inr)

lemma Add_cpu_register:
  assumes k: "IsRegister loc" and c: "unat (payload loc) < kBitsPerInt"
  shows "\<exists>s1. RegisterSet_Add s loc rep = Inr s1 \<and> RegisterSet_Contains s1 loc = Inr True
     \<and> RegisterSet_Add s1 loc rep = Inr s1
     \<and> \<not> SmallSet_IsEmpty (cpu_registers s1)
     \<and> fpu_registers s1 = fpu_registers s
     \<and> (rep = kTagged \<longrightarrow> untagged_cpu_registers s1 = untagged_cpu_registers s)
     \<and> (rep \<noteq> kTagged \<longrightarrow> \<not> SmallSet_IsEmpty (untagged_cpu_registers s1))"
proof -
  let ?r = "unat (payload loc)"
  obtain c1 where c1: "SmallSet_Add (cpu_registers s) ?r = Inr c1"
    "SmallSet_Contains c1 ?r = Inr True" "SmallSet_Add c1 ?r = Inr c1" "\<not> SmallSet_IsEmpty c1"
    using SmallSet_laws(1) [OF c, of "cpu_registers s"] by blast
  obtain u1 where u1: "SmallSet_Add (untagged_cpu_registers s) ?r = Inr u1"
    "SmallSet_Add u1 ?r = Inr u1" "\<not> SmallSet_IsEmpty u1"
    using SmallSet_laws(1) [OF c, of "untagged_cpu_registers s"] by blast
  show ?thesis
  proof (cases "rep = kTagged")
    case True
    show ?thesis
      by (rule exI [of _ "s\<lparr>cpu_registers := c1\<rparr>"])
        (simp add: True RegisterSet_Add_def RegisterSet_Contains_def ContainsRegister_def k
          reg_of_IsRegister c1)
  next
    case False
    show ?thesis
      by (rule exI [of _ "s\<lparr>cpu_registers := c1, untagged_cpu_registers := u1\<rparr>"])
        (simp add: False RegisterSet_Add_def RegisterSet_Contains_def ContainsRegister_def k
          MarkUntagged_def ASSERT_def reg_of_IsRegister c1 u1)
  qed
qed

lemma Add_fpu_register:
  assumes k: "IsFpuRegister loc" and c: "unat (payload loc) < kBitsPerInt"
  shows "\<exists>s1. RegisterSet_Add s loc rep = Inr s1 \<and> RegisterSet_Contains s1 loc = Inr True
     \<and> RegisterSet_Add s1 loc rep = Inr s1
     \<and> \<not> SmallSet_IsEmpty (fpu_registers s1)
     \<and> cpu_registers s1 = cpu_registers s
     \<and> untagged_cpu_registers s1 = untagged_cpu_registers s"
proof -
  let ?r = "unat (payload loc)"
  have nk: "\<not> IsRegister loc" using k register_kinds_disjoint by blast
  obtain f1 where f1: "SmallSet_Add (fpu_registers s) ?r = Inr f1"
    "SmallSet_Contains f1 ?r = Inr True" "SmallSet_Add f1 ?r = Inr f1" "\<not> SmallSet_IsEmpty f1"
    using SmallSet_laws(1) [OF c, of "fpu_registers s"] by blast
  show ?thesis
    by (rule exI [of _ "s\<lparr>fpu_registers := f1\<rparr>"])
      (simp add: RegisterSet_Add_def RegisterSet_Contains_def ContainsFpuRegister_def k nk
        fpu_reg_of_IsFpuRegister f1)
qed

lemma Remove_after_Add_cpu:
  assumes k: "IsRegister loc" and c: "unat (payload loc) < kBitsPerInt"
    and e: "cpu_registers s0 = SmallSet_empty"
    and a: "RegisterSet_Add s0 loc rep = Inr s1"
  shows "\<exists>s2. RegisterSet_Remove s1 loc = Inr s2 \<and> cpu_registers s2 = SmallSet_empty
     \<and> RegisterSet_Contains s2 loc = Inr False
     \<and> fpu_registers s2 = fpu_registers s0
     \<and> untagged_cpu_registers s2 = untagged_cpu_registers s1
     \<and> (rep = kTagged \<longrightarrow> s2 = s0)"
proof -
  let ?r = "unat (payload loc)"
  obtain c1 where c1: "SmallSet_Add SmallSet_empty ?r = Inr c1"
    "SmallSet_Remove c1 ?r = Inr SmallSet_empty"
    using SmallSet_laws(2) [OF c] by blast
  obtain u1 where u1: "SmallSet_Add (untagged_cpu_registers s0) ?r = Inr u1"
    using SmallSet_laws(1) [OF c, of "untagged_cpu_registers s0"] by blast
  have s1: "s1 = (if rep = kTagged then s0\<lparr>cpu_registers := c1\<rparr>
                  else s0\<lparr>cpu_registers := c1, untagged_cpu_registers := u1\<rparr>)"
    using a by (simp add: RegisterSet_Add_def k reg_of_IsRegister e c1 u1 MarkUntagged_def
        ASSERT_def split: if_splits)
  have same: "s0\<lparr>cpu_registers := SmallSet_empty\<rparr> = s0"
    using e by (cases s0) simp
  show ?thesis
    by (rule exI [of _ "s1\<lparr>cpu_registers := SmallSet_empty\<rparr>"])
      (simp add: s1 RegisterSet_Remove_def RegisterSet_Contains_def ContainsRegister_def k
        reg_of_IsRegister c1 SmallSet_laws(4) [OF c] same)
qed

lemma Remove_after_Add_fpu:
  assumes k: "IsFpuRegister loc" and c: "unat (payload loc) < kBitsPerInt"
    and e: "fpu_registers s0 = SmallSet_empty"
    and a: "RegisterSet_Add s0 loc rep = Inr s1"
  shows "RegisterSet_Remove s1 loc = Inr s0 \<and> RegisterSet_Contains s0 loc = Inr False"
proof -
  let ?r = "unat (payload loc)"
  have nk: "\<not> IsRegister loc" using k register_kinds_disjoint by blast
  obtain f1 where f1: "SmallSet_Add SmallSet_empty ?r = Inr f1"
    "SmallSet_Remove f1 ?r = Inr SmallSet_empty"
    using SmallSet_laws(2) [OF c] by blast
  have s1: "s1 = s0\<lparr>fpu_registers := f1\<rparr>"
    using a by (simp add: RegisterSet_Add_def k nk fpu_reg_of_IsFpuRegister e f1)
  have same: "s0\<lparr>fpu_registers := SmallSet_empty\<rparr> = s0"
    using e by (cases s0) simp
  show ?thesis
    by (simp add: s1 RegisterSet_Remove_def RegisterSet_Contains_def ContainsFpuRegister_def
        k nk fpu_reg_of_IsFpuRegister f1 SmallSet_laws(4) [OF c] same e)
qed

lemma RegisterLocation_props:
  assumes "RegisterLocation r = Inr loc" and "r < 2 ^ kPayloadBitsSize"
  shows "IsRegister loc" and "reg loc = Inr r" and "unat (payload loc) = r"
proof -
  have f: "take_bit 59 (of_nat r :: uword) = of_nat r"
    using assms(2) by (simp add: of_nat_fits field_consts)
  have l: "loc = Location (kRegister OR push_bit 5 (of_nat r))"
    using assms by (simp add: RegisterLocation_value)
  show k: "IsRegister loc"
    unfolding l IsRegister_def by (rule kind_pack [OF kind_codes_fit(6)])
  have "payload loc = of_nat r"
    unfolding l by (rule payload_pack [OF kind_codes_fit(6) f])
  then show u: "unat (payload loc) = r"
    using assms(2) by (simp add: unat_of_nat field_consts)
  show "reg loc = Inr r" by (simp add: reg_of_IsRegister [OF k] u)
qed

lemma FpuRegisterLocation_props:
  assumes "FpuRegisterLocation r = Inr loc" and "r < 2 ^ kPayloadBitsSize"
  shows "IsFpuRegister loc" and "fpu_reg loc = Inr r" and "unat (payload loc) = r"
proof -
  have f: "take_bit 59 (of_nat r :: uword) = of_nat r"
    using assms(2) by (simp add: of_nat_fits field_consts)
  have l: "loc = Location (kFpuRegister OR push_bit 5 (of_nat r))"
    using assms by (simp add: FpuRegisterLocation_value)
  show k: "IsFpuRegister loc"
    unfolding l IsFpuRegister_def by (rule kind_pack [OF kind_codes_fit(7)])
  have "payload loc = of_nat r"
    unfolding l by (rule payload_pack [OF kind_codes_fit(7) f])
  then show u: "unat (payload loc) = r"
    using assms(2) by (simp add: unat_of_nat field_consts)
  show "fpu_reg loc = Inr r" by (simp add: fpu_reg_of_IsFpuRegister [OF k] u)
qed

lemma UnallocatedLocation_props:
  assumes "UnallocatedLocation p = Inr loc"
  shows "IsUnallocated loc" and "policy loc = Inr (Policy_value p)"
proof -
  have f3: "take_bit 3 (Policy_value p) = Policy_value p"
    by (cases p) (simp_all add: take_bit_eq_mask mask_eq_exp_minus_1)
  have f: "take_bit 59 (Policy_value p) = Policy_value p"
    by (cases p) (simp_all add: take_bit_eq_mask mask_eq_exp_minus_1)
  have l: "loc = Location (kUnallocated OR push_bit 5 (Policy_value p))"
    using assms by (simp add: UnallocatedLocation_value)
  show k: "IsUnallocated loc"
    unfolding l IsUnallocated_def by (rule kind_pack [OF kind_codes_fit(2)])
  have "payload loc = Policy_value p"
    unfolding l by (rule payload_pack [OF kind_codes_fit(2) f])
  then show "policy loc = Inr (Policy_value p)"
    using k f3 by (simp add: policy_def ASSERT_def PolicyField_decode_def BitField_decode_eq)
qed

lemma concrete_locations:
  "UnallocatedLocation kAny = Inr (Location 3)"
  "UnallocatedLocation kRequiresRegister = Inr (Location 67)"
  "RegisterLocation 5 = Inr (Location 168)"
  "RegisterLocation 31 = Inr (Location 1000)"
  "FpuRegisterLocation 31 = Inr (Location 1004)"
  by (simp_all add: UnallocatedLocation_value RegisterLocation_value FpuRegisterLocation_value
      kind_consts field_consts)

text \<open>
  C10. For every location that is neither of register kind nor of fpu register kind,
  as the invalid location, every constant, every pair reference, every unallocated
  location and every stack slot are, \<open>RegisterSet_Add\<close> with any representation and
  \<open>RegisterSet_Remove\<close> return the set unchanged and fail no check, whereas
  \<open>RegisterSet_Contains\<close> reaches \<^verbatim>\<open>UNREACHABLE\<close>.
\<close>

theorem RegisterSet_Add_Remove_ignore_other_kinds:
  "(IsInvalid loc \<or> IsConstant loc \<or> IsPairLocation loc \<or> IsUnallocated loc
      \<or> HasStackIndex loc \<longrightarrow> \<not> IsRegister loc \<and> \<not> IsFpuRegister loc) \<and>
   (\<not> IsRegister loc \<and> \<not> IsFpuRegister loc \<longrightarrow>
      RegisterSet_Add s loc rep = Inr s \<and> RegisterSet_Remove s loc = Inr s \<and>
      RegisterSet_Contains s loc = Inl Unreachable)"
  using not_machine_register [of loc] RegisterSet_noop by blast

theorem RegisterSet_Add_Remove_ignore_other_kinds_witness:
  "RegisterSet_Add \<lparr>cpu_registers = SmallSet 32, untagged_cpu_registers = SmallSet 0,
      fpu_registers = SmallSet 1\<rparr> (Location 67) kUntagged
     = Inr \<lparr>cpu_registers = SmallSet 32, untagged_cpu_registers = SmallSet 0,
      fpu_registers = SmallSet 1\<rparr> \<and>
   RegisterSet_Remove \<lparr>cpu_registers = SmallSet 32, untagged_cpu_registers = SmallSet 0,
      fpu_registers = SmallSet 1\<rparr> (Location 67)
     = Inr \<lparr>cpu_registers = SmallSet 32, untagged_cpu_registers = SmallSet 0,
      fpu_registers = SmallSet 1\<rparr> \<and>
   RegisterSet_Contains \<lparr>cpu_registers = SmallSet 32, untagged_cpu_registers = SmallSet 0,
      fpu_registers = SmallSet 1\<rparr> (Location 67) = Inl Unreachable \<and>
   RegisterSet_Add \<lparr>cpu_registers = SmallSet 32, untagged_cpu_registers = SmallSet 0,
      fpu_registers = SmallSet 1\<rparr> Invalid kTagged
     = Inr \<lparr>cpu_registers = SmallSet 32, untagged_cpu_registers = SmallSet 0,
      fpu_registers = SmallSet 1\<rparr> \<and>
   (\<exists>loc. StackSlot (- 3) 29 = Inr loc \<and>
      RegisterSet_Remove \<lparr>cpu_registers = SmallSet 32, untagged_cpu_registers = SmallSet 0,
        fpu_registers = SmallSet 1\<rparr> loc
      = Inr \<lparr>cpu_registers = SmallSet 32, untagged_cpu_registers = SmallSet 0,
        fpu_registers = SmallSet 1\<rparr>)"
proof -
  let ?s = "\<lparr>cpu_registers = SmallSet 32, untagged_cpu_registers = SmallSet 0,
      fpu_registers = SmallSet 1\<rparr>"
  have u: "IsUnallocated (Location 67)"
    by (rule UnallocatedLocation_props(1) [OF concrete_locations(2)])
  have i: "IsInvalid Invalid" by (simp add: IsInvalid_def Invalid_def)
  obtain l where l: "StackSlot (- 3) 29 = Inr l" "kind l = kStackSlot"
    using StackSlot_in_range [of "- 3" 29]
    by (auto simp: kStackIndexBias_eq kBitsForBaseReg_def)
  then have h: "HasStackIndex l" by (simp add: HasStackIndex_def IsStackSlot_def)
  show ?thesis
    using RegisterSet_Add_Remove_ignore_other_kinds [of "Location 67" ?s kUntagged]
      RegisterSet_Add_Remove_ignore_other_kinds [of Invalid ?s kTagged]
      RegisterSet_Add_Remove_ignore_other_kinds [of l ?s kTagged] u i l(1) h
    by simp
qed





















text \<open>
  C8, as the code has it. On a freshly constructed set \<open>HasUntaggedValues\<close> is false
  and both register counts are zero. For a register or fpu register location whose
  register number is below the width of the shifted literal, and any representation:
  \<open>RegisterSet_Add\<close> succeeds on any set, the location is contained afterwards, adding
  it again changes nothing, and \<open>HasUntaggedValues\<close> holds afterwards for an fpu
  register and for a cpu register with a representation other than \<open>kTagged\<close>.
  Starting from the fresh set, \<open>RegisterSet_Add\<close> followed by \<open>RegisterSet_Remove\<close>
  empties the cpu and the fpu mask again (the location is not contained, both counts
  are zero); the set is the fresh set again, and \<open>HasUntaggedValues\<close> false, exactly
  when the location is an fpu register or the representation is \<open>kTagged\<close>:
  \<open>RegisterSet_Remove\<close> never writes the mask of untagged registers, so for a cpu
  register added with another representation \<open>HasUntaggedValues\<close> stays true.
\<close>

theorem RegisterSet_Add_then_Remove:
  assumes fresh: "RegisterSet_new ncpu nfpu = Inr s0"
    and mr: "IsMachineRegister loc"
    and code: "unat (payload loc) < kBitsPerInt"
  shows "\<not> HasUntaggedValues s0 \<and> CpuRegisterCount s0 = 0 \<and> FpuRegisterCount s0 = 0 \<and>
    (\<exists>s1. RegisterSet_Add s loc rep = Inr s1 \<and> RegisterSet_Contains s1 loc = Inr True
       \<and> RegisterSet_Add s1 loc rep = Inr s1
       \<and> (IsFpuRegister loc \<or> rep \<noteq> kTagged \<longrightarrow> HasUntaggedValues s1)) \<and>
    (\<exists>s1 s2. RegisterSet_Add s0 loc rep = Inr s1
       \<and> (HasUntaggedValues s1 \<longleftrightarrow> IsFpuRegister loc \<or> rep \<noteq> kTagged)
       \<and> RegisterSet_Remove s1 loc = Inr s2
       \<and> RegisterSet_Contains s2 loc = Inr False
       \<and> cpu_registers s2 = SmallSet_empty \<and> fpu_registers s2 = SmallSet_empty
       \<and> CpuRegisterCount s2 = 0 \<and> FpuRegisterCount s2 = 0
       \<and> (HasUntaggedValues s2 \<longleftrightarrow> IsRegister loc \<and> rep \<noteq> kTagged)
       \<and> (s2 = s0 \<longleftrightarrow> IsFpuRegister loc \<or> rep = kTagged))"
proof -
  note s0 = RegisterSet_new_Inr [OF fresh]
  have e: "cpu_registers s0 = SmallSet_empty" "untagged_cpu_registers s0 = SmallSet_empty"
    "fpu_registers s0 = SmallSet_empty"
    by (simp_all add: s0)
  have z: "data SmallSet_empty = 0" "SmallSet_IsEmpty SmallSet_empty"
    by (simp_all add: SmallSet_empty_def SmallSet_IsEmpty_def)
  have p0: "\<not> HasUntaggedValues s0 \<and> CpuRegisterCount s0 = 0 \<and> FpuRegisterCount s0 = 0"
    by (simp add: HasUntaggedValues_def CpuRegisterCount_def FpuRegisterCount_def e z
        RegisterCount_zero)
  consider (cpu) "IsRegister loc" | (fpu) "IsFpuRegister loc"
    using mr by (auto simp: IsMachineRegister_def IsMachineRegisterKind_def IsRegister_def
        IsFpuRegister_def)
  then have "(\<exists>s1. RegisterSet_Add s loc rep = Inr s1 \<and> RegisterSet_Contains s1 loc = Inr True
       \<and> RegisterSet_Add s1 loc rep = Inr s1
       \<and> (IsFpuRegister loc \<or> rep \<noteq> kTagged \<longrightarrow> HasUntaggedValues s1)) \<and>
    (\<exists>s1 s2. RegisterSet_Add s0 loc rep = Inr s1
       \<and> (HasUntaggedValues s1 \<longleftrightarrow> IsFpuRegister loc \<or> rep \<noteq> kTagged)
       \<and> RegisterSet_Remove s1 loc = Inr s2
       \<and> RegisterSet_Contains s2 loc = Inr False
       \<and> cpu_registers s2 = SmallSet_empty \<and> fpu_registers s2 = SmallSet_empty
       \<and> CpuRegisterCount s2 = 0 \<and> FpuRegisterCount s2 = 0
       \<and> (HasUntaggedValues s2 \<longleftrightarrow> IsRegister loc \<and> rep \<noteq> kTagged)
       \<and> (s2 = s0 \<longleftrightarrow> IsFpuRegister loc \<or> rep = kTagged))"
  proof cases
    case cpu
    then have nf: "\<not> IsFpuRegister loc" by (rule register_kinds_disjoint)
    obtain t1 where t1: "RegisterSet_Add s loc rep = Inr t1"
      "RegisterSet_Contains t1 loc = Inr True" "RegisterSet_Add t1 loc rep = Inr t1"
      "rep \<noteq> kTagged \<longrightarrow> \<not> SmallSet_IsEmpty (untagged_cpu_registers t1)"
      using Add_cpu_register [OF cpu code, of s rep] by blast
    obtain s1 where s1: "RegisterSet_Add s0 loc rep = Inr s1"
      "fpu_registers s1 = fpu_registers s0"
      "rep = kTagged \<longrightarrow> untagged_cpu_registers s1 = untagged_cpu_registers s0"
      "rep \<noteq> kTagged \<longrightarrow> \<not> SmallSet_IsEmpty (untagged_cpu_registers s1)"
      using Add_cpu_register [OF cpu code, of s0 rep] by blast
    obtain s2 where s2: "RegisterSet_Remove s1 loc = Inr s2"
      "cpu_registers s2 = SmallSet_empty" "RegisterSet_Contains s2 loc = Inr False"
      "fpu_registers s2 = fpu_registers s0"
      "untagged_cpu_registers s2 = untagged_cpu_registers s1" "rep = kTagged \<longrightarrow> s2 = s0"
      using Remove_after_Add_cpu [OF cpu code e(1) s1(1)] by blast
    have h1: "HasUntaggedValues s1 \<longleftrightarrow> rep \<noteq> kTagged"
      using s1(2,3,4) by (auto simp: HasUntaggedValues_def e z)
    have h2: "HasUntaggedValues s2 \<longleftrightarrow> rep \<noteq> kTagged"
      using s1(3,4) s2(4,5) by (auto simp: HasUntaggedValues_def e z)
    have eq: "s2 = s0 \<longleftrightarrow> rep = kTagged"
      using s2(6) h2 p0 by auto
    have a: "\<exists>s1. RegisterSet_Add s loc rep = Inr s1 \<and> RegisterSet_Contains s1 loc = Inr True
       \<and> RegisterSet_Add s1 loc rep = Inr s1
       \<and> (IsFpuRegister loc \<or> rep \<noteq> kTagged \<longrightarrow> HasUntaggedValues s1)"
      using t1 nf by (auto simp: HasUntaggedValues_def)
    have b: "\<exists>s1 s2. RegisterSet_Add s0 loc rep = Inr s1
       \<and> (HasUntaggedValues s1 \<longleftrightarrow> IsFpuRegister loc \<or> rep \<noteq> kTagged)
       \<and> RegisterSet_Remove s1 loc = Inr s2
       \<and> RegisterSet_Contains s2 loc = Inr False
       \<and> cpu_registers s2 = SmallSet_empty \<and> fpu_registers s2 = SmallSet_empty
       \<and> CpuRegisterCount s2 = 0 \<and> FpuRegisterCount s2 = 0
       \<and> (HasUntaggedValues s2 \<longleftrightarrow> IsRegister loc \<and> rep \<noteq> kTagged)
       \<and> (s2 = s0 \<longleftrightarrow> IsFpuRegister loc \<or> rep = kTagged)"
      using s1(1) s2(1,2,3,4) h1 h2 eq cpu nf
      by (intro exI [of _ s1] exI [of _ s2])
        (simp add: CpuRegisterCount_def FpuRegisterCount_def e z RegisterCount_zero)
    from a b show ?thesis ..
  next
    case fpu
    then have nc: "\<not> IsRegister loc" using register_kinds_disjoint by blast
    obtain t1 where t1: "RegisterSet_Add s loc rep = Inr t1"
      "RegisterSet_Contains t1 loc = Inr True" "RegisterSet_Add t1 loc rep = Inr t1"
      "\<not> SmallSet_IsEmpty (fpu_registers t1)"
      using Add_fpu_register [OF fpu code, of s rep] by blast
    obtain s1 where s1: "RegisterSet_Add s0 loc rep = Inr s1"
      "\<not> SmallSet_IsEmpty (fpu_registers s1)"
      using Add_fpu_register [OF fpu code, of s0 rep] by blast
    have s2: "RegisterSet_Remove s1 loc = Inr s0" "RegisterSet_Contains s0 loc = Inr False"
      using Remove_after_Add_fpu [OF fpu code e(3) s1(1)] by simp_all
    have a: "\<exists>s1. RegisterSet_Add s loc rep = Inr s1 \<and> RegisterSet_Contains s1 loc = Inr True
       \<and> RegisterSet_Add s1 loc rep = Inr s1
       \<and> (IsFpuRegister loc \<or> rep \<noteq> kTagged \<longrightarrow> HasUntaggedValues s1)"
      using t1 by (auto simp: HasUntaggedValues_def)
    have b: "\<exists>s1 s2. RegisterSet_Add s0 loc rep = Inr s1
       \<and> (HasUntaggedValues s1 \<longleftrightarrow> IsFpuRegister loc \<or> rep \<noteq> kTagged)
       \<and> RegisterSet_Remove s1 loc = Inr s2
       \<and> RegisterSet_Contains s2 loc = Inr False
       \<and> cpu_registers s2 = SmallSet_empty \<and> fpu_registers s2 = SmallSet_empty
       \<and> CpuRegisterCount s2 = 0 \<and> FpuRegisterCount s2 = 0
       \<and> (HasUntaggedValues s2 \<longleftrightarrow> IsRegister loc \<and> rep \<noteq> kTagged)
       \<and> (s2 = s0 \<longleftrightarrow> IsFpuRegister loc \<or> rep = kTagged)"
      using s1 s2 p0 fpu nc
      by (intro exI [of _ s1] exI [of _ s0])
        (simp add: HasUntaggedValues_def e)
    from a b show ?thesis ..
  qed
  with p0 show ?thesis by blast
qed

theorem RegisterSet_Add_then_Remove_witness:
  "RegisterSet_new 32 32 = Inr \<lparr>cpu_registers = SmallSet 0, untagged_cpu_registers = SmallSet 0,
      fpu_registers = SmallSet 0\<rparr> \<and>
   (\<exists>s1 s2. RegisterSet_Add \<lparr>cpu_registers = SmallSet 0, untagged_cpu_registers = SmallSet 0,
        fpu_registers = SmallSet 0\<rparr> (Location 1000) kTagged = Inr s1
      \<and> RegisterSet_Contains s1 (Location 1000) = Inr True
      \<and> \<not> HasUntaggedValues s1
      \<and> RegisterSet_Remove s1 (Location 1000) = Inr s2
      \<and> s2 = \<lparr>cpu_registers = SmallSet 0, untagged_cpu_registers = SmallSet 0,
        fpu_registers = SmallSet 0\<rparr>) \<and>
   (\<exists>s1 s2. RegisterSet_Add \<lparr>cpu_registers = SmallSet 0, untagged_cpu_registers = SmallSet 0,
        fpu_registers = SmallSet 0\<rparr> (Location 1004) kUnboxedDouble = Inr s1
      \<and> HasUntaggedValues s1
      \<and> RegisterSet_Remove s1 (Location 1004) = Inr s2
      \<and> \<not> HasUntaggedValues s2) \<and>
   (\<exists>s1 s2. RegisterSet_Add \<lparr>cpu_registers = SmallSet 0, untagged_cpu_registers = SmallSet 0,
        fpu_registers = SmallSet 0\<rparr> (Location 168) kUntagged = Inr s1
      \<and> HasUntaggedValues s1
      \<and> RegisterSet_Remove s1 (Location 168) = Inr s2
      \<and> RegisterSet_Contains s2 (Location 168) = Inr False
      \<and> HasUntaggedValues s2)"
proof -
  let ?s0 = "\<lparr>cpu_registers = SmallSet 0, untagged_cpu_registers = SmallSet 0,
      fpu_registers = SmallSet 0\<rparr>"
  have n: "RegisterSet_new 32 32 = Inr ?s0"
    by (simp add: RegisterSet_new_def ASSERT_def kWordSize_def kBitsPerByte_def
        SmallSet_empty_def)
  note r31 = RegisterLocation_props [OF concrete_locations(4)]
  note f31 = FpuRegisterLocation_props [OF concrete_locations(5)]
  note r5 = RegisterLocation_props [OF concrete_locations(3)]
  have k1: "IsMachineRegister (Location 1000)" "unat (payload (Location 1000)) < kBitsPerInt"
    "IsRegister (Location 1000)"
    using r31 by (simp_all add: IsMachineRegister_def IsMachineRegisterKind_def IsRegister_def
        field_consts kBitsPerInt_def)
  have k2: "IsMachineRegister (Location 1004)" "unat (payload (Location 1004)) < kBitsPerInt"
    "IsFpuRegister (Location 1004)"
    using f31 by (simp_all add: IsMachineRegister_def IsMachineRegisterKind_def
        IsFpuRegister_def field_consts kBitsPerInt_def)
  have k3: "IsMachineRegister (Location 168)" "unat (payload (Location 168)) < kBitsPerInt"
    "IsRegister (Location 168)"
    using r5 by (simp_all add: IsMachineRegister_def IsMachineRegisterKind_def IsRegister_def
        field_consts kBitsPerInt_def)
  have nf: "\<not> IsFpuRegister (Location 1000)" "\<not> IsRegister (Location 1004)"
    using k1(3) k2(3) register_kinds_disjoint by blast+
  have w1: "\<exists>s1 s2. RegisterSet_Add ?s0 (Location 1000) kTagged = Inr s1
      \<and> RegisterSet_Contains s1 (Location 1000) = Inr True
      \<and> \<not> HasUntaggedValues s1
      \<and> RegisterSet_Remove s1 (Location 1000) = Inr s2 \<and> s2 = ?s0"
    using RegisterSet_Add_then_Remove [OF n k1(1,2), of ?s0 kTagged] nf(1)
    by (elim conjE exE) auto
  have w2: "\<exists>s1 s2. RegisterSet_Add ?s0 (Location 1004) kUnboxedDouble = Inr s1
      \<and> HasUntaggedValues s1
      \<and> RegisterSet_Remove s1 (Location 1004) = Inr s2 \<and> \<not> HasUntaggedValues s2"
    using RegisterSet_Add_then_Remove [OF n k2(1,2), of ?s0 kUnboxedDouble] k2(3) nf(2)
    by (elim conjE exE) auto
  have w3: "\<exists>s1 s2. RegisterSet_Add ?s0 (Location 168) kUntagged = Inr s1
      \<and> HasUntaggedValues s1
      \<and> RegisterSet_Remove s1 (Location 168) = Inr s2
      \<and> RegisterSet_Contains s2 (Location 168) = Inr False
      \<and> HasUntaggedValues s2"
    using RegisterSet_Add_then_Remove [OF n k3(1,2), of ?s0 kUntagged] k3(3)
    by (elim conjE exE) auto
  show ?thesis using n w1 w2 w3 by blast
qed

text \<open>
  The claim as stated fails for a cpu register that is added with a representation other
  than \<open>kTagged\<close>: after \<open>RegisterSet_Remove\<close> the mask of untagged registers still holds
  the register, and \<open>HasUntaggedValues\<close> is true.
\<close>

theorem RegisterSet_Remove_keeps_untagged_counterexample:
  "RegisterSet_new 32 32 = Inr \<lparr>cpu_registers = SmallSet 0, untagged_cpu_registers = SmallSet 0,
      fpu_registers = SmallSet 0\<rparr> \<and>
   RegisterLocation 5 = Inr (Location 168) \<and>
   RegisterSet_Add \<lparr>cpu_registers = SmallSet 0, untagged_cpu_registers = SmallSet 0,
      fpu_registers = SmallSet 0\<rparr> (Location 168) kUntagged
     = Inr \<lparr>cpu_registers = SmallSet 32, untagged_cpu_registers = SmallSet 32,
      fpu_registers = SmallSet 0\<rparr> \<and>
   RegisterSet_Remove \<lparr>cpu_registers = SmallSet 32, untagged_cpu_registers = SmallSet 32,
      fpu_registers = SmallSet 0\<rparr> (Location 168)
     = Inr \<lparr>cpu_registers = SmallSet 0, untagged_cpu_registers = SmallSet 32,
      fpu_registers = SmallSet 0\<rparr> \<and>
   HasUntaggedValues \<lparr>cpu_registers = SmallSet 0, untagged_cpu_registers = SmallSet 32,
      fpu_registers = SmallSet 0\<rparr>"
proof -
  note r5 = RegisterLocation_props [OF concrete_locations(3)]
  have k: "IsRegister (Location 168)" "reg (Location 168) = Inr 5"
    using r5 by (simp_all add: field_consts)
  have m: "ToMask 5 = Inr 32"
    by (simp add: ToMask_def ASSERT_def kWordSize_def kBitsPerByte_def kBitsPerInt_def)
  show ?thesis
    by (simp add: RegisterSet_new_def ASSERT_def kWordSize_def kBitsPerByte_def
        SmallSet_empty_def concrete_locations RegisterSet_Add_def RegisterSet_Remove_def
        MarkUntagged_def SmallSet_Add_def SmallSet_Remove_def HasUntaggedValues_def
        SmallSet_IsEmpty_def k m)
qed

section \<open>LocationSummary\<close>

lemma unallocated_is_placeholder:
  assumes "IsUnallocated loc"
  shows "\<not> IsMachineRegister loc" and "\<not> IsInvalid loc" and "\<not> IsPairLocation loc"
    and "\<not> IsConstant loc"
proof -
  have k: "kind loc = kUnallocated" using assms by (simp add: IsUnallocated_def)
  show "\<not> IsMachineRegister loc"
    by (simp add: IsMachineRegister_def IsMachineRegisterKind_def k kind_consts)
  show "\<not> IsInvalid loc"
    using IsInvalid_kind [of loc] by (auto simp: k kind_consts)
  show "\<not> IsPairLocation loc" "\<not> IsConstant loc"
    using tagged_kind_cases(2) [of loc] k by auto
qed

text \<open>
  C7. In a summary whose mode is \<open>kCall\<close> or \<open>kCallCalleeSafe\<close>, \<open>set_temp\<close> fails its
  assertion unless the location is a machine register (an unallocated location fails,
  a register location at an index in bounds is stored), and \<open>set_out\<close> at index 0 fails
  unless the location is a machine register, invalid or a pair reference (an
  unallocated location fails); in every other mode both setters store any location,
  subject to the index bounds only.
\<close>

theorem set_temp_set_out_call_mode:
  "(always_calls s \<longleftrightarrow> contains_call s = kCall \<or> contains_call s = kCallCalleeSafe) \<and>
   (always_calls s \<and> \<not> IsMachineRegister loc \<longrightarrow>
      set_temp s index loc = Inl AssertionFailed) \<and>
   (always_calls s \<and> IsMachineRegister loc \<and> 0 \<le> index \<and> index < num_temps s \<longrightarrow>
      set_temp s index loc
        = Inr (s\<lparr>temp_locations := (temp_locations s)[nat index := loc]\<rparr>)) \<and>
   (IsUnallocated loc \<longrightarrow>
      \<not> IsMachineRegister loc \<and> \<not> IsInvalid loc \<and> \<not> IsPairLocation loc) \<and>
   (IsRegister loc \<or> IsFpuRegister loc \<longrightarrow> IsMachineRegister loc) \<and>
   (always_calls s \<and> \<not> IsMachineRegister loc \<and> \<not> IsInvalid loc \<and> \<not> IsPairLocation loc \<longrightarrow>
      set_out s 0 loc = Inl AssertionFailed) \<and>
   (always_calls s \<and> (IsMachineRegister loc \<or> IsInvalid loc \<or> IsPairLocation loc) \<longrightarrow>
      set_out s 0 loc = Inr (s\<lparr>output_location := loc\<rparr>)) \<and>
   (\<not> always_calls s \<and> 0 \<le> index \<and> index < num_temps s \<longrightarrow>
      set_temp s index loc
        = Inr (s\<lparr>temp_locations := (temp_locations s)[nat index := loc]\<rparr>)) \<and>
   (\<not> always_calls s \<longrightarrow> set_out s 0 loc = Inr (s\<lparr>output_location := loc\<rparr>)) \<and>
   (\<not> (0 \<le> index \<and> index < num_temps s) \<longrightarrow> set_temp s index loc = Inl AssertionFailed) \<and>
   (index \<noteq> 0 \<longrightarrow> set_out s index loc = Inl AssertionFailed)"
proof (intro conjI impI)
  show "always_calls s \<longleftrightarrow> contains_call s = kCall \<or> contains_call s = kCallCalleeSafe"
    by (simp add: always_calls_def)
  show "set_temp s index loc = Inl AssertionFailed"
    if "always_calls s \<and> \<not> IsMachineRegister loc"
    using that by (simp add: set_temp_def ASSERT_def)
  show "set_temp s index loc
        = Inr (s\<lparr>temp_locations := (temp_locations s)[nat index := loc]\<rparr>)"
    if "always_calls s \<and> IsMachineRegister loc \<and> 0 \<le> index \<and> index < num_temps s"
    using that by (simp add: set_temp_def ASSERT_def)
  show "\<not> IsMachineRegister loc" "\<not> IsInvalid loc" "\<not> IsPairLocation loc"
    if "IsUnallocated loc"
    using unallocated_is_placeholder [OF that] by simp_all
  show "IsMachineRegister loc" if "IsRegister loc \<or> IsFpuRegister loc"
    using that by (auto simp: IsMachineRegister_def IsMachineRegisterKind_def IsRegister_def
        IsFpuRegister_def)
  show "set_out s 0 loc = Inl AssertionFailed"
    if "always_calls s \<and> \<not> IsMachineRegister loc \<and> \<not> IsInvalid loc \<and> \<not> IsPairLocation loc"
    using that by (simp add: set_out_def ASSERT_def)
  show "set_out s 0 loc = Inr (s\<lparr>output_location := loc\<rparr>)"
    if "always_calls s \<and> (IsMachineRegister loc \<or> IsInvalid loc \<or> IsPairLocation loc)"
    using that by (auto simp: set_out_def ASSERT_def)
  show "set_temp s index loc
        = Inr (s\<lparr>temp_locations := (temp_locations s)[nat index := loc]\<rparr>)"
    if "\<not> always_calls s \<and> 0 \<le> index \<and> index < num_temps s"
    using that by (simp add: set_temp_def ASSERT_def)
  show "set_out s 0 loc = Inr (s\<lparr>output_location := loc\<rparr>)" if "\<not> always_calls s"
    using that by (simp add: set_out_def ASSERT_def)
  show "set_temp s index loc = Inl AssertionFailed"
    if "\<not> (0 \<le> index \<and> index < num_temps s)"
    using that by (auto simp: set_temp_def ASSERT_def)
  show "set_out s index loc = Inl AssertionFailed" if "index \<noteq> 0"
    using that by (simp add: set_out_def ASSERT_def)
qed

theorem set_temp_set_out_call_mode_witness:
  "set_temp (LocationSummary_new 1 1 kCall) 0 (Location 67) = Inl AssertionFailed \<and>
   set_temp (LocationSummary_new 1 1 kCall) 0 (Location 168)
     = Inr ((LocationSummary_new 1 1 kCall)\<lparr>temp_locations := [Location 168]\<rparr>) \<and>
   set_out (LocationSummary_new 1 1 kCallCalleeSafe) 0 (Location 67) = Inl AssertionFailed \<and>
   set_out (LocationSummary_new 1 1 kCallCalleeSafe) 0 (Location 1004)
     = Inr ((LocationSummary_new 1 1 kCallCalleeSafe)\<lparr>output_location := Location 1004\<rparr>) \<and>
   set_out (LocationSummary_new 1 1 kCall) 0 Invalid
     = Inr ((LocationSummary_new 1 1 kCall)\<lparr>output_location := Invalid\<rparr>) \<and>
   set_temp (LocationSummary_new 1 1 kNoCall) 0 (Location 67)
     = Inr ((LocationSummary_new 1 1 kNoCall)\<lparr>temp_locations := [Location 67]\<rparr>) \<and>
   set_out (LocationSummary_new 1 1 kCallOnSlowPath) 0 (Location 67)
     = Inr ((LocationSummary_new 1 1 kCallOnSlowPath)\<lparr>output_location := Location 67\<rparr>)"
proof -
  have u: "IsUnallocated (Location 67)"
    by (rule UnallocatedLocation_props(1) [OF concrete_locations(2)])
  have r: "IsRegister (Location 168)"
    by (rule RegisterLocation_props(1) [OF concrete_locations(3)]) (simp add: field_consts)
  have f: "IsFpuRegister (Location 1004)"
    by (rule FpuRegisterLocation_props(1) [OF concrete_locations(5)]) (simp add: field_consts)
  have i: "IsInvalid Invalid" by (simp add: IsInvalid_def Invalid_def)
  have m: "always_calls (LocationSummary_new 1 1 kCall)"
    "always_calls (LocationSummary_new 1 1 kCallCalleeSafe)"
    "\<not> always_calls (LocationSummary_new 1 1 kNoCall)"
    "\<not> always_calls (LocationSummary_new 1 1 kCallOnSlowPath)"
    by (simp_all add: always_calls_def LocationSummary_new_def)
  have n: "num_temps (LocationSummary_new 1 1 c) = 1"
    "temp_locations (LocationSummary_new 1 1 c) = [Invalid]" for c
    by (simp_all add: LocationSummary_new_def)
  have t1: "set_temp (LocationSummary_new 1 1 kCall) 0 (Location 67) = Inl AssertionFailed"
    using set_temp_set_out_call_mode [of "LocationSummary_new 1 1 kCall" "Location 67" 0]
      u m(1) by blast
  have t2: "set_temp (LocationSummary_new 1 1 kCall) 0 (Location 168)
     = Inr ((LocationSummary_new 1 1 kCall)\<lparr>temp_locations := [Location 168]\<rparr>)"
    using set_temp_set_out_call_mode [of "LocationSummary_new 1 1 kCall" "Location 168" 0]
      r m(1) by (simp add: n)
  have t3: "set_out (LocationSummary_new 1 1 kCallCalleeSafe) 0 (Location 67)
     = Inl AssertionFailed"
    using set_temp_set_out_call_mode [of "LocationSummary_new 1 1 kCallCalleeSafe"
        "Location 67" 0] u m(2) by blast
  have t4: "set_out (LocationSummary_new 1 1 kCallCalleeSafe) 0 (Location 1004)
     = Inr ((LocationSummary_new 1 1 kCallCalleeSafe)\<lparr>output_location := Location 1004\<rparr>)"
    using set_temp_set_out_call_mode [of "LocationSummary_new 1 1 kCallCalleeSafe"
        "Location 1004" 0] f m(2) by blast
  have t5: "set_out (LocationSummary_new 1 1 kCall) 0 Invalid
     = Inr ((LocationSummary_new 1 1 kCall)\<lparr>output_location := Invalid\<rparr>)"
    using set_temp_set_out_call_mode [of "LocationSummary_new 1 1 kCall" Invalid 0]
      i m(1) by blast
  have t6: "set_temp (LocationSummary_new 1 1 kNoCall) 0 (Location 67)
     = Inr ((LocationSummary_new 1 1 kNoCall)\<lparr>temp_locations := [Location 67]\<rparr>)"
    using set_temp_set_out_call_mode [of "LocationSummary_new 1 1 kNoCall" "Location 67" 0]
      m(3) by (simp add: n)
  have t7: "set_out (LocationSummary_new 1 1 kCallOnSlowPath) 0 (Location 67)
     = Inr ((LocationSummary_new 1 1 kCallOnSlowPath)\<lparr>output_location := Location 67\<rparr>)"
    using set_temp_set_out_call_mode [of "LocationSummary_new 1 1 kCallOnSlowPath"
        "Location 67" 0] m(4) by blast
  show ?thesis using t1 t2 t3 t4 t5 t6 t7 by blast
qed

section \<open>Pairs\<close>

lemma TemplatePairLocation_value:
  "TemplatePairLocation = Inr (PairLocation [Invalid, Invalid])"
  by (simp add: TemplatePairLocation_def kPairLength_def Let_def ASSERT_def IsInvalid_def
      Invalid_def numeral_2_eq_2)

lemma At_cases:
  "At p 0 = Inr (locations p ! 0)" "At p 1 = Inr (locations p ! 1)"
  "i < 0 \<or> 2 \<le> i \<Longrightarrow> At p i = Inl AssertionFailed"
  by (auto simp: At_def ASSERT_def kPairLength_def)

lemma SetAt_cases:
  "SetAt p 0 loc = Inr (PairLocation ((locations p)[0 := loc]))"
  "SetAt p 1 loc = Inr (PairLocation ((locations p)[1 := loc]))"
  "i < 0 \<or> 2 \<le> i \<Longrightarrow> SetAt p i loc = Inl AssertionFailed"
  by (auto simp: SetAt_def ASSERT_def kPairLength_def)

lemma Pair_aligned:
  assumes "position z AND kLocationTagMask = 0"
  shows "Pair z x y =
    Inr (z\<lparr>pair_objects := (pair_objects z)(position z \<mapsto> PairLocation [x, y]),
           position := position z + kPairLocationSize\<rparr>,
         Location (position z OR kPairLocationTag))"
  using assms
  by (simp add: Pair_def new_PairLocation_def TemplatePairLocation_value ASSERT_def
      Zone_SetAt_def SetAt_cases)

lemma Pair_misaligned:
  assumes "position z AND kLocationTagMask \<noteq> 0"
  shows "Pair z x y = Inl AssertionFailed"
  using assms
  by (simp add: Pair_def new_PairLocation_def TemplatePairLocation_value ASSERT_def)

lemma pair_reference:
  assumes "a AND kLocationTagMask = 0"
  shows "IsPairLocation (Location (a OR kPairLocationTag))"
    and "AsPairLocation (Location (a OR kPairLocationTag)) = Inr a"
    and "\<not> IsConstant (Location (a OR kPairLocationTag))"
proof -
  note c = clear_tag_of_tagged [OF assms tag_values_fit(2)]
  show p: "IsPairLocation (Location (a OR kPairLocationTag))"
    by (simp add: IsPairLocation_def c)
  show "AsPairLocation (Location (a OR kPairLocationTag)) = Inr a"
    using p by (simp add: AsPairLocation_def ASSERT_def c)
  have "kPairLocationTag \<noteq> kConstantTag"
    by (simp add: kPairLocationTag_def kConstantTag_def)
  then show "\<not> IsConstant (Location (a OR kPairLocationTag))"
    by (simp add: IsConstant_def c)
qed


lemma Component_of_Pair:
  assumes "Pair z x y = Inr (z', p)"
  shows "IsPairLocation p" and "\<not> IsRegister p" and "\<not> IsConstant p"
    and "AsPairLocation p = Inr (position z)"
    and "pair_objects z' (position z) = Some (PairLocation [x, y])"
    and "Component z' p 0 = Inr x" and "Component z' p 1 = Inr y"
    and "i < 0 \<or> 2 \<le> i \<Longrightarrow> Component z' p i = Inl AssertionFailed"
    and "position z' = position z + kPairLocationSize"
    and "position z AND kLocationTagMask = 0"
proof -
  show al: "position z AND kLocationTagMask = 0"
    using assms Pair_misaligned [of z x y] by (cases "position z AND kLocationTagMask = 0") auto
  note v = Pair_aligned [OF al, of x y]
  have z': "z' = z\<lparr>pair_objects := (pair_objects z)(position z \<mapsto> PairLocation [x, y]),
           position := position z + kPairLocationSize\<rparr>"
    and p: "p = Location (position z OR kPairLocationTag)"
    using assms v by simp_all
  note r = pair_reference [OF al]
  show ip: "IsPairLocation p" unfolding p by (rule r(1))
  show "\<not> IsRegister p"
    using tagged_kind_cases(6) [of p] ip by (simp add: IsRegister_def)
  show "\<not> IsConstant p" unfolding p by (rule r(3))
  show a: "AsPairLocation p = Inr (position z)" unfolding p by (rule r(2))
  show o: "pair_objects z' (position z) = Some (PairLocation [x, y])"
    by (simp add: z')
  show "Component z' p 0 = Inr x" "Component z' p 1 = Inr y"
    by (simp_all add: Component_def a Zone_At_def o At_cases)
  show "Component z' p i = Inl AssertionFailed" if "i < 0 \<or> 2 \<le> i"
    by (simp add: Component_def a Zone_At_def o At_cases(3) [OF that])
  show "position z' = position z + kPairLocationSize" by (simp add: z')
qed

lemma Equals_iff: "Equals a b \<longleftrightarrow> a = b"
  by (cases a; cases b) (simp add: Equals_def)

text \<open>
  C5. For arbitrary locations \<open>x\<close> and \<open>y\<close> (pairs or not), in a zone whose next address
  is aligned, \<open>Pair z x y\<close> returns a location \<open>p\<close> with \<open>IsPairLocation p\<close> true and
  \<open>IsRegister p\<close> false, whose components 0 and 1 are equal to \<open>x\<close> and \<open>y\<close>, and which
  refers to a PairLocation of length 2; a freshly constructed PairLocation holds the
  invalid location in both slots; \<open>At\<close>, \<open>SetAt\<close> and \<open>Component\<close> fail their bounds
  assertion for every index other than 0 and 1; \<open>SetAt\<close> never changes the length.
\<close>

theorem Pair_components:
  "TemplatePairLocation = Inr (PairLocation [Invalid, Invalid]) \<and>
   (i < 0 \<or> 2 \<le> i \<longrightarrow> At q i = Inl AssertionFailed \<and> SetAt q i l = Inl AssertionFailed) \<and>
   (\<forall>q'. SetAt q i l = Inr q' \<longrightarrow>
      length (locations q') = length (locations q) \<and>
      PairLocation_length q' = PairLocation_length q) \<and>
   (length (locations q) = 2 \<and> (i = 0 \<or> i = 1) \<longrightarrow>
      (\<exists>q'. SetAt q i l = Inr q' \<and> At q' i = Inr l)) \<and>
   (position z AND kLocationTagMask = 0 \<longrightarrow>
      (\<exists>z' p a obj. Pair z x y = Inr (z', p) \<and> IsPairLocation p \<and> \<not> IsRegister p \<and>
         (\<exists>c. Component z' p 0 = Inr c \<and> Equals c x) \<and>
         (\<exists>c. Component z' p 1 = Inr c \<and> Equals c y) \<and>
         AsPairLocation p = Inr a \<and> pair_objects z' a = Some obj \<and>
         PairLocation_length obj = 2 \<and> length (locations obj) = 2 \<and>
         (i < 0 \<or> 2 \<le> i \<longrightarrow> Component z' p i = Inl AssertionFailed)))"
proof (intro conjI impI allI)
  show "TemplatePairLocation = Inr (PairLocation [Invalid, Invalid])"
    by (rule TemplatePairLocation_value)
  show "At q i = Inl AssertionFailed" "SetAt q i l = Inl AssertionFailed" if "i < 0 \<or> 2 \<le> i"
    using that by (simp_all add: At_cases(3) SetAt_cases(3))
  show "length (locations q') = length (locations q)"
    "PairLocation_length q' = PairLocation_length q" if "SetAt q i l = Inr q'" for q'
    using that by (auto simp: SetAt_def err_bind_eq_Inr PairLocation_length_def)
  show "\<exists>q'. SetAt q i l = Inr q' \<and> At q' i = Inr l"
    if "length (locations q) = 2 \<and> (i = 0 \<or> i = 1)"
    using that by (auto simp: SetAt_cases At_cases)
next
  assume al: "position z AND kLocationTagMask = 0"
  define z' where "z' = z\<lparr>pair_objects := (pair_objects z)(position z \<mapsto> PairLocation [x, y]),
           position := position z + kPairLocationSize\<rparr>"
  define p where "p = Location (position z OR kPairLocationTag)"
  have v: "Pair z x y = Inr (z', p)"
    unfolding z'_def p_def by (rule Pair_aligned [OF al])
  note c = Component_of_Pair [OF v]
  show "\<exists>z' p a obj. Pair z x y = Inr (z', p) \<and> IsPairLocation p \<and> \<not> IsRegister p \<and>
         (\<exists>c. Component z' p 0 = Inr c \<and> Equals c x) \<and>
         (\<exists>c. Component z' p 1 = Inr c \<and> Equals c y) \<and>
         AsPairLocation p = Inr a \<and> pair_objects z' a = Some obj \<and>
         PairLocation_length obj = 2 \<and> length (locations obj) = 2 \<and>
         (i < 0 \<or> 2 \<le> i \<longrightarrow> Component z' p i = Inl AssertionFailed)"
    using v c(1,2,4,5,6,7) c(8) [of i]
    by (intro exI [of _ z'] exI [of _ p] exI [of _ "position z"]
        exI [of _ "PairLocation [x, y]"])
      (simp add: Equals_iff PairLocation_length_def kPairLength_def)
qed

theorem Pair_components_witness:
  "(\<exists>z' p. Pair (Zone_empty 4096) (Location 168) (Location 1000) = Inr (z', p)
      \<and> IsPairLocation p \<and> \<not> IsRegister p
      \<and> Component z' p 0 = Inr (Location 168) \<and> Component z' p 1 = Inr (Location 1000)
      \<and> Component z' p 2 = Inl AssertionFailed) \<and>
   RegisterLocation 5 = Inr (Location 168) \<and> RegisterLocation 31 = Inr (Location 1000) \<and>
   reg (Location 168) = Inr 5 \<and> reg (Location 1000) = Inr 31 \<and>
   At (PairLocation [Invalid, Invalid]) 2 = Inl AssertionFailed \<and>
   (\<exists>q'. SetAt (PairLocation [Invalid, Invalid]) 1 (Location 168) = Inr q'
      \<and> At q' 1 = Inr (Location 168) \<and> length (locations q') = 2)"
proof -
  have al: "position (Zone_empty 4096) AND kLocationTagMask = 0"
    by (simp add: Zone_empty_def kLocationTagMask_def)
  note t = Pair_components [of 2 "PairLocation [Invalid, Invalid]" "Location 168"
      "Zone_empty 4096" "Location 168" "Location 1000"]
  note t1 = Pair_components [of 1 "PairLocation [Invalid, Invalid]" "Location 168"
      "Zone_empty 4096" "Location 168" "Location 1000"]
  have w1: "\<exists>z' p. Pair (Zone_empty 4096) (Location 168) (Location 1000) = Inr (z', p)
      \<and> IsPairLocation p \<and> \<not> IsRegister p
      \<and> Component z' p 0 = Inr (Location 168) \<and> Component z' p 1 = Inr (Location 1000)
      \<and> Component z' p 2 = Inl AssertionFailed"
    using t al by (auto simp: Equals_iff)
  have w2: "At (PairLocation [Invalid, Invalid]) 2 = Inl AssertionFailed"
    using t by simp
  have w3: "\<exists>q'. SetAt (PairLocation [Invalid, Invalid]) 1 (Location 168) = Inr q'
      \<and> At q' 1 = Inr (Location 168) \<and> length (locations q') = 2"
    using t1 by auto
  have r: "reg (Location 168) = Inr 5" "reg (Location 1000) = Inr 31"
    using RegisterLocation_props(2) [OF concrete_locations(3)]
      RegisterLocation_props(2) [OF concrete_locations(4)]
    by (simp_all add: field_consts)
  show ?thesis using w1 w2 w3 r concrete_locations(3,4) by blast
qed

section \<open>Inputs of a summary that always calls\<close>

lemma Component_Inr:
  "Component z loc i = Inr c \<longleftrightarrow> (\<exists>a. AsPairLocation loc = Inr a \<and> Zone_At z a i = Inr c)"
  by (simp add: Component_def err_bind_eq_Inr)

lemma ASSERT_bind: "err_bind (ASSERT c) f = (if c then f () else Inl AssertionFailed)"
  by (simp add: ASSERT_def)

lemma policy_check:
  "err_bind (policy c) (\<lambda>p. ASSERT (p = Policy_value kAny))
     = (if policy c = Inr (Policy_value kAny) then Inr () else Inl AssertionFailed)"
  by (cases "policy c") (auto simp: ASSERT_def policy_def split: if_splits)

lemma policy_check_zero:
  "err_bind (policy c) (\<lambda>p. ASSERT (p = 0))
     = (if policy c = Inr 0 then Inr () else Inl AssertionFailed)"
  using policy_check [of c] by simp

lemma set_in_unallocated:
  assumes "always_calls s" and "IsUnallocated loc"
  shows "policy loc \<noteq> Inr (Policy_value kAny) \<Longrightarrow> set_in s z index loc = Inl AssertionFailed"
    and "policy loc = Inr (Policy_value kAny) \<Longrightarrow> 0 \<le> index \<Longrightarrow> index < num_inputs s \<Longrightarrow>
      set_in s z index loc
        = Inr (s\<lparr>input_locations := (input_locations s)[nat index := loc]\<rparr>)"
  using assms by (auto simp: set_in_def policy_check_zero ASSERT_bind)

lemma set_in_pair:
  assumes "always_calls s" and "IsPairLocation loc" and "Component z loc 0 = Inr c0"
  shows "IsUnallocated c0 \<Longrightarrow> policy c0 \<noteq> Inr (Policy_value kAny) \<Longrightarrow>
      set_in s z index loc = Inl AssertionFailed"
    and "\<not> IsUnallocated c0 \<or> policy c0 = Inr (Policy_value kAny) \<Longrightarrow>
      0 \<le> index \<Longrightarrow> index < num_inputs s \<Longrightarrow>
      set_in s z index loc
        = Inr (s\<lparr>input_locations := (input_locations s)[nat index := loc]\<rparr>)"
proof -
  obtain a where a: "AsPairLocation loc = Inr a" "Zone_At z a 0 = Inr c0"
    using assms(3) by (auto simp: Component_Inr)
  have nu: "\<not> IsUnallocated loc"
    using tagged_kind_cases(2) [of loc] assms(2) by (simp add: IsUnallocated_def)
  show "set_in s z index loc = Inl AssertionFailed"
    if "IsUnallocated c0" "policy c0 \<noteq> Inr (Policy_value kAny)"
    using that assms(1,2) nu by (auto simp: set_in_def a policy_check_zero ASSERT_bind)
  show "set_in s z index loc
        = Inr (s\<lparr>input_locations := (input_locations s)[nat index := loc]\<rparr>)"
    if "\<not> IsUnallocated c0 \<or> policy c0 = Inr (Policy_value kAny)"
      "0 \<le> index" "index < num_inputs s"
    using that assms(1,2) nu by (auto simp: set_in_def a policy_check_zero ASSERT_bind)
qed

text \<open>
  C6, as the code has it. In a summary whose mode is \<open>kCall\<close> or \<open>kCallCalleeSafe\<close>,
  \<open>set_in\<close> fails its assertion for an unallocated location whose policy is not \<open>kAny\<close>
  and stores one whose policy is \<open>kAny\<close>; for a pair reference it fails when component
  0 is unallocated with a policy other than \<open>kAny\<close>. Both assertions of the pair branch
  read component 0: when component 0 passes, the pair is stored whatever component 1
  is, an unallocated location with a policy other than \<open>kAny\<close> included.
\<close>

theorem set_in_checks_first_component_only:
  "(always_calls s \<and> IsUnallocated loc \<and> policy loc \<noteq> Inr (Policy_value kAny) \<longrightarrow>
      set_in s z index loc = Inl AssertionFailed) \<and>
   (always_calls s \<and> IsUnallocated loc \<and> policy loc = Inr (Policy_value kAny) \<and>
      0 \<le> index \<and> index < num_inputs s \<longrightarrow>
      set_in s z index loc
        = Inr (s\<lparr>input_locations := (input_locations s)[nat index := loc]\<rparr>)) \<and>
   (always_calls s \<and> IsPairLocation loc \<and> Component z loc 0 = Inr c0 \<and>
      IsUnallocated c0 \<and> policy c0 \<noteq> Inr (Policy_value kAny) \<longrightarrow>
      set_in s z index loc = Inl AssertionFailed) \<and>
   (always_calls s \<and> IsPairLocation loc \<and> Component z loc 0 = Inr c0 \<and>
      (\<not> IsUnallocated c0 \<or> policy c0 = Inr (Policy_value kAny)) \<and>
      Component z loc 1 = Inr c1 \<and> 0 \<le> index \<and> index < num_inputs s \<longrightarrow>
      set_in s z index loc
        = Inr (s\<lparr>input_locations := (input_locations s)[nat index := loc]\<rparr>))"
  using set_in_unallocated [where s = s and loc = loc and z = z and index = index]
    set_in_pair [where s = s and loc = loc and z = z and ?c0.0 = c0 and index = index]
  by blast

theorem set_in_checks_first_component_only_witness:
  "UnallocatedLocation kAny = Inr (Location 3) \<and>
   UnallocatedLocation kRequiresRegister = Inr (Location 67) \<and>
   set_in (LocationSummary_new 1 0 kCall) (Zone_empty 4096) 0 (Location 67)
     = Inl AssertionFailed \<and>
   set_in (LocationSummary_new 1 0 kCall) (Zone_empty 4096) 0 (Location 3)
     = Inr ((LocationSummary_new 1 0 kCall)\<lparr>input_locations := [Location 3]\<rparr>) \<and>
   (\<exists>z' p. Pair (Zone_empty 4096) (Location 67) (Location 3) = Inr (z', p)
      \<and> set_in (LocationSummary_new 1 0 kCall) z' 0 p = Inl AssertionFailed) \<and>
   (\<exists>z' p. Pair (Zone_empty 4096) (Location 3) (Location 67) = Inr (z', p)
      \<and> Component z' p 1 = Inr (Location 67)
      \<and> set_in (LocationSummary_new 1 0 kCall) z' 0 p
          = Inr ((LocationSummary_new 1 0 kCall)\<lparr>input_locations := [p]\<rparr>))"
proof -
  let ?s = "LocationSummary_new 1 0 kCall"
  let ?z = "Zone_empty 4096"
  have m: "always_calls ?s" "num_inputs ?s = 1" "input_locations ?s = [Invalid]"
    by (simp_all add: always_calls_def LocationSummary_new_def)
  note any = UnallocatedLocation_props [OF concrete_locations(1)]
  note rr = UnallocatedLocation_props [OF concrete_locations(2)]
  have ne: "policy (Location 67) \<noteq> Inr (Policy_value kAny)"
    by (simp add: rr(2))
  have al: "position ?z AND kLocationTagMask = 0"
    by (simp add: Zone_empty_def kLocationTagMask_def)
  have w1: "set_in ?s ?z 0 (Location 67) = Inl AssertionFailed"
    using set_in_checks_first_component_only [of ?s "Location 67" ?z 0] m(1) rr(1) ne
    by blast
  have "always_calls ?s \<and> IsUnallocated (Location 3)
      \<and> policy (Location 3) = Inr (Policy_value kAny) \<and> (0 :: int) \<le> 0 \<and> 0 < num_inputs ?s"
    using m any by simp
  then have "set_in ?s ?z 0 (Location 3)
      = Inr (?s\<lparr>input_locations := (input_locations ?s)[nat 0 := Location 3]\<rparr>)"
    using set_in_checks_first_component_only [of ?s "Location 3" ?z 0] by blast
  then have w2: "set_in ?s ?z 0 (Location 3) = Inr (?s\<lparr>input_locations := [Location 3]\<rparr>)"
    by (simp add: m)
  obtain z1 p1 where p1: "Pair ?z (Location 67) (Location 3) = Inr (z1, p1)"
    using Pair_aligned [OF al] by blast
  note c1 = Component_of_Pair [OF p1]
  have w3: "set_in ?s z1 0 p1 = Inl AssertionFailed"
    using set_in_checks_first_component_only [of ?s p1 z1 0 "Location 67"] m(1) c1(1,6) rr(1) ne
    by blast
  obtain z2 p2 where p2: "Pair ?z (Location 3) (Location 67) = Inr (z2, p2)"
    using Pair_aligned [OF al] by blast
  note c2 = Component_of_Pair [OF p2]
  have "always_calls ?s \<and> IsPairLocation p2 \<and> Component z2 p2 0 = Inr (Location 3) \<and>
      (\<not> IsUnallocated (Location 3) \<or> policy (Location 3) = Inr (Policy_value kAny)) \<and>
      Component z2 p2 1 = Inr (Location 67) \<and> (0 :: int) \<le> 0 \<and> 0 < num_inputs ?s"
    using m c2(1,6,7) any by simp
  then have "set_in ?s z2 0 p2
      = Inr (?s\<lparr>input_locations := (input_locations ?s)[nat 0 := p2]\<rparr>)"
    using set_in_checks_first_component_only [of ?s p2 z2 0 "Location 3" "Location 67"]
    by blast
  then have w4: "set_in ?s z2 0 p2 = Inr (?s\<lparr>input_locations := [p2]\<rparr>)"
    by (simp add: m)
  show ?thesis
    using concrete_locations(1,2) w1 w2 p1 w3 p2 c2(7) w4 by blast
qed

section \<open>Distinct constructions have distinct encodings\<close>

lemma Policy_value_inj: "Policy_value p = Policy_value q \<longleftrightarrow> p = q"
  by (cases p; cases q) simp_all

lemma tags_exclusive: "IsConstant loc \<Longrightarrow> \<not> IsPairLocation loc"
  by (auto simp: IsConstant_def IsPairLocation_def kConstantTag_def kPairLocationTag_def)

lemma constant_instruction_of_Constant:
  "Constant obj = Inr loc \<Longrightarrow> constant_instruction loc = Inr obj"
  by (auto simp: Constant_Inr constant_instruction_def IsConstant_def ASSERT_def
      clear_tag_of_tagged tag_values_fit)

lemma slot_kinds:
  "StackSlot i r = Inr loc \<Longrightarrow> kind loc = kStackSlot"
  "DoubleStackSlot i r = Inr loc \<Longrightarrow> kind loc = kDoubleStackSlot"
  "QuadStackSlot i r = Inr loc \<Longrightarrow> kind loc = kQuadStackSlot"
  by (auto simp: StackSlot_def DoubleStackSlot_def QuadStackSlot_def err_bind_eq_Inr
      Location_of_Inr kind_pack)

lemma construct_facts:
  assumes "construct z c = Inr (z', loc)" and "in_range c"
  shows "case c of
      MakeInvalid \<Rightarrow> kind loc = kInvalid \<and> \<not> IsConstant loc \<and> \<not> IsPairLocation loc
    | MakeUnallocated p \<Rightarrow> kind loc = kUnallocated \<and> policy loc = Inr (Policy_value p)
        \<and> \<not> IsConstant loc \<and> \<not> IsPairLocation loc
    | MakeRegister r \<Rightarrow> kind loc = kRegister \<and> reg loc = Inr r
        \<and> \<not> IsConstant loc \<and> \<not> IsPairLocation loc
    | MakeFpuRegister r \<Rightarrow> kind loc = kFpuRegister \<and> fpu_reg loc = Inr r
        \<and> \<not> IsConstant loc \<and> \<not> IsPairLocation loc
    | MakeStackSlot i r \<Rightarrow> kind loc = kStackSlot \<and> stack_index loc = Inr i
        \<and> base_reg loc = Inr r \<and> \<not> IsConstant loc \<and> \<not> IsPairLocation loc
    | MakeDoubleStackSlot i r \<Rightarrow> kind loc = kDoubleStackSlot \<and> stack_index loc = Inr i
        \<and> base_reg loc = Inr r \<and> \<not> IsConstant loc \<and> \<not> IsPairLocation loc
    | MakeQuadStackSlot i r \<Rightarrow> kind loc = kQuadStackSlot \<and> stack_index loc = Inr i
        \<and> base_reg loc = Inr r \<and> \<not> IsConstant loc \<and> \<not> IsPairLocation loc
    | MakeConstant obj \<Rightarrow> IsConstant loc \<and> \<not> IsPairLocation loc
        \<and> constant_instruction loc = Inr obj
    | MakePair x y \<Rightarrow> IsPairLocation loc \<and> \<not> IsConstant loc
        \<and> AsPairLocation loc = Inr (position z)
        \<and> position z' = position z + kPairLocationSize"
    and "(\<forall>x y. c \<noteq> MakePair x y) \<longrightarrow> z' = z"
proof -
  show "(\<forall>x y. c \<noteq> MakePair x y) \<longrightarrow> z' = z"
    using assms(1) by (cases c) (auto simp: err_bind_eq_Inr)
  show "case c of
      MakeInvalid \<Rightarrow> kind loc = kInvalid \<and> \<not> IsConstant loc \<and> \<not> IsPairLocation loc
    | MakeUnallocated p \<Rightarrow> kind loc = kUnallocated \<and> policy loc = Inr (Policy_value p)
        \<and> \<not> IsConstant loc \<and> \<not> IsPairLocation loc
    | MakeRegister r \<Rightarrow> kind loc = kRegister \<and> reg loc = Inr r
        \<and> \<not> IsConstant loc \<and> \<not> IsPairLocation loc
    | MakeFpuRegister r \<Rightarrow> kind loc = kFpuRegister \<and> fpu_reg loc = Inr r
        \<and> \<not> IsConstant loc \<and> \<not> IsPairLocation loc
    | MakeStackSlot i r \<Rightarrow> kind loc = kStackSlot \<and> stack_index loc = Inr i
        \<and> base_reg loc = Inr r \<and> \<not> IsConstant loc \<and> \<not> IsPairLocation loc
    | MakeDoubleStackSlot i r \<Rightarrow> kind loc = kDoubleStackSlot \<and> stack_index loc = Inr i
        \<and> base_reg loc = Inr r \<and> \<not> IsConstant loc \<and> \<not> IsPairLocation loc
    | MakeQuadStackSlot i r \<Rightarrow> kind loc = kQuadStackSlot \<and> stack_index loc = Inr i
        \<and> base_reg loc = Inr r \<and> \<not> IsConstant loc \<and> \<not> IsPairLocation loc
    | MakeConstant obj \<Rightarrow> IsConstant loc \<and> \<not> IsPairLocation loc
        \<and> constant_instruction loc = Inr obj
    | MakePair x y \<Rightarrow> IsPairLocation loc \<and> \<not> IsConstant loc
        \<and> AsPairLocation loc = Inr (position z)
        \<and> position z' = position z + kPairLocationSize"
  proof (cases c)
    case MakeInvalid
    then show ?thesis
      using assms(1) Invalid_untagged by (auto simp: NoLocation_def kind_Invalid)
  next
    case (MakeUnallocated p)
    then have u: "UnallocatedLocation p = Inr loc"
      using assms(1) by (auto simp: err_bind_eq_Inr)
    show ?thesis
      using UnallocatedLocation_props [OF u] UnallocatedLocation_untagged [OF u]
      by (simp add: MakeUnallocated IsUnallocated_def)
  next
    case (MakeRegister r)
    then have u: "RegisterLocation r = Inr loc" and b: "r < 2 ^ kPayloadBitsSize"
      using assms by (auto simp: err_bind_eq_Inr)
    show ?thesis
      using RegisterLocation_props [OF u b] RegisterLocation_untagged [OF u]
      by (simp add: MakeRegister IsRegister_def)
  next
    case (MakeFpuRegister r)
    then have u: "FpuRegisterLocation r = Inr loc" and b: "r < 2 ^ kPayloadBitsSize"
      using assms by (auto simp: err_bind_eq_Inr)
    show ?thesis
      using FpuRegisterLocation_props [OF u b] FpuRegisterLocation_untagged [OF u]
      by (simp add: MakeFpuRegister IsFpuRegister_def)
  next
    case (MakeStackSlot i r)
    then have u: "StackSlot i r = Inr loc" and b: "- kStackIndexBias \<le> i" "i < kStackIndexBias"
      "r < 2 ^ kBitsForBaseReg"
      using assms by (auto simp: err_bind_eq_Inr)
    show ?thesis
      using StackSlot_in_range [OF b] StackSlot_untagged [OF u] u
      by (auto simp: MakeStackSlot)
  next
    case (MakeDoubleStackSlot i r)
    then have u: "DoubleStackSlot i r = Inr loc" and b: "- kStackIndexBias \<le> i" "i < kStackIndexBias"
      "r < 2 ^ kBitsForBaseReg"
      using assms by (auto simp: err_bind_eq_Inr)
    show ?thesis
      using DoubleStackSlot_in_range [OF b] DoubleStackSlot_untagged [OF u] u
      by (auto simp: MakeDoubleStackSlot)
  next
    case (MakeQuadStackSlot i r)
    then have u: "QuadStackSlot i r = Inr loc" and b: "- kStackIndexBias \<le> i" "i < kStackIndexBias"
      "r < 2 ^ kBitsForBaseReg"
      using assms by (auto simp: err_bind_eq_Inr)
    show ?thesis
      using QuadStackSlot_in_range [OF b] QuadStackSlot_untagged [OF u] u
      by (auto simp: MakeQuadStackSlot)
  next
    case (MakeConstant obj)
    then have u: "Constant obj = Inr loc"
      using assms(1) by (auto simp: err_bind_eq_Inr)
    show ?thesis
      using Constant_IsConstant [OF u] constant_instruction_of_Constant [OF u] tags_exclusive
      by (auto simp: MakeConstant)
  next
    case (MakePair x y)
    then have u: "Pair z x y = Inr (z', loc)" using assms(1) by simp
    show ?thesis
      using Component_of_Pair [OF u] by (simp add: MakePair)
  qed
qed


lemma construct_deterministic:
  assumes "construct z c = Inr (z1, a)" and "construct z' c = Inr (z2, b)"
    and "\<forall>x y. c \<noteq> MakePair x y"
  shows "a = b"
  using assms by (cases c) (auto simp: err_bind_eq_Inr)

lemma Pair_result:
  assumes "Pair z x y = Inr (z', p)"
  shows "z' = z\<lparr>pair_objects := (pair_objects z)(position z \<mapsto> PairLocation [x, y]),
           position := position z + kPairLocationSize\<rparr>"
    and "p = Location (position z OR kPairLocationTag)"
  using assms Pair_aligned [OF Component_of_Pair(10) [OF assms], of x y] by simp_all

lemma construct_zone:
  assumes "construct z c = Inr (z', loc)"
  shows "z' = z \<or>
    (position z' = position z + kPairLocationSize \<and>
     dom (pair_objects z') = insert (position z) (dom (pair_objects z)))"
proof (cases c)
  case (MakePair x y)
  then have "Pair z x y = Inr (z', loc)" using assms by simp
  from Pair_result(1) [OF this] show ?thesis by simp
qed (use assms in \<open>auto simp: err_bind_eq_Inr\<close>)

lemma Zone_ok_empty: "Zone_ok (Zone_empty start)"
  by (simp add: Zone_ok_def Zone_empty_def)

lemma next_position:
  assumes "unat (p :: uword) + 16 < 2 ^ 64"
  shows "unat (p + kPairLocationSize) = unat p + 16" and "p < p + kPairLocationSize"
    and "a < p \<Longrightarrow> a < p + kPairLocationSize"
proof -
  show u: "unat (p + kPairLocationSize) = unat p + 16"
    using assms by (simp add: kPairLocationSize_def unat_word_ariths)
  show "p < p + kPairLocationSize"
    unfolding word_less_nat_alt u by simp
  show "a < p + kPairLocationSize" if "a < p"
    using that unfolding word_less_nat_alt u by simp
qed

lemma construct_Zone_ok:
  assumes "construct z c = Inr (z', loc)" and "Zone_ok z" and "unat (position z) + 16 < 2 ^ 64"
  shows "Zone_ok z'" and "unat (position z') \<le> unat (position z) + 16"
    and "dom (pair_objects z) \<subseteq> dom (pair_objects z')"
proof -
  note n = next_position [OF assms(3)]
  consider "z' = z"
    | "position z' = position z + kPairLocationSize"
      "dom (pair_objects z') = insert (position z) (dom (pair_objects z))"
    using construct_zone [OF assms(1)] by blast
  then show "Zone_ok z'"
  proof cases
    case 1
    then show ?thesis using assms(2) by simp
  next
    case 2
    show ?thesis
      unfolding Zone_ok_def 2
    proof
      fix a assume "a \<in> insert (position z) (dom (pair_objects z))"
      then have "a = position z \<or> a < position z"
        using assms(2) by (auto simp: Zone_ok_def)
      then show "a < position z + kPairLocationSize" using n(2,3) by blast
    qed
  qed
  show "unat (position z') \<le> unat (position z) + 16"
    using construct_zone [OF assms(1)] n(1) by auto
  show "dom (pair_objects z) \<subseteq> dom (pair_objects z')"
    using construct_zone [OF assms(1)] by auto
qed

lemma construct_all_Zone_ok:
  assumes "construct_all z cs = Inr z'" and "Zone_ok z"
    and "unat (position z) + 16 * length cs < 2 ^ 64"
  shows "Zone_ok z' \<and> unat (position z') \<le> unat (position z) + 16 * length cs
    \<and> dom (pair_objects z) \<subseteq> dom (pair_objects z')"
  using assms
proof (induction cs arbitrary: z)
  case Nil
  then show ?case by simp
next
  case (Cons c cs)
  then obtain z1 loc where s: "construct z c = Inr (z1, loc)" and r: "construct_all z1 cs = Inr z'"
    by (auto simp: err_bind_eq_Inr)
  have room: "unat (position z) + 16 < 2 ^ 64" using Cons.prems(3) by simp
  note k = construct_Zone_ok [OF s Cons.prems(2) room]
  have "unat (position z1) + 16 * length cs < 2 ^ 64"
    using k(2) Cons.prems(3) by simp
  from Cons.IH [OF r k(1) this] k(2,3) show ?case by auto
qed

text \<open>
  C1. Let \<open>a\<close> be built by a call of a public constructor and \<open>b\<close> by a later call,
  after any sequence \<open>cs\<close> of further constructor calls in between, all of them made one
  after the other in a zone that holds its PairLocations below the address of the next
  allocation and has room for the allocations; the two calls have arguments in range.
  \<open>Equals a b\<close> holds exactly when the packed words of \<open>a\<close> and \<open>b\<close> are equal. Two
  different constructors, or the same constructor with different arguments, give
  unequal packed words, and \<open>Equals\<close> is false; a pair is never equal to a location
  built before it, whatever was allocated in between; and the same call of a
  constructor other than \<open>Pair\<close> gives equal locations.
\<close>

theorem encoding_disjointness:
  assumes ok: "Zone_ok z" and room: "unat (position z) + 16 * (length cs + 2) < 2 ^ 64"
    and c1: "construct z c1 = Inr (z1, a)"
    and mid: "construct_all z1 cs = Inr z'"
    and c2: "construct z' c2 = Inr (z2, b)"
    and r1: "in_range c1" and r2: "in_range c2"
  shows "(Equals a b \<longleftrightarrow> Location_write a = Location_write b) \<and>
    (c1 \<noteq> c2 \<longrightarrow> Location_write a \<noteq> Location_write b \<and> \<not> Equals a b) \<and>
    ((\<exists>x y. c2 = MakePair x y) \<longrightarrow> Location_write a \<noteq> Location_write b \<and> \<not> Equals a b) \<and>
    (c1 = c2 \<and> (\<forall>x y. c2 \<noteq> MakePair x y) \<longrightarrow> Location_write a = Location_write b \<and> Equals a b) \<and>
    Zone_ok z2"
proof -
  have eq: "Equals a b \<longleftrightarrow> Location_write a = Location_write b"
    by (simp add: Equals_def Location_write_def)
  have w: "Location_write a = Location_write b \<longleftrightarrow> a = b"
    by (cases a; cases b) (simp add: Location_write_def)
  note f1 = construct_facts [OF c1 r1]
  note f2 = construct_facts [OF c2 r2]
  have room1: "unat (position z) + 16 < 2 ^ 64" using room by simp
  note k1 = construct_Zone_ok [OF c1 ok room1]
  have room2: "unat (position z1) + 16 * length cs < 2 ^ 64" using k1(2) room by simp
  note k2 = construct_all_Zone_ok [OF mid k1(1) room2]
  have room3: "unat (position z') + 16 < 2 ^ 64" using k1(2) k2 room by simp
  have ok': "Zone_ok z'" using k2 by simp
  note k3 = construct_Zone_ok [OF c2 ok' room3]
  have ne: "position z \<noteq> position z'" if "c1 = MakePair x y" for x y
  proof -
    have "Pair z x y = Inr (z1, a)" using c1 that by simp
    from Pair_result(1) [OF this] have "position z \<in> dom (pair_objects z1)" by simp
    then have "position z \<in> dom (pair_objects z')" using k2 by blast
    then have "position z < position z'" using ok' by (simp add: Zone_ok_def)
    then show ?thesis by simp
  qed
  have key: "c1 = c2 \<and> (\<forall>x y. c2 \<noteq> MakePair x y)" if "a = b"
    using f1 f2 that ne
    by (cases c1; cases c2) (auto simp: kind_consts Policy_value_inj)
  have det: "a = b" if "c1 = c2" "\<forall>x y. c2 \<noteq> MakePair x y"
    using construct_deterministic [of z c1 z1 a z' z2 b] c1 c2 that by simp
  show ?thesis
    using eq w key det k3(1) by blast
qed


theorem encoding_disjointness_witness:
  "(\<exists>a b. construct (Zone_empty 4096) (MakeStackSlot (- 3) 29) = Inr (Zone_empty 4096, a)
      \<and> construct (Zone_empty 4096) (MakeDoubleStackSlot (- 3) 29) = Inr (Zone_empty 4096, b)
      \<and> \<not> Equals a b \<and> Location_write a \<noteq> Location_write b) \<and>
   (\<exists>a b. construct (Zone_empty 4096) (MakeStackSlot (- 3) 29) = Inr (Zone_empty 4096, a)
      \<and> construct (Zone_empty 4096) (MakeStackSlot (- 3) 15) = Inr (Zone_empty 4096, b)
      \<and> \<not> Equals a b \<and> Location_write a \<noteq> Location_write b) \<and>
   construct (Zone_empty 4096) (MakeRegister 5) = Inr (Zone_empty 4096, Location 168) \<and>
   construct (Zone_empty 4096) (MakeRegister 31) = Inr (Zone_empty 4096, Location 1000) \<and>
   construct (Zone_empty 4096) (MakeFpuRegister 31) = Inr (Zone_empty 4096, Location 1004) \<and>
   construct_all (Zone_empty 4096) [] = Inr (Zone_empty 4096) \<and>
   construct_all (Zone_empty 4096) [MakeRegister 31, MakeFpuRegister 31]
     = Inr (Zone_empty 4096) \<and>
   \<not> Equals (Location 168) (Location 1000) \<and> \<not> Equals (Location 1000) (Location 1004) \<and>
   Equals (Location 168) (Location 168) \<and>
   (\<exists>z1 z2 z3.
      construct (Zone_empty 4096) (MakePair (Location 168) (Location 1000))
        = Inr (z1, Location 4098)
      \<and> construct_all z1 [MakePair (Location 168) (Location 1000), MakeRegister 5] = Inr z2
      \<and> construct z2 (MakePair (Location 168) (Location 1000)) = Inr (z3, Location 4130)
      \<and> \<not> Equals (Location 4098) (Location 4130)
      \<and> Location_write (Location 4098) \<noteq> Location_write (Location 4130)
      \<and> Zone_ok z3)"
proof -
  let ?z = "Zone_empty 4096"
  let ?p = "MakePair (Location 168) (Location 1000)"
  have ok: "Zone_ok ?z" by (simp add: Zone_ok_def Zone_empty_def)
  have room: "unat (position ?z) + 16 * (length ([] :: Construction list) + 2) < 2 ^ 64"
    "unat (position ?z) + 16 * (length [MakeRegister 31, MakeFpuRegister 31] + 2) < 2 ^ 64"
    "unat (position ?z) + 16 * (length [?p, MakeRegister 5] + 2) < 2 ^ 64"
    by (simp_all add: Zone_empty_def)
  have b1: "- kStackIndexBias \<le> - 3" "- 3 < kStackIndexBias" "(29 :: nat) < 2 ^ kBitsForBaseReg"
    "(15 :: nat) < 2 ^ kBitsForBaseReg"
    by (simp_all add: kStackIndexBias_eq kBitsForBaseReg_def)
  obtain s1 where s1: "StackSlot (- 3) 29 = Inr s1"
    using StackSlot_in_range [OF b1(1,2,3)] by blast
  obtain s2 where s2: "DoubleStackSlot (- 3) 29 = Inr s2"
    using DoubleStackSlot_in_range [OF b1(1,2,3)] by blast
  obtain s3 where s3: "StackSlot (- 3) 15 = Inr s3"
    using StackSlot_in_range [OF b1(1,2,4)] by blast
  have k1: "construct ?z (MakeStackSlot (- 3) 29) = Inr (?z, s1)"
    "construct ?z (MakeDoubleStackSlot (- 3) 29) = Inr (?z, s2)"
    "construct ?z (MakeStackSlot (- 3) 15) = Inr (?z, s3)"
    by (simp_all add: s1 s2 s3)
  have r: "in_range (MakeStackSlot (- 3) 29)" "in_range (MakeDoubleStackSlot (- 3) 29)"
    "in_range (MakeStackSlot (- 3) 15)" "in_range (MakeRegister 5)" "in_range (MakeRegister 31)"
    "in_range (MakeFpuRegister 31)" "in_range ?p"
    using b1 by (simp_all add: field_consts)
  have k2: "construct ?z (MakeRegister 5) = Inr (?z, Location 168)"
    "construct ?z (MakeRegister 31) = Inr (?z, Location 1000)"
    "construct ?z (MakeFpuRegister 31) = Inr (?z, Location 1004)"
    by (simp_all add: concrete_locations)
  have m: "construct_all ?z [] = Inr ?z"
    "construct_all ?z [MakeRegister 31, MakeFpuRegister 31] = Inr ?z"
    by (simp_all add: concrete_locations)
  have w1: "\<not> Equals s1 s2 \<and> Location_write s1 \<noteq> Location_write s2"
    using encoding_disjointness [OF ok room(1) k1(1) m(1) k1(2) r(1) r(2)] by simp
  have w2: "\<not> Equals s1 s3 \<and> Location_write s1 \<noteq> Location_write s3"
    using encoding_disjointness [OF ok room(2) k1(1) m(2) k1(3) r(1) r(3)] by simp
  have w3: "\<not> Equals (Location 168) (Location 1000)"
    using encoding_disjointness [OF ok room(1) k2(1) m(1) k2(2) r(4) r(5)] by simp
  have w4: "\<not> Equals (Location 1000) (Location 1004)"
    using encoding_disjointness [OF ok room(2) k2(2) m(2) k2(3) r(5) r(6)] by simp
  have w5: "Equals (Location 168) (Location 168)"
    using encoding_disjointness [OF ok room(2) k2(1) m(2) k2(1) r(4) r(4)] by simp
  have al: "position ?z AND kLocationTagMask = 0"
    by (simp add: Zone_empty_def kLocationTagMask_def)
  obtain z1 where p1: "Pair ?z (Location 168) (Location 1000) = Inr (z1, Location 4098)"
    and q1: "position z1 = 4112"
    using Pair_aligned [OF al, of "Location 168" "Location 1000"]
    by (simp add: Zone_empty_def kPairLocationSize_def kPairLocationTag_def)
  have al1: "position z1 AND kLocationTagMask = 0"
    by (simp add: q1 kLocationTagMask_def)
  obtain zm where pm: "Pair z1 (Location 168) (Location 1000) = Inr (zm, Location 4114)"
    and qm: "position zm = 4128"
    using Pair_aligned [OF al1, of "Location 168" "Location 1000"]
    by (simp add: q1 kPairLocationSize_def kPairLocationTag_def)
  have alm: "position zm AND kLocationTagMask = 0"
    by (simp add: qm kLocationTagMask_def)
  obtain z3 where p2: "Pair zm (Location 168) (Location 1000) = Inr (z3, Location 4130)"
    using Pair_aligned [OF alm, of "Location 168" "Location 1000"]
    by (simp add: qm kPairLocationSize_def kPairLocationTag_def)
  have k3: "construct ?z ?p = Inr (z1, Location 4098)"
    "construct_all z1 [?p, MakeRegister 5] = Inr zm"
    "construct zm ?p = Inr (z3, Location 4130)"
    by (simp_all add: p1 pm p2 concrete_locations)
  have w6: "\<not> Equals (Location 4098) (Location 4130)
      \<and> Location_write (Location 4098) \<noteq> Location_write (Location 4130) \<and> Zone_ok z3"
    using encoding_disjointness [OF ok room(3) k3(1) k3(2) k3(3) r(7) r(7)] by simp
  show ?thesis
    using k1 w1 w2 k2 m w3 w4 w5 k3 w6 by blast
qed

section \<open>Rebasing stack slots\<close>

lemma BitField_update_fits:
  "take_bit w v = v \<Longrightarrow>
   BitField_update pos w v original
     = Inr (push_bit pos v OR (NOT (push_bit pos (mask w)) AND original))"
  by (simp add: BitField_update_def ASSERT_def is_valid_iff BitField_mask_in_place_def
      BitField_mask_eq)

lemma BitField_update_overflow:
  "take_bit w v \<noteq> v \<Longrightarrow> BitField_update pos w v original = Inl AssertionFailed"
  by (simp add: BitField_update_def ASSERT_def is_valid_iff)

lemma payload_fits: "take_bit 59 (payload loc) = payload loc"
  by (simp add: payload_def PayloadField_decode_def BitField_decode_eq field_consts)

lemma kind_fits: "take_bit 5 (kind loc) = kind loc"
  by (simp add: kind_def KindField_decode_def BitField_decode_eq field_consts)

lemma PayloadField_update_fits:
  assumes "take_bit 59 p = p"
  shows "PayloadField_update p (raw_value loc) = Inr (kind loc OR push_bit 5 p)"
proof -
  have "push_bit 5 p OR (NOT (push_bit 5 (mask 59)) AND raw_value loc)
      = take_bit 5 (drop_bit 0 (raw_value loc)) OR push_bit 5 p"
    by (rule bit_word_eqI) (auto simp: bit_simps)
  then show ?thesis
    using assms
    by (simp add: PayloadField_update_def BitField_update_fits kind_def KindField_decode_def
        BitField_decode_eq field_consts)
qed

lemma base_update_word:
  assumes "take_bit 6 b = b"
  shows "push_bit 0 b OR (NOT (push_bit 0 (mask 6)) AND p) = b OR push_bit 6 (drop_bit 6 (p :: uword))"
proof -
  have b: "\<And>n. bit b n \<Longrightarrow> n < 6" using assms by (rule fits_bitD)
  show ?thesis
    by (rule bit_word_eqI) (auto simp: bit_simps dest: b)
qed

lemma index_update_word:
  assumes "take_bit 59 p = p"
  shows "push_bit 6 e OR (NOT (push_bit 6 (mask 53)) AND p)
    = take_bit 6 p OR push_bit 6 (e :: uword)"
proof -
  have p: "\<And>n. bit p n \<Longrightarrow> n < 59" using assms by (rule fits_bitD)
  show ?thesis
    by (rule bit_word_eqI) (auto simp: bit_simps dest: p)
qed

lemma drop_base_fits:
  assumes "take_bit 59 p = p"
  shows "take_bit 53 (drop_bit 6 p) = drop_bit 6 (p :: uword)"
proof -
  have p: "\<And>n. bit p n \<Longrightarrow> n < 59" using assms by (rule fits_bitD)
  show ?thesis
    by (rule bit_word_eqI) (auto simp: bit_simps dest: p)
qed


lemma set_base_reg_value:
  assumes hs: "HasStackIndex loc" and r: "r < 2 ^ kBitsForBaseReg"
  shows "set_base_reg r loc
    = Inr (Location (kind loc OR push_bit 5 (of_nat r OR push_bit 6 (drop_bit 6 (payload loc)))))"
proof -
  note bf = base_encode_fits [OF r]
  have i: "take_bit 53 (drop_bit 6 (payload loc)) = drop_bit 6 (payload loc)"
    by (rule drop_base_fits [OF payload_fits])
  have u: "StackSlotBaseField_update r (payload loc)
      = Inr (of_nat r OR push_bit 6 (drop_bit 6 (payload loc)))"
    unfolding StackSlotBaseField_update_def kBitsForBaseReg_def
    by (simp only: BitField_update_fits [OF bf(2)] base_update_word [OF bf(2)])
  have f: "take_bit 59 (of_nat r OR push_bit 6 (drop_bit 6 (payload loc)))
      = of_nat r OR push_bit 6 (drop_bit 6 (payload loc))"
    by (rule stack_fields_fit [OF bf(2) i])
  show ?thesis
    using hs by (simp only: set_base_reg_def ASSERT_bind if_True u err_bind.simps
        PayloadField_update_fits [OF f])
qed

lemma set_stack_index_value:
  assumes hs: "HasStackIndex loc"
    and lo: "- kStackIndexBias \<le> idx" and hi: "idx < kStackIndexBias"
  shows "set_stack_index idx loc
    = Inr (Location (kind loc OR push_bit 5 (take_bit 6 (payload loc)
        OR push_bit 6 (word_of_int (kStackIndexBias + idx)))))"
proof -
  note ef = index_encode_fits [OF lo hi]
  have w: "kBitsForStackIndex = 53" by (simp add: field_consts)
  have u: "StackIndexField_update (word_of_int (kStackIndexBias + idx)) (payload loc)
      = Inr (take_bit 6 (payload loc) OR push_bit 6 (word_of_int (kStackIndexBias + idx)))"
    unfolding StackIndexField_update_def kBitsForBaseReg_def w
    by (simp only: BitField_update_fits [OF ef(2)] index_update_word [OF payload_fits])
  have b: "take_bit 6 (take_bit 6 (payload loc)) = take_bit 6 (payload loc)"
    by simp
  have f: "take_bit 59 (take_bit 6 (payload loc) OR push_bit 6 (word_of_int (kStackIndexBias + idx)))
      = take_bit 6 (payload loc) OR push_bit 6 (word_of_int (kStackIndexBias + idx))"
    by (rule stack_fields_fit [OF b ef(2)])
  show ?thesis
    using hs by (simp only: set_stack_index_def ASSERT_bind if_True ef(1) u err_bind.simps
        PayloadField_update_fits [OF f])
qed

lemma set_stack_index_out_of_range:
  assumes "\<not> (- kStackIndexBias \<le> idx \<and> idx < kStackIndexBias)"
  shows "set_stack_index idx loc = Inl AssertionFailed"
  using assms by (auto simp: set_stack_index_def EncodeStackIndex_def ASSERT_bind)

lemma stack_slot_not_tagged:
  assumes "HasStackIndex loc"
  shows "\<not> IsPairLocation loc" and "\<not> IsConstant loc"
  using assms tagged_kind_cases(3,4,5) [of loc]
  by (auto simp: HasStackIndex_def IsStackSlot_def IsDoubleStackSlot_def IsQuadStackSlot_def)

lemma HasStackIndex_kind:
  "HasStackIndex loc \<longleftrightarrow>
     kind loc = kStackSlot \<or> kind loc = kDoubleStackSlot \<or> kind loc = kQuadStackSlot"
  by (simp add: HasStackIndex_def IsStackSlot_def IsDoubleStackSlot_def IsQuadStackSlot_def)


lemma set_base_reg_keeps_index:
  assumes hs: "HasStackIndex loc" and r: "r < 2 ^ kBitsForBaseReg"
  shows "\<exists>l1. set_base_reg r loc = Inr l1 \<and> kind l1 = kind loc \<and> HasStackIndex l1
     \<and> stack_index l1 = stack_index loc \<and> base_reg l1 = Inr r
     \<and> take_bit 6 (payload l1) = of_nat r"
proof -
  define i where "i = drop_bit 6 (payload loc)"
  define l1 where "l1 = Location (kind loc OR push_bit 5 (of_nat r OR push_bit 6 i))"
  note bf = base_encode_fits [OF r]
  have fi: "take_bit 53 i = i"
    unfolding i_def by (rule drop_base_fits [OF payload_fits])
  note ps = pack_slot [OF kind_fits bf(2) fi, of loc, folded l1_def]
  have v: "set_base_reg r loc = Inr l1"
    unfolding l1_def i_def by (rule set_base_reg_value [OF hs r])
  have h1: "HasStackIndex l1"
    using hs by (simp add: HasStackIndex_kind ps(2))
  have w: "kBitsForStackIndex = 53" by (simp add: field_consts)
  have "StackIndexField_decode (payload loc) = uint i"
    by (simp add: StackIndexField_decode_def BitField_decode_eq kBitsForBaseReg_def w
        i_def drop_base_fits [OF payload_fits])
  then have si: "stack_index l1 = stack_index loc"
    using hs h1 by (simp add: stack_index_def ASSERT_bind ps(5))
  have br: "base_reg l1 = Inr r"
    using h1 by (simp add: base_reg_def ASSERT_bind ps(4) bf(3))
  have tb: "take_bit 6 (payload l1) = of_nat r"
    unfolding ps(3) by (rule stack_base_field [OF bf(2)])
  show ?thesis
    using v ps(2) h1 si br tb by blast
qed

lemma Rebase_stack_slot:
  assumes hs: "HasStackIndex loc" and ob: "base_reg loc = Inr (old_base fr)"
    and si: "stack_index loc = Inr k"
    and nb: "new_base fr < 2 ^ kBitsForBaseReg"
    and lo: "- kStackIndexBias \<le> k + stack_delta fr"
    and hi: "k + stack_delta fr < kStackIndexBias"
  defines "l2 \<equiv> Location (kind loc OR push_bit 5 (of_nat (new_base fr)
      OR push_bit 6 (word_of_int (kStackIndexBias + (k + stack_delta fr)))))"
  shows "Rebase (Suc n) ord fr z loc = Some (Inr (z, l2))"
    and "kind l2 = kind loc" and "base_reg l2 = Inr (new_base fr)"
    and "stack_index l2 = Inr (k + stack_delta fr)"
proof -
  obtain l1 where l1: "set_base_reg (new_base fr) loc = Inr l1" "kind l1 = kind loc"
    "HasStackIndex l1" "stack_index l1 = stack_index loc"
    "take_bit 6 (payload l1) = of_nat (new_base fr)"
    using set_base_reg_keeps_index [OF hs nb] by blast
  have v: "set_stack_index (k + stack_delta fr) l1 = Inr l2"
    unfolding l2_def by (simp only: set_stack_index_value [OF l1(3) lo hi] l1(2,5))
  note np = stack_slot_not_tagged(1) [OF hs]
  show "Rebase (Suc n) ord fr z loc = Some (Inr (z, l2))"
    using hs np by (simp add: ob l1(1,4) si v)
  note bf = base_encode_fits [OF nb]
  note ef = index_encode_fits [OF lo hi]
  note ps = pack_slot [OF kind_fits bf(2) ef(2), of loc, folded l2_def]
  show k2: "kind l2 = kind loc" by (rule ps(2))
  have h2: "HasStackIndex l2" using hs by (simp add: HasStackIndex_kind k2)
  show "base_reg l2 = Inr (new_base fr)"
    using h2 by (simp add: base_reg_def ASSERT_bind ps(4) bf(3))
  have e: "StackIndexField_decode (payload l2) = kStackIndexBias + (k + stack_delta fr)"
    by (simp only: ps(5) ef(3))
  show "stack_index l2 = Inr (k + stack_delta fr)"
    using h2 by (simp add: stack_index_def ASSERT_bind e)
qed

lemma Rebase_index_out_of_range:
  assumes hs: "HasStackIndex loc" and ob: "base_reg loc = Inr (old_base fr)"
    and si: "stack_index loc = Inr k"
    and nb: "new_base fr < 2 ^ kBitsForBaseReg"
    and out: "\<not> (- kStackIndexBias \<le> k + stack_delta fr \<and> k + stack_delta fr < kStackIndexBias)"
  shows "Rebase (Suc n) ord fr z loc = Some (Inl AssertionFailed)"
proof -
  obtain l1 where l1: "set_base_reg (new_base fr) loc = Inr l1"
    "stack_index l1 = stack_index loc"
    using set_base_reg_keeps_index [OF hs nb] by blast
  note np = stack_slot_not_tagged(1) [OF hs]
  show ?thesis
    using hs np by (simp add: ob l1 si set_stack_index_out_of_range [OF out])
qed

lemma Rebase_unchanged:
  "\<not> IsPairLocation loc \<Longrightarrow> \<not> HasStackIndex loc \<Longrightarrow>
     Rebase (Suc n) ord fr z loc = Some (Inr (z, loc))"
  "HasStackIndex loc \<Longrightarrow> base_reg loc = Inr b \<Longrightarrow> b \<noteq> old_base fr \<Longrightarrow>
     Rebase (Suc n) ord fr z loc = Some (Inr (z, loc))"
  using stack_slot_not_tagged(1) [of loc] by simp_all

lemma Rebase_pair:
  assumes "IsPairLocation loc"
  shows "Component z loc 0 = Inr c0 \<Longrightarrow> Rebase n LeftToRight fr z c0 = Some (Inr (z1, r0)) \<Longrightarrow>
     Component z1 loc 1 = Inr c1 \<Longrightarrow> Rebase n LeftToRight fr z1 c1 = Some (Inr (z2, r1)) \<Longrightarrow>
     Rebase (Suc n) LeftToRight fr z loc = Some (Pair z2 r0 r1)"
    and "Component z loc 1 = Inr c1 \<Longrightarrow> Rebase n RightToLeft fr z c1 = Some (Inr (z1, r1)) \<Longrightarrow>
     Component z1 loc 0 = Inr c0 \<Longrightarrow> Rebase n RightToLeft fr z1 c0 = Some (Inr (z2, r0)) \<Longrightarrow>
     Rebase (Suc n) RightToLeft fr z loc = Some (Pair z2 r0 r1)"
  using assms by simp_all

lemma slot_value:
  assumes "- kStackIndexBias \<le> idx" and "idx < kStackIndexBias" and "r < 2 ^ kBitsForBaseReg"
    and k: "take_bit 5 k = k" and hs: "k = kStackSlot \<or> k = kDoubleStackSlot \<or> k = kQuadStackSlot"
  shows "err_bind (stack_payload idx r) (\<lambda>p.
           err_bind (Location_of k p) (\<lambda>loc.
           err_bind (ASSERT (stack_index loc = Inr idx)) (\<lambda>_. Inr loc)))
         = Inr (Location (k OR push_bit 5 (of_nat r
             OR push_bit 6 (word_of_int (kStackIndexBias + idx)))))"
proof -
  define loc where "loc = Location (k OR push_bit 5 (of_nat r
      OR push_bit 6 (word_of_int (kStackIndexBias + idx))))"
  note bf = base_encode_fits [OF assms(3)]
  note ef = index_encode_fits [OF assms(1,2)]
  note ps = pack_slot [OF k bf(2) ef(2), folded loc_def]
  have h: "HasStackIndex loc" using hs by (simp add: HasStackIndex_kind ps(2))
  have e: "StackIndexField_decode (payload loc) = kStackIndexBias + idx"
    by (simp only: ps(5) ef(3))
  have si: "stack_index loc = Inr idx"
    using h by (simp add: stack_index_def ASSERT_bind e)
  show ?thesis
    unfolding loc_def [symmetric]
    by (simp only: stack_payload_fits [OF assms(1-3)] err_bind.simps ps(1) si ASSERT_bind
        refl if_True)
qed

lemma StackSlot_value:
  assumes "- kStackIndexBias \<le> idx" and "idx < kStackIndexBias" and "r < 2 ^ kBitsForBaseReg"
  shows "StackSlot idx r = Inr (Location (kStackSlot OR push_bit 5 (of_nat r
             OR push_bit 6 (word_of_int (kStackIndexBias + idx)))))"
    and "DoubleStackSlot idx r = Inr (Location (kDoubleStackSlot OR push_bit 5 (of_nat r
             OR push_bit 6 (word_of_int (kStackIndexBias + idx)))))"
    and "QuadStackSlot idx r = Inr (Location (kQuadStackSlot OR push_bit 5 (of_nat r
             OR push_bit 6 (word_of_int (kStackIndexBias + idx)))))"
  unfolding StackSlot_def DoubleStackSlot_def QuadStackSlot_def
  by (rule slot_value [OF assms]; simp add: kind_codes_fit)+

lemma Rebase_constructed_slot:
  assumes lo: "- kStackIndexBias \<le> k" and hi: "k < kStackIndexBias"
    and ob: "old_base fr < 2 ^ kBitsForBaseReg" and nb: "new_base fr < 2 ^ kBitsForBaseReg"
    and lo': "- kStackIndexBias \<le> k + stack_delta fr"
    and hi': "k + stack_delta fr < kStackIndexBias"
  shows "\<exists>a a'. StackSlot k (old_base fr) = Inr a
      \<and> StackSlot (k + stack_delta fr) (new_base fr) = Inr a'
      \<and> Rebase (Suc n) ord fr z a = Some (Inr (z, a'))"
    and "\<exists>a a'. DoubleStackSlot k (old_base fr) = Inr a
      \<and> DoubleStackSlot (k + stack_delta fr) (new_base fr) = Inr a'
      \<and> Rebase (Suc n) ord fr z a = Some (Inr (z, a'))"
    and "\<exists>a a'. QuadStackSlot k (old_base fr) = Inr a
      \<and> QuadStackSlot (k + stack_delta fr) (new_base fr) = Inr a'
      \<and> Rebase (Suc n) ord fr z a = Some (Inr (z, a'))"
proof -
  note new = StackSlot_value [OF lo' hi' nb]
  obtain a where a: "StackSlot k (old_base fr) = Inr a" "kind a = kStackSlot"
    "stack_index a = Inr k" "base_reg a = Inr (old_base fr)"
    using StackSlot_in_range [OF lo hi ob] by blast
  have "HasStackIndex a" by (simp add: HasStackIndex_kind a(2))
  from Rebase_stack_slot(1) [OF this a(4) a(3) nb lo' hi', of n ord z]
  show "\<exists>a a'. StackSlot k (old_base fr) = Inr a
      \<and> StackSlot (k + stack_delta fr) (new_base fr) = Inr a'
      \<and> Rebase (Suc n) ord fr z a = Some (Inr (z, a'))"
    using a(1) new(1) by (simp only: a(2)) blast
  obtain d where d: "DoubleStackSlot k (old_base fr) = Inr d" "kind d = kDoubleStackSlot"
    "stack_index d = Inr k" "base_reg d = Inr (old_base fr)"
    using DoubleStackSlot_in_range [OF lo hi ob] by blast
  have "HasStackIndex d" by (simp add: HasStackIndex_kind d(2))
  from Rebase_stack_slot(1) [OF this d(4) d(3) nb lo' hi', of n ord z]
  show "\<exists>a a'. DoubleStackSlot k (old_base fr) = Inr a
      \<and> DoubleStackSlot (k + stack_delta fr) (new_base fr) = Inr a'
      \<and> Rebase (Suc n) ord fr z a = Some (Inr (z, a'))"
    using d(1) new(2) by (simp only: d(2)) blast
  obtain q where q: "QuadStackSlot k (old_base fr) = Inr q" "kind q = kQuadStackSlot"
    "stack_index q = Inr k" "base_reg q = Inr (old_base fr)"
    using QuadStackSlot_in_range [OF lo hi ob] by blast
  have "HasStackIndex q" by (simp add: HasStackIndex_kind q(2))
  from Rebase_stack_slot(1) [OF this q(4) q(3) nb lo' hi', of n ord z]
  show "\<exists>a a'. QuadStackSlot k (old_base fr) = Inr a
      \<and> QuadStackSlot (k + stack_delta fr) (new_base fr) = Inr a'
      \<and> Rebase (Suc n) ord fr z a = Some (Inr (z, a'))"
    using q(1) new(3) by (simp only: q(2)) blast
qed



lemma Rebase_not_pair_zone:
  assumes "Rebase (Suc n) ord fr z loc = Some (Inr (z', r))" and "\<not> IsPairLocation loc"
  shows "z' = z"
  using assms by (auto simp: err_bind_eq_Inr split: if_splits sum.splits)

lemma Rebase_pair_steps:
  assumes "Rebase (Suc n) ord fr z loc = Some (Inr (z', r))" and "IsPairLocation loc"
  obtains i ca cb z1 ra rb z2 x y where
    "Component z loc i = Inr ca"
    "Rebase n ord fr z ca = Some (Inr (z1, ra))"
    "Rebase n ord fr z1 cb = Some (Inr (z2, rb))"
    "Pair z2 x y = Inr (z', r)"
proof (cases ord)
  case LeftToRight
  then show ?thesis
    using assms that by (auto split: sum.splits option.splits)
next
  case RightToLeft
  then show ?thesis
    using assms that by (auto split: sum.splits option.splits)
qed

lemma Pair_Zone_ok:
  assumes "Pair z x y = Inr (z', p)" and "Zone_ok z" and "unat (position z) + 16 < 2 ^ 64"
  shows "Zone_ok z'" and "unat (position z') = unat (position z) + 16"
    and "position z \<notin> dom (pair_objects z)"
    and "\<forall>a \<in> dom (pair_objects z). pair_objects z' a = pair_objects z a"
    and "position z \<in> dom (pair_objects z')"
proof -
  have c: "construct z (MakePair x y) = Inr (z', p)" using assms(1) by simp
  show "Zone_ok z'" by (rule construct_Zone_ok(1) [OF c assms(2,3)])
  note r = Pair_result(1) [OF assms(1)]
  show "unat (position z') = unat (position z) + 16"
    using next_position(1) [OF assms(3)] by (simp add: r)
  show f: "position z \<notin> dom (pair_objects z)"
    using assms(2) by (auto simp: Zone_ok_def)
  show "\<forall>a \<in> dom (pair_objects z). pair_objects z' a = pair_objects z a"
    using f by (auto simp: r)
  show "position z \<in> dom (pair_objects z')" by (simp add: r)
qed

lemma Rebase_zone:
  assumes "Rebase n ord fr z loc = Some (Inr (z', r))" and "Zone_ok z"
    and "unat (position z) + 16 * 2 ^ n < 2 ^ 64"
  shows "Zone_ok z' \<and> unat (position z) \<le> unat (position z') \<and>
    unat (position z') + 16 \<le> unat (position z) + 16 * 2 ^ n \<and>
    (\<forall>a \<in> dom (pair_objects z). pair_objects z' a = pair_objects z a) \<and>
    (IsPairLocation loc \<longrightarrow>
       (\<exists>a. r = Location (a OR kPairLocationTag) \<and> a AND kLocationTagMask = 0 \<and>
          a \<notin> dom (pair_objects z) \<and> a \<in> dom (pair_objects z')))"
  using assms
proof (induction n arbitrary: z loc z' r)
  case 0
  then show ?case by simp
next
  case (Suc n)
  define m :: nat where "m = 2 ^ n"
  have m: "0 < m" "(2 :: nat) ^ Suc n = 2 * m" by (simp_all add: m_def)
  note room = Suc.prems(3) [unfolded m(2)]
  show ?case
  proof (cases "IsPairLocation loc")
    case False
    then have "z' = z" using Rebase_not_pair_zone [OF Suc.prems(1)] by simp
    then show ?thesis using Suc.prems(2) False m by (simp add: m_def)
  next
    case True
    obtain i ca cb z1 ra rb z2 x y where
      s: "Component z loc i = Inr ca"
      "Rebase n ord fr z ca = Some (Inr (z1, ra))"
      "Rebase n ord fr z1 cb = Some (Inr (z2, rb))"
      "Pair z2 x y = Inr (z', r)"
      using Suc.prems(1) True by (rule Rebase_pair_steps)
    have room1: "unat (position z) + 16 * 2 ^ n < 2 ^ 64"
      using room by (simp add: m_def)
    note a1 = Suc.IH [OF s(2) Suc.prems(2) room1, folded m_def]
    have room2: "unat (position z1) + 16 * 2 ^ n < 2 ^ 64"
      using a1 room unfolding m_def [symmetric] by linarith
    have ok1: "Zone_ok z1" using a1 by simp
    note a2 = Suc.IH [OF s(3) ok1 room2, folded m_def]
    have room3: "unat (position z2) + 16 < 2 ^ 64"
      using a1 a2 room by linarith
    have ok2: "Zone_ok z2" using a2 by simp
    note p = Pair_Zone_ok [OF s(4) ok2 room3]
    have d1: "a \<in> dom (pair_objects z1)" if "a \<in> dom (pair_objects z)" for a
      using a1 that by (auto simp: domIff)
    have d2: "a \<in> dom (pair_objects z2)" if "a \<in> dom (pair_objects z1)" for a
      using a2 that by (auto simp: domIff)
    have same: "pair_objects z' a = pair_objects z a" if "a \<in> dom (pair_objects z)" for a
    proof -
      have "pair_objects z' a = pair_objects z2 a" using p(4) d2 [OF d1 [OF that]] by blast
      also have "\<dots> = pair_objects z1 a" using a2 d1 [OF that] by blast
      also have "\<dots> = pair_objects z a" using a1 that by blast
      finally show ?thesis .
    qed
    have fresh: "position z2 \<notin> dom (pair_objects z)"
      using p(3) d1 d2 by blast
    have "r = Location (position z2 OR kPairLocationTag)"
      by (rule Pair_result(2) [OF s(4)])
    moreover have "position z2 AND kLocationTagMask = 0"
      by (rule Component_of_Pair(10) [OF s(4)])
    ultimately have new: "\<exists>a. r = Location (a OR kPairLocationTag) \<and> a AND kLocationTagMask = 0 \<and>
          a \<notin> dom (pair_objects z) \<and> a \<in> dom (pair_objects z')"
      using fresh p(5) by blast
    have pos: "unat (position z) \<le> unat (position z')"
      "unat (position z') + 16 \<le> unat (position z) + 16 * 2 ^ Suc n"
      using a1 a2 p(2) m(1) unfolding m(2) by linarith+
    show ?thesis using p(1) pos same new by blast
  qed
qed


lemma Rebase_pair_value:
  assumes "IsPairLocation loc" and "position zb AND kLocationTagMask = 0"
  shows "Component z loc 0 = Inr x \<Longrightarrow> Rebase n LeftToRight fr z x = Some (Inr (za, x')) \<Longrightarrow>
     Component za loc 1 = Inr y \<Longrightarrow> Rebase n LeftToRight fr za y = Some (Inr (zb, y')) \<Longrightarrow>
     Rebase (Suc n) LeftToRight fr z loc =
       Some (Inr (zb\<lparr>pair_objects := (pair_objects zb)(position zb \<mapsto> PairLocation [x', y']),
                     position := position zb + kPairLocationSize\<rparr>,
                  Location (position zb OR kPairLocationTag)))"
    and "Component z loc 1 = Inr y \<Longrightarrow> Rebase n RightToLeft fr z y = Some (Inr (za, y')) \<Longrightarrow>
     Component za loc 0 = Inr x \<Longrightarrow> Rebase n RightToLeft fr za x = Some (Inr (zb, x')) \<Longrightarrow>
     Rebase (Suc n) RightToLeft fr z loc =
       Some (Inr (zb\<lparr>pair_objects := (pair_objects zb)(position zb \<mapsto> PairLocation [x', y']),
                     position := position zb + kPairLocationSize\<rparr>,
                  Location (position zb OR kPairLocationTag)))"
  using Rebase_pair [OF assms(1)] Pair_aligned [OF assms(2), of x' y'] by simp_all

lemma Rebase_new_pair:
  assumes r: "Rebase n ord fr z loc = Some (Inr (zr, res))" and ok: "Zone_ok z"
    and room: "unat (position z) + 16 * 2 ^ n < 2 ^ 64" and pl: "IsPairLocation loc"
  shows "IsPairLocation res" and "\<not> Equals res loc"
    and "\<exists>a. AsPairLocation res = Inr a \<and> a \<notin> dom (pair_objects z) \<and> a \<in> dom (pair_objects zr)"
    and "Component zr loc i = Component z loc i"
proof -
  obtain a where a: "res = Location (a OR kPairLocationTag)" "a AND kLocationTagMask = 0"
    "a \<notin> dom (pair_objects z)" "a \<in> dom (pair_objects zr)"
    and same: "\<forall>a \<in> dom (pair_objects z). pair_objects zr a = pair_objects z a"
    using Rebase_zone [OF r ok room] pl by blast
  note pr = pair_reference [OF a(2), folded a(1)]
  show "IsPairLocation res" by (rule pr(1))
  show "\<exists>a. AsPairLocation res = Inr a \<and> a \<notin> dom (pair_objects z) \<and> a \<in> dom (pair_objects zr)"
    using pr(2) a(3,4) by blast
  obtain m where n: "n = Suc m" using r by (cases n) simp_all
  obtain j ca cb z1 ra rb z2 x y where "Component z loc j = Inr ca"
    using r pl unfolding n by (rule Rebase_pair_steps)
  then obtain al where al: "AsPairLocation loc = Inr al" "al \<in> dom (pair_objects z)"
    by (auto simp: Component_def err_bind_eq_Inr Zone_At_def split: option.splits)
  show "\<not> Equals res loc"
    using pr(2) al a(3) by (auto simp: Equals_iff)
  show "Component zr loc i = Component z loc i"
    using al same by (simp add: Component_def Zone_At_def)
qed

text \<open>
  C4, as the code has it. \<open>Rebase\<close> with a frame change \<open>fr\<close> returns, whichever argument
  of \<^verbatim>\<open>Location::Pair\<close> is evaluated first: for a stack slot of any of the three kinds
  whose base register is \<open>old_base fr\<close> and whose index is \<open>k\<close>, provided \<open>new_base fr\<close>
  fits the base register field and \<open>k + stack_delta fr\<close> lies within the bias, a location
  of the same kind with base register \<open>new_base fr\<close> and index \<open>k + stack_delta fr\<close>, in
  an unchanged zone (so \<open>StackSlot k old\<close> becomes \<open>StackSlot (k + delta) new\<close>); when the
  new index lies outside the bias, the range assertion of \<open>EncodeStackIndex\<close> fails. A
  stack slot with another base register, and every location that is neither a stack
  slot nor a pair, is returned unchanged. For a pair reference whose components \<open>x\<close> and
  \<open>y\<close> are rebased to \<open>x'\<close> and \<open>y'\<close>, the second of the two rebases in the zone \<open>za\<close> that
  the first has left (component 0 first from left to right, component 1 first from
  right to left), the result is the reference to a PairLocation holding \<open>x'\<close> and \<open>y'\<close>
  that is allocated at the next address of the zone \<open>zb\<close> that both rebases have left.
  In a zone that holds its PairLocations below its next address and has room for the
  allocations, the rebase of a pair is a new pair: its address held no PairLocation
  before, it is not equal to the input, and every PairLocation of the zone, the one of
  the input among them, is left as it was. The fuel \<open>Suc n\<close> is enough for every
  location that is no pair, and one more than the fuel of the components for a pair.
\<close>

theorem Rebase_cases:
  "(HasStackIndex loc \<and> base_reg loc = Inr (old_base fr) \<and> stack_index loc = Inr k \<and>
      new_base fr < 2 ^ kBitsForBaseReg \<and>
      - kStackIndexBias \<le> k + stack_delta fr \<and> k + stack_delta fr < kStackIndexBias \<longrightarrow>
      (\<exists>l. Rebase (Suc n) ord fr z loc = Some (Inr (z, l)) \<and> kind l = kind loc \<and>
         base_reg l = Inr (new_base fr) \<and> stack_index l = Inr (k + stack_delta fr))) \<and>
   (HasStackIndex loc \<and> base_reg loc = Inr (old_base fr) \<and> stack_index loc = Inr k \<and>
      new_base fr < 2 ^ kBitsForBaseReg \<and>
      \<not> (- kStackIndexBias \<le> k + stack_delta fr \<and> k + stack_delta fr < kStackIndexBias) \<longrightarrow>
      Rebase (Suc n) ord fr z loc = Some (Inl AssertionFailed)) \<and>
   (- kStackIndexBias \<le> k \<and> k < kStackIndexBias \<and> old_base fr < 2 ^ kBitsForBaseReg \<and>
      new_base fr < 2 ^ kBitsForBaseReg \<and>
      - kStackIndexBias \<le> k + stack_delta fr \<and> k + stack_delta fr < kStackIndexBias \<longrightarrow>
      (\<exists>a a'. StackSlot k (old_base fr) = Inr a
         \<and> StackSlot (k + stack_delta fr) (new_base fr) = Inr a'
         \<and> Rebase (Suc n) ord fr z a = Some (Inr (z, a'))) \<and>
      (\<exists>a a'. DoubleStackSlot k (old_base fr) = Inr a
         \<and> DoubleStackSlot (k + stack_delta fr) (new_base fr) = Inr a'
         \<and> Rebase (Suc n) ord fr z a = Some (Inr (z, a'))) \<and>
      (\<exists>a a'. QuadStackSlot k (old_base fr) = Inr a
         \<and> QuadStackSlot (k + stack_delta fr) (new_base fr) = Inr a'
         \<and> Rebase (Suc n) ord fr z a = Some (Inr (z, a')))) \<and>
   (HasStackIndex loc \<and> base_reg loc = Inr b \<and> b \<noteq> old_base fr \<longrightarrow>
      (\<exists>l. Rebase (Suc n) ord fr z loc = Some (Inr (z, l)) \<and> Equals l loc)) \<and>
   (\<not> HasStackIndex loc \<and> \<not> IsPairLocation loc \<longrightarrow>
      (\<exists>l. Rebase (Suc n) ord fr z loc = Some (Inr (z, l)) \<and> Equals l loc)) \<and>
   (IsPairLocation loc \<and>
      Component z loc 0 = Inr x \<and> Rebase n LeftToRight fr z x = Some (Inr (za, x')) \<and>
      Component za loc 1 = Inr y \<and> Rebase n LeftToRight fr za y = Some (Inr (zb, y')) \<and>
      position zb AND kLocationTagMask = 0 \<longrightarrow>
      (\<exists>zc p. Rebase (Suc n) LeftToRight fr z loc = Some (Inr (zc, p)) \<and> IsPairLocation p \<and>
         Component zc p 0 = Inr x' \<and> Component zc p 1 = Inr y' \<and>
         p = Location (position zb OR kPairLocationTag) \<and>
         AsPairLocation p = Inr (position zb) \<and>
         zc = zb\<lparr>pair_objects := (pair_objects zb)(position zb \<mapsto> PairLocation [x', y']),
                 position := position zb + kPairLocationSize\<rparr>)) \<and>
   (IsPairLocation loc \<and>
      Component z loc 1 = Inr y \<and> Rebase n RightToLeft fr z y = Some (Inr (za, y')) \<and>
      Component za loc 0 = Inr x \<and> Rebase n RightToLeft fr za x = Some (Inr (zb, x')) \<and>
      position zb AND kLocationTagMask = 0 \<longrightarrow>
      (\<exists>zc p. Rebase (Suc n) RightToLeft fr z loc = Some (Inr (zc, p)) \<and> IsPairLocation p \<and>
         Component zc p 0 = Inr x' \<and> Component zc p 1 = Inr y' \<and>
         p = Location (position zb OR kPairLocationTag) \<and>
         AsPairLocation p = Inr (position zb) \<and>
         zc = zb\<lparr>pair_objects := (pair_objects zb)(position zb \<mapsto> PairLocation [x', y']),
                 position := position zb + kPairLocationSize\<rparr>)) \<and>
   (Zone_ok z \<and> unat (position z) + 16 * 2 ^ n < 2 ^ 64 \<and>
      Rebase n ord fr z loc = Some (Inr (zr, res)) \<longrightarrow>
      Zone_ok zr \<and>
      (\<forall>a \<in> dom (pair_objects z). pair_objects zr a = pair_objects z a) \<and>
      (IsPairLocation loc \<longrightarrow>
         IsPairLocation res \<and> \<not> Equals res loc \<and>
         (\<exists>a. AsPairLocation res = Inr a \<and> a \<notin> dom (pair_objects z)
            \<and> a \<in> dom (pair_objects zr)) \<and>
         Component zr loc 0 = Component z loc 0 \<and> Component zr loc 1 = Component z loc 1))"
proof (intro conjI impI)
  assume a: "HasStackIndex loc \<and> base_reg loc = Inr (old_base fr) \<and> stack_index loc = Inr k \<and>
      new_base fr < 2 ^ kBitsForBaseReg \<and>
      - kStackIndexBias \<le> k + stack_delta fr \<and> k + stack_delta fr < kStackIndexBias"
  then have h: "HasStackIndex loc" "base_reg loc = Inr (old_base fr)" "stack_index loc = Inr k"
    "new_base fr < 2 ^ kBitsForBaseReg" "- kStackIndexBias \<le> k + stack_delta fr"
    "k + stack_delta fr < kStackIndexBias"
    by simp_all
  show "\<exists>l. Rebase (Suc n) ord fr z loc = Some (Inr (z, l)) \<and> kind l = kind loc \<and>
         base_reg l = Inr (new_base fr) \<and> stack_index l = Inr (k + stack_delta fr)"
    using Rebase_stack_slot(1) [OF h, of n ord z] Rebase_stack_slot(2-4) [OF h] by blast
next
  assume a: "HasStackIndex loc \<and> base_reg loc = Inr (old_base fr) \<and> stack_index loc = Inr k \<and>
      new_base fr < 2 ^ kBitsForBaseReg \<and>
      \<not> (- kStackIndexBias \<le> k + stack_delta fr \<and> k + stack_delta fr < kStackIndexBias)"
  then have h: "HasStackIndex loc" "base_reg loc = Inr (old_base fr)" "stack_index loc = Inr k"
    "new_base fr < 2 ^ kBitsForBaseReg"
    "\<not> (- kStackIndexBias \<le> k + stack_delta fr \<and> k + stack_delta fr < kStackIndexBias)"
    by simp_all
  show "Rebase (Suc n) ord fr z loc = Some (Inl AssertionFailed)"
    by (rule Rebase_index_out_of_range [OF h])
next
  assume a: "- kStackIndexBias \<le> k \<and> k < kStackIndexBias \<and> old_base fr < 2 ^ kBitsForBaseReg \<and>
      new_base fr < 2 ^ kBitsForBaseReg \<and>
      - kStackIndexBias \<le> k + stack_delta fr \<and> k + stack_delta fr < kStackIndexBias"
  then have h: "- kStackIndexBias \<le> k" "k < kStackIndexBias" "old_base fr < 2 ^ kBitsForBaseReg"
    "new_base fr < 2 ^ kBitsForBaseReg" "- kStackIndexBias \<le> k + stack_delta fr"
    "k + stack_delta fr < kStackIndexBias"
    by simp_all
  note c = Rebase_constructed_slot [OF h, of n ord z]
  show "\<exists>a a'. StackSlot k (old_base fr) = Inr a
         \<and> StackSlot (k + stack_delta fr) (new_base fr) = Inr a'
         \<and> Rebase (Suc n) ord fr z a = Some (Inr (z, a'))" by (rule c(1))
  show "\<exists>a a'. DoubleStackSlot k (old_base fr) = Inr a
         \<and> DoubleStackSlot (k + stack_delta fr) (new_base fr) = Inr a'
         \<and> Rebase (Suc n) ord fr z a = Some (Inr (z, a'))" by (rule c(2))
  show "\<exists>a a'. QuadStackSlot k (old_base fr) = Inr a
         \<and> QuadStackSlot (k + stack_delta fr) (new_base fr) = Inr a'
         \<and> Rebase (Suc n) ord fr z a = Some (Inr (z, a'))" by (rule c(3))
next
  assume "HasStackIndex loc \<and> base_reg loc = Inr b \<and> b \<noteq> old_base fr"
  then show "\<exists>l. Rebase (Suc n) ord fr z loc = Some (Inr (z, l)) \<and> Equals l loc"
    using Rebase_unchanged(2) [of loc b fr n ord z] by (simp add: Equals_iff)
next
  assume "\<not> HasStackIndex loc \<and> \<not> IsPairLocation loc"
  then show "\<exists>l. Rebase (Suc n) ord fr z loc = Some (Inr (z, l)) \<and> Equals l loc"
    using Rebase_unchanged(1) [of loc n ord fr z] by (simp add: Equals_iff)
next
  assume a: "IsPairLocation loc \<and>
      Component z loc 0 = Inr x \<and> Rebase n LeftToRight fr z x = Some (Inr (za, x')) \<and>
      Component za loc 1 = Inr y \<and> Rebase n LeftToRight fr za y = Some (Inr (zb, y')) \<and>
      position zb AND kLocationTagMask = 0"
  then have al: "position zb AND kLocationTagMask = 0" and pl: "IsPairLocation loc" by simp_all
  have r: "Rebase (Suc n) LeftToRight fr z loc = Some (Pair zb x' y')"
    using Rebase_pair(1) [OF pl] a by blast
  note v = Pair_aligned [OF al, of x' y']
  note c = Component_of_Pair [OF v]
  show "\<exists>zc p. Rebase (Suc n) LeftToRight fr z loc = Some (Inr (zc, p)) \<and> IsPairLocation p \<and>
         Component zc p 0 = Inr x' \<and> Component zc p 1 = Inr y' \<and>
         p = Location (position zb OR kPairLocationTag) \<and>
         AsPairLocation p = Inr (position zb) \<and>
         zc = zb\<lparr>pair_objects := (pair_objects zb)(position zb \<mapsto> PairLocation [x', y']),
                 position := position zb + kPairLocationSize\<rparr>"
    unfolding r v using c(1,4,6,7) by blast
next
  assume a: "IsPairLocation loc \<and>
      Component z loc 1 = Inr y \<and> Rebase n RightToLeft fr z y = Some (Inr (za, y')) \<and>
      Component za loc 0 = Inr x \<and> Rebase n RightToLeft fr za x = Some (Inr (zb, x')) \<and>
      position zb AND kLocationTagMask = 0"
  then have al: "position zb AND kLocationTagMask = 0" and pl: "IsPairLocation loc" by simp_all
  have r: "Rebase (Suc n) RightToLeft fr z loc = Some (Pair zb x' y')"
    using Rebase_pair(2) [OF pl] a by blast
  note v = Pair_aligned [OF al, of x' y']
  note c = Component_of_Pair [OF v]
  show "\<exists>zc p. Rebase (Suc n) RightToLeft fr z loc = Some (Inr (zc, p)) \<and> IsPairLocation p \<and>
         Component zc p 0 = Inr x' \<and> Component zc p 1 = Inr y' \<and>
         p = Location (position zb OR kPairLocationTag) \<and>
         AsPairLocation p = Inr (position zb) \<and>
         zc = zb\<lparr>pair_objects := (pair_objects zb)(position zb \<mapsto> PairLocation [x', y']),
                 position := position zb + kPairLocationSize\<rparr>"
    unfolding r v using c(1,4,6,7) by blast
next
  assume a: "Zone_ok z \<and> unat (position z) + 16 * 2 ^ n < 2 ^ 64 \<and>
      Rebase n ord fr z loc = Some (Inr (zr, res))"
  then have h: "Rebase n ord fr z loc = Some (Inr (zr, res))" "Zone_ok z"
    "unat (position z) + 16 * 2 ^ n < 2 ^ 64"
    by simp_all
  note g = Rebase_zone [OF h]
  show "Zone_ok zr" using g by blast
  show "\<forall>a \<in> dom (pair_objects z). pair_objects zr a = pair_objects z a" using g by blast
  assume pl: "IsPairLocation loc"
  note np = Rebase_new_pair [OF h pl]
  show "IsPairLocation res" by (rule np(1))
  show "\<not> Equals res loc" by (rule np(2))
  show "\<exists>a. AsPairLocation res = Inr a \<and> a \<notin> dom (pair_objects z)
            \<and> a \<in> dom (pair_objects zr)" by (rule np(3))
  show "Component zr loc 0 = Component z loc 0" by (rule np(4))
  show "Component zr loc 1 = Component z loc 1" by (rule np(4))
qed

lemma concrete_slots:
  "StackSlot (- 3) 29 = Inr (Location 9223372036854770596)"
  "StackSlot 7 15 = Inr (Location 9223372036854790628)"
  "StackSlot 0 29 = Inr (Location 9223372036854776740)"
proof -
  have b: "- kStackIndexBias \<le> - 3" "- 3 < kStackIndexBias" "- kStackIndexBias \<le> 7"
    "7 < kStackIndexBias" "- kStackIndexBias \<le> 0" "0 < kStackIndexBias"
    "(29 :: nat) < 2 ^ kBitsForBaseReg" "(15 :: nat) < 2 ^ kBitsForBaseReg"
    by (simp_all add: kStackIndexBias_eq kBitsForBaseReg_def)
  show "StackSlot (- 3) 29 = Inr (Location 9223372036854770596)"
    using StackSlot_value(1) [OF b(1,2,7)] by (simp add: kStackIndexBias_eq kStackSlot_def)
  show "StackSlot 7 15 = Inr (Location 9223372036854790628)"
    using StackSlot_value(1) [OF b(3,4,8)] by (simp add: kStackIndexBias_eq kStackSlot_def)
  show "StackSlot 0 29 = Inr (Location 9223372036854776740)"
    using StackSlot_value(1) [OF b(5,6,7)] by (simp add: kStackIndexBias_eq kStackSlot_def)
qed

lemma slot_facts:
  assumes "StackSlot idx r = Inr loc"
    and "- kStackIndexBias \<le> idx" and "idx < kStackIndexBias" and "r < 2 ^ kBitsForBaseReg"
  shows "HasStackIndex loc" and "stack_index loc = Inr idx" and "base_reg loc = Inr r"
  using StackSlot_in_range [OF assms(2-4)] assms(1) by (auto simp: HasStackIndex_kind)


lemma pair_references:
  "IsPairLocation (Location 4098) \<and> AsPairLocation (Location 4098) = Inr 4096"
  "IsPairLocation (Location 4114) \<and> AsPairLocation (Location 4114) = Inr 4112"
  "IsPairLocation (Location 4130) \<and> AsPairLocation (Location 4130) = Inr 4128"
  "IsPairLocation (Location 4146) \<and> AsPairLocation (Location 4146) = Inr 4144"
  "IsPairLocation (Location 4162) \<and> AsPairLocation (Location 4162) = Inr 4160"
  "IsPairLocation (Location 4178) \<and> AsPairLocation (Location 4178) = Inr 4176"
  using pair_reference(1,2) [of 4096] pair_reference(1,2) [of 4112] pair_reference(1,2) [of 4128]
    pair_reference(1,2) [of 4144] pair_reference(1,2) [of 4160] pair_reference(1,2) [of 4176]
  by (simp_all add: kLocationTagMask_def kPairLocationTag_def)

lemma Component_in_zone:
  assumes "IsPairLocation loc \<and> AsPairLocation loc = Inr a"
    and "pair_objects z a = Some (PairLocation [x, y])"
  shows "Component z loc 0 = Inr x" and "Component z loc 1 = Inr y"
  using assms by (simp_all add: Component_def Zone_At_def At_cases)


lemma Rebase_flat_pair:
  assumes "IsPairLocation loc" and "Component z loc 0 = Inr x" and "Component z loc 1 = Inr y"
    and "Rebase n ord fr z x = Some (Inr (z, x'))" and "Rebase n ord fr z y = Some (Inr (z, y'))"
    and "position z AND kLocationTagMask = 0"
  shows "Rebase (Suc n) ord fr z loc =
       Some (Inr (z\<lparr>pair_objects := (pair_objects z)(position z \<mapsto> PairLocation [x', y']),
                    position := position z + kPairLocationSize\<rparr>,
                  Location (position z OR kPairLocationTag)))"
proof (cases ord)
  case LeftToRight
  show ?thesis
    unfolding LeftToRight
    by (rule Rebase_pair_value(1) [OF assms(1) assms(6) assms(2) _ assms(3)])
      (use assms(4,5) LeftToRight in simp_all)
next
  case RightToLeft
  show ?thesis
    unfolding RightToLeft
    by (rule Rebase_pair_value(2) [OF assms(1) assms(6) assms(3) _ assms(2)])
      (use assms(4,5) RightToLeft in simp_all)
qed

theorem Rebase_cases_witness:
  "StackSlot (- 3) 29 = Inr (Location 9223372036854770596) \<and>
   StackSlot 7 15 = Inr (Location 9223372036854790628) \<and>
   Rebase (Suc 0) LeftToRight \<lparr>old_base = 29, new_base = 15, stack_delta = 10\<rparr>
      (Zone_empty 4096) (Location 9223372036854770596)
     = Some (Inr (Zone_empty 4096, Location 9223372036854790628)) \<and>
   Rebase (Suc 0) RightToLeft \<lparr>old_base = 29, new_base = 15, stack_delta = 10\<rparr>
      (Zone_empty 4096) (Location 9223372036854770596)
     = Some (Inr (Zone_empty 4096, Location 9223372036854790628)) \<and>
   Rebase (Suc 0) LeftToRight \<lparr>old_base = 15, new_base = 29, stack_delta = 10\<rparr>
      (Zone_empty 4096) (Location 9223372036854770596)
     = Some (Inr (Zone_empty 4096, Location 9223372036854770596)) \<and>
   Rebase (Suc 0) RightToLeft \<lparr>old_base = 29, new_base = 15, stack_delta = 10\<rparr>
      (Zone_empty 4096) (Location 168)
     = Some (Inr (Zone_empty 4096, Location 168)) \<and>
   (\<exists>za zf.
      Pair (Zone_empty 4096) (Location 9223372036854770596) (Location 168)
        = Inr (za, Location 4098) \<and>
      Rebase (Suc (Suc 0)) LeftToRight \<lparr>old_base = 29, new_base = 15, stack_delta = 10\<rparr> za
        (Location 4098) = Some (Inr (zf, Location 4114)) \<and>
      Rebase (Suc (Suc 0)) RightToLeft \<lparr>old_base = 29, new_base = 15, stack_delta = 10\<rparr> za
        (Location 4098) = Some (Inr (zf, Location 4114)) \<and>
      IsPairLocation (Location 4114) \<and> \<not> Equals (Location 4114) (Location 4098) \<and>
      Component zf (Location 4114) 0 = Inr (Location 9223372036854790628) \<and>
      Component zf (Location 4114) 1 = Inr (Location 168) \<and>
      Component zf (Location 4098) 0 = Inr (Location 9223372036854770596) \<and>
      Component zf (Location 4098) 1 = Inr (Location 168) \<and>
      Zone_ok zf) \<and>
   (\<exists>za zq zn zl zr.
      Pair (Zone_empty 4096) (Location 9223372036854770596) (Location 168)
        = Inr (za, Location 4098) \<and>
      Pair za (Location 168) (Location 9223372036854770596) = Inr (zq, Location 4114) \<and>
      Pair zq (Location 4098) (Location 4114) = Inr (zn, Location 4130) \<and>
      Rebase (Suc (Suc (Suc 0))) LeftToRight \<lparr>old_base = 29, new_base = 15, stack_delta = 10\<rparr>
        zn (Location 4130) = Some (Inr (zl, Location 4178)) \<and>
      Component zl (Location 4178) 0 = Inr (Location 4146) \<and>
      Component zl (Location 4178) 1 = Inr (Location 4162) \<and>
      Component zl (Location 4146) 0 = Inr (Location 9223372036854790628) \<and>
      Component zl (Location 4146) 1 = Inr (Location 168) \<and>
      Component zl (Location 4162) 0 = Inr (Location 168) \<and>
      Component zl (Location 4162) 1 = Inr (Location 9223372036854790628) \<and>
      Rebase (Suc (Suc (Suc 0))) RightToLeft \<lparr>old_base = 29, new_base = 15, stack_delta = 10\<rparr>
        zn (Location 4130) = Some (Inr (zr, Location 4178)) \<and>
      Component zr (Location 4178) 0 = Inr (Location 4162) \<and>
      Component zr (Location 4178) 1 = Inr (Location 4146) \<and>
      Component zr (Location 4162) 0 = Inr (Location 9223372036854790628) \<and>
      Component zr (Location 4162) 1 = Inr (Location 168) \<and>
      Component zr (Location 4146) 0 = Inr (Location 168) \<and>
      Component zr (Location 4146) 1 = Inr (Location 9223372036854790628))"
proof -
  let ?fr = "\<lparr>old_base = 29, new_base = 15, stack_delta = 10\<rparr>"
  let ?fr' = "\<lparr>old_base = 15, new_base = 29, stack_delta = 10\<rparr>"
  let ?z = "Zone_empty 4096"
  let ?a = "Location 9223372036854770596"
  let ?a' = "Location 9223372036854790628"
  let ?g = "Location 168"
  define za :: Zone where
    "za = \<lparr>pair_objects = [4096 \<mapsto> PairLocation [?a, ?g]], position = 4112\<rparr>"
  define zf :: Zone where
    "zf = \<lparr>pair_objects = [4096 \<mapsto> PairLocation [?a, ?g], 4112 \<mapsto> PairLocation [?a', ?g]],
          position = 4128\<rparr>"
  define zq :: Zone where
    "zq = \<lparr>pair_objects = [4096 \<mapsto> PairLocation [?a, ?g], 4112 \<mapsto> PairLocation [?g, ?a]],
          position = 4128\<rparr>"
  define zn :: Zone where
    "zn = \<lparr>pair_objects = [4096 \<mapsto> PairLocation [?a, ?g], 4112 \<mapsto> PairLocation [?g, ?a],
            4128 \<mapsto> PairLocation [Location 4098, Location 4114]],
          position = 4144\<rparr>"
  define zla :: Zone where
    "zla = \<lparr>pair_objects = [4096 \<mapsto> PairLocation [?a, ?g], 4112 \<mapsto> PairLocation [?g, ?a],
            4128 \<mapsto> PairLocation [Location 4098, Location 4114],
            4144 \<mapsto> PairLocation [?a', ?g]],
          position = 4160\<rparr>"
  define zlb :: Zone where
    "zlb = \<lparr>pair_objects = [4096 \<mapsto> PairLocation [?a, ?g], 4112 \<mapsto> PairLocation [?g, ?a],
            4128 \<mapsto> PairLocation [Location 4098, Location 4114],
            4144 \<mapsto> PairLocation [?a', ?g], 4160 \<mapsto> PairLocation [?g, ?a']],
          position = 4176\<rparr>"
  define zl :: Zone where
    "zl = \<lparr>pair_objects = [4096 \<mapsto> PairLocation [?a, ?g], 4112 \<mapsto> PairLocation [?g, ?a],
            4128 \<mapsto> PairLocation [Location 4098, Location 4114],
            4144 \<mapsto> PairLocation [?a', ?g], 4160 \<mapsto> PairLocation [?g, ?a'],
            4176 \<mapsto> PairLocation [Location 4146, Location 4162]],
          position = 4192\<rparr>"
  define zra :: Zone where
    "zra = \<lparr>pair_objects = [4096 \<mapsto> PairLocation [?a, ?g], 4112 \<mapsto> PairLocation [?g, ?a],
            4128 \<mapsto> PairLocation [Location 4098, Location 4114],
            4144 \<mapsto> PairLocation [?g, ?a']],
          position = 4160\<rparr>"
  define zrb :: Zone where
    "zrb = \<lparr>pair_objects = [4096 \<mapsto> PairLocation [?a, ?g], 4112 \<mapsto> PairLocation [?g, ?a],
            4128 \<mapsto> PairLocation [Location 4098, Location 4114],
            4144 \<mapsto> PairLocation [?g, ?a'], 4160 \<mapsto> PairLocation [?a', ?g]],
          position = 4176\<rparr>"
  define zr :: Zone where
    "zr = \<lparr>pair_objects = [4096 \<mapsto> PairLocation [?a, ?g], 4112 \<mapsto> PairLocation [?g, ?a],
            4128 \<mapsto> PairLocation [Location 4098, Location 4114],
            4144 \<mapsto> PairLocation [?g, ?a'], 4160 \<mapsto> PairLocation [?a', ?g],
            4176 \<mapsto> PairLocation [Location 4162, Location 4146]],
          position = 4192\<rparr>"
  note zones = za_def zf_def zq_def zn_def zla_def zlb_def zl_def zra_def zrb_def zr_def
  note ev = kPairLocationSize_def kPairLocationTag_def kLocationTagMask_def Zone_empty_def
  have b: "- kStackIndexBias \<le> - 3" "- 3 < kStackIndexBias" "(29 :: nat) < 2 ^ kBitsForBaseReg"
    by (simp_all add: kStackIndexBias_eq kBitsForBaseReg_def)
  note sf = slot_facts [OF concrete_slots(1) b]
  have slot: "Rebase (Suc 0) ord ?fr zz ?a = Some (Inr (zz, ?a'))" for ord zz
    using Rebase_cases [of ?a ?fr "- 3" 0 ord zz] concrete_slots(1,2)
    by (simp add: kStackIndexBias_eq kBitsForBaseReg_def)
  have "HasStackIndex ?a \<and> base_reg ?a = Inr 29 \<and> 29 \<noteq> old_base ?fr'"
    using sf by simp
  then have other: "Rebase (Suc 0) LeftToRight ?fr' ?z ?a = Some (Inr (?z, ?a))"
    using Rebase_cases [of ?a ?fr' 0 0 LeftToRight ?z 29] by (auto simp: Equals_iff)
  have r: "IsRegister ?g"
    by (rule RegisterLocation_props(1) [OF concrete_locations(3)]) (simp add: field_consts)
  then have nr: "\<not> HasStackIndex ?g \<and> \<not> IsPairLocation ?g"
    using tagged_kind_cases(6) [of ?g]
    by (auto simp: HasStackIndex_kind IsRegister_def kind_consts)
  then have same: "Rebase (Suc 0) ord ?fr zz ?g = Some (Inr (zz, ?g))" for ord zz
    using Rebase_cases [of ?g ?fr 0 0 ord zz] by (auto simp: Equals_iff)
  have pa: "Pair ?z ?a ?g = Inr (za, Location 4098)"
    by (subst Pair_aligned) (simp_all add: ev za_def)
  have pq: "Pair za ?g ?a = Inr (zq, Location 4114)"
    by (subst Pair_aligned) (simp_all add: ev za_def zq_def)
  have pn: "Pair zq (Location 4098) (Location 4114) = Inr (zn, Location 4130)"
    by (subst Pair_aligned) (simp_all add: ev zq_def zn_def)
  note pr = pair_references
  have ca: "Component za (Location 4098) 0 = Inr ?a" "Component za (Location 4098) 1 = Inr ?g"
    by (rule Component_in_zone [OF pr(1)]; simp add: za_def)+
  have ala: "position za AND kLocationTagMask = 0" by (simp add: za_def ev)
  have "IsPairLocation (Location 4098) \<and>
      Component za (Location 4098) 0 = Inr ?a \<and>
      Rebase (Suc 0) LeftToRight ?fr za ?a = Some (Inr (za, ?a')) \<and>
      Component za (Location 4098) 1 = Inr ?g \<and>
      Rebase (Suc 0) LeftToRight ?fr za ?g = Some (Inr (za, ?g)) \<and>
      position za AND kLocationTagMask = 0"
    using pr(1) ca slot same ala by simp
  from Rebase_cases [where loc = "Location 4098" and fr = ?fr and n = "Suc 0" and z = za
        and x = ?a and za = za and x' = ?a' and y = ?g and zb = za and y' = ?g,
      THEN conjunct2, THEN conjunct2, THEN conjunct2, THEN conjunct2, THEN conjunct2, THEN conjunct1, THEN mp, OF this]
  have "\<exists>zc p. Rebase (Suc (Suc 0)) LeftToRight ?fr za (Location 4098) = Some (Inr (zc, p)) \<and>
      p = Location (position za OR kPairLocationTag) \<and>
      zc = za\<lparr>pair_objects := (pair_objects za)(position za \<mapsto> PairLocation [?a', ?g]),
              position := position za + kPairLocationSize\<rparr>"
    by blast
  then have fl: "Rebase (Suc (Suc 0)) LeftToRight ?fr za (Location 4098)
      = Some (Inr (zf, Location 4114))"
    by (simp add: za_def zf_def ev)
  have "IsPairLocation (Location 4098) \<and>
      Component za (Location 4098) 1 = Inr ?g \<and>
      Rebase (Suc 0) RightToLeft ?fr za ?g = Some (Inr (za, ?g)) \<and>
      Component za (Location 4098) 0 = Inr ?a \<and>
      Rebase (Suc 0) RightToLeft ?fr za ?a = Some (Inr (za, ?a')) \<and>
      position za AND kLocationTagMask = 0"
    using pr(1) ca slot same ala by simp
  from Rebase_cases [where loc = "Location 4098" and fr = ?fr and n = "Suc 0" and z = za
        and x = ?a and za = za and x' = ?a' and y = ?g and zb = za and y' = ?g,
      THEN conjunct2, THEN conjunct2, THEN conjunct2, THEN conjunct2, THEN conjunct2, THEN conjunct2, THEN conjunct1, THEN mp, OF this]
  have "\<exists>zc p. Rebase (Suc (Suc 0)) RightToLeft ?fr za (Location 4098) = Some (Inr (zc, p)) \<and>
      p = Location (position za OR kPairLocationTag) \<and>
      zc = za\<lparr>pair_objects := (pair_objects za)(position za \<mapsto> PairLocation [?a', ?g]),
              position := position za + kPairLocationSize\<rparr>"
    by blast
  then have fr: "Rebase (Suc (Suc 0)) RightToLeft ?fr za (Location 4098)
      = Some (Inr (zf, Location 4114))"
    by (simp add: za_def zf_def ev)
  have cf: "Component zf (Location 4114) 0 = Inr ?a'" "Component zf (Location 4114) 1 = Inr ?g"
    by (rule Component_in_zone [OF pr(2)]; simp add: zf_def)+
  have oka: "Zone_ok za" by (simp add: Zone_ok_def za_def)
  have h: "Zone_ok za \<and> unat (position za) + 16 * 2 ^ Suc (Suc 0) < 2 ^ 64 \<and>
      Rebase (Suc (Suc 0)) LeftToRight ?fr za (Location 4098) = Some (Inr (zf, Location 4114))"
    using oka fl by (simp add: za_def)
  note fresh = Rebase_cases [where loc = "Location 4098" and fr = ?fr and n = "Suc (Suc 0)"
      and ord = LeftToRight and z = za and zr = zf and res = "Location 4114",
      THEN conjunct2, THEN conjunct2, THEN conjunct2, THEN conjunct2, THEN conjunct2,
      THEN conjunct2, THEN conjunct2, THEN mp, OF h]
  have new: "Zone_ok zf \<and> \<not> Equals (Location 4114) (Location 4098) \<and>
      Component zf (Location 4098) 0 = Component za (Location 4098) 0 \<and>
      Component zf (Location 4098) 1 = Component za (Location 4098) 1"
    using fresh pr(1) by blast
  have flat: "\<exists>za zf.
      Pair ?z ?a ?g = Inr (za, Location 4098) \<and>
      Rebase (Suc (Suc 0)) LeftToRight ?fr za (Location 4098) = Some (Inr (zf, Location 4114)) \<and>
      Rebase (Suc (Suc 0)) RightToLeft ?fr za (Location 4098) = Some (Inr (zf, Location 4114)) \<and>
      IsPairLocation (Location 4114) \<and> \<not> Equals (Location 4114) (Location 4098) \<and>
      Component zf (Location 4114) 0 = Inr ?a' \<and>
      Component zf (Location 4114) 1 = Inr ?g \<and>
      Component zf (Location 4098) 0 = Inr ?a \<and>
      Component zf (Location 4098) 1 = Inr ?g \<and>
      Zone_ok zf"
    using pa fl fr pr(2) new cf ca by auto
  have cn: "Component zn (Location 4130) 0 = Inr (Location 4098)"
    "Component zn (Location 4130) 1 = Inr (Location 4114)"
    by (rule Component_in_zone [OF pr(3)]; simp add: zn_def)+
  have cnx: "Component zn (Location 4098) 0 = Inr ?a" "Component zn (Location 4098) 1 = Inr ?g"
    by (rule Component_in_zone [OF pr(1)]; simp add: zn_def)+
  have cny: "Component zn (Location 4114) 0 = Inr ?g" "Component zn (Location 4114) 1 = Inr ?a"
    by (rule Component_in_zone [OF pr(2)]; simp add: zn_def)+
  have la: "Rebase (Suc (Suc 0)) LeftToRight ?fr zn (Location 4098)
      = Some (Inr (zla, Location 4146))"
    by (subst Rebase_flat_pair [OF conjunct1 [OF pr(1)] cnx slot same])
      (simp_all add: zn_def zla_def ev)
  have cla: "Component zla (Location 4130) 1 = Inr (Location 4114)"
    "Component zla (Location 4114) 0 = Inr ?g" "Component zla (Location 4114) 1 = Inr ?a"
    by (rule Component_in_zone [OF pr(3)] Component_in_zone [OF pr(2)]; simp add: zla_def)+
  have lb: "Rebase (Suc (Suc 0)) LeftToRight ?fr zla (Location 4114)
      = Some (Inr (zlb, Location 4162))"
    by (subst Rebase_flat_pair [OF conjunct1 [OF pr(2)] cla(2,3) same slot])
      (simp_all add: zla_def zlb_def ev)
  have "IsPairLocation (Location 4130) \<and>
      Component zn (Location 4130) 0 = Inr (Location 4098) \<and>
      Rebase (Suc (Suc 0)) LeftToRight ?fr zn (Location 4098) = Some (Inr (zla, Location 4146)) \<and>
      Component zla (Location 4130) 1 = Inr (Location 4114) \<and>
      Rebase (Suc (Suc 0)) LeftToRight ?fr zla (Location 4114) = Some (Inr (zlb, Location 4162)) \<and>
      position zlb AND kLocationTagMask = 0"
    using pr(3) cn la cla(1) lb by (simp add: zlb_def ev)
  from Rebase_cases [where loc = "Location 4130" and fr = ?fr and n = "Suc (Suc 0)" and z = zn
        and x = "Location 4098" and za = zla and x' = "Location 4146"
        and y = "Location 4114" and zb = zlb and y' = "Location 4162",
      THEN conjunct2, THEN conjunct2, THEN conjunct2, THEN conjunct2, THEN conjunct2, THEN conjunct1, THEN mp, OF this]
  have "\<exists>zc p. Rebase (Suc (Suc (Suc 0))) LeftToRight ?fr zn (Location 4130)
        = Some (Inr (zc, p)) \<and>
      p = Location (position zlb OR kPairLocationTag) \<and>
      zc = zlb\<lparr>pair_objects := (pair_objects zlb)(position zlb \<mapsto>
                  PairLocation [Location 4146, Location 4162]),
              position := position zlb + kPairLocationSize\<rparr>"
    by blast
  then have nl: "Rebase (Suc (Suc (Suc 0))) LeftToRight ?fr zn (Location 4130)
      = Some (Inr (zl, Location 4178))"
    by (simp add: zlb_def zl_def ev)
  have cl: "Component zl (Location 4178) 0 = Inr (Location 4146)"
    "Component zl (Location 4178) 1 = Inr (Location 4162)"
    "Component zl (Location 4146) 0 = Inr ?a'" "Component zl (Location 4146) 1 = Inr ?g"
    "Component zl (Location 4162) 0 = Inr ?g" "Component zl (Location 4162) 1 = Inr ?a'"
    by (rule Component_in_zone [OF pr(6)] Component_in_zone [OF pr(4)]
        Component_in_zone [OF pr(5)]; simp add: zl_def)+
  have ra: "Rebase (Suc (Suc 0)) RightToLeft ?fr zn (Location 4114)
      = Some (Inr (zra, Location 4146))"
    by (subst Rebase_flat_pair [OF conjunct1 [OF pr(2)] cny same slot])
      (simp_all add: zn_def zra_def ev)
  have cra: "Component zra (Location 4130) 0 = Inr (Location 4098)"
    "Component zra (Location 4098) 0 = Inr ?a" "Component zra (Location 4098) 1 = Inr ?g"
    by (rule Component_in_zone [OF pr(3)] Component_in_zone [OF pr(1)]; simp add: zra_def)+
  have rb: "Rebase (Suc (Suc 0)) RightToLeft ?fr zra (Location 4098)
      = Some (Inr (zrb, Location 4162))"
    by (subst Rebase_flat_pair [OF conjunct1 [OF pr(1)] cra(2,3) slot same])
      (simp_all add: zra_def zrb_def ev)
  have "IsPairLocation (Location 4130) \<and>
      Component zn (Location 4130) 1 = Inr (Location 4114) \<and>
      Rebase (Suc (Suc 0)) RightToLeft ?fr zn (Location 4114) = Some (Inr (zra, Location 4146)) \<and>
      Component zra (Location 4130) 0 = Inr (Location 4098) \<and>
      Rebase (Suc (Suc 0)) RightToLeft ?fr zra (Location 4098) = Some (Inr (zrb, Location 4162)) \<and>
      position zrb AND kLocationTagMask = 0"
    using pr(3) cn ra cra(1) rb by (simp add: zrb_def ev)
  from Rebase_cases [where loc = "Location 4130" and fr = ?fr and n = "Suc (Suc 0)" and z = zn
        and y = "Location 4114" and za = zra and y' = "Location 4146"
        and x = "Location 4098" and zb = zrb and x' = "Location 4162",
      THEN conjunct2, THEN conjunct2, THEN conjunct2, THEN conjunct2, THEN conjunct2, THEN conjunct2, THEN conjunct1, THEN mp, OF this]
  have "\<exists>zc p. Rebase (Suc (Suc (Suc 0))) RightToLeft ?fr zn (Location 4130)
        = Some (Inr (zc, p)) \<and>
      p = Location (position zrb OR kPairLocationTag) \<and>
      zc = zrb\<lparr>pair_objects := (pair_objects zrb)(position zrb \<mapsto>
                  PairLocation [Location 4162, Location 4146]),
              position := position zrb + kPairLocationSize\<rparr>"
    by blast
  then have nr: "Rebase (Suc (Suc (Suc 0))) RightToLeft ?fr zn (Location 4130)
      = Some (Inr (zr, Location 4178))"
    by (simp add: zrb_def zr_def ev)
  have cr: "Component zr (Location 4178) 0 = Inr (Location 4162)"
    "Component zr (Location 4178) 1 = Inr (Location 4146)"
    "Component zr (Location 4162) 0 = Inr ?a'" "Component zr (Location 4162) 1 = Inr ?g"
    "Component zr (Location 4146) 0 = Inr ?g" "Component zr (Location 4146) 1 = Inr ?a'"
    by (rule Component_in_zone [OF pr(6)] Component_in_zone [OF pr(4)]
        Component_in_zone [OF pr(5)]; simp add: zr_def)+
  have nested: "\<exists>za zq zn zl zr.
      Pair ?z ?a ?g = Inr (za, Location 4098) \<and>
      Pair za ?g ?a = Inr (zq, Location 4114) \<and>
      Pair zq (Location 4098) (Location 4114) = Inr (zn, Location 4130) \<and>
      Rebase (Suc (Suc (Suc 0))) LeftToRight ?fr zn (Location 4130)
        = Some (Inr (zl, Location 4178)) \<and>
      Component zl (Location 4178) 0 = Inr (Location 4146) \<and>
      Component zl (Location 4178) 1 = Inr (Location 4162) \<and>
      Component zl (Location 4146) 0 = Inr ?a' \<and>
      Component zl (Location 4146) 1 = Inr ?g \<and>
      Component zl (Location 4162) 0 = Inr ?g \<and>
      Component zl (Location 4162) 1 = Inr ?a' \<and>
      Rebase (Suc (Suc (Suc 0))) RightToLeft ?fr zn (Location 4130)
        = Some (Inr (zr, Location 4178)) \<and>
      Component zr (Location 4178) 0 = Inr (Location 4162) \<and>
      Component zr (Location 4178) 1 = Inr (Location 4146) \<and>
      Component zr (Location 4162) 0 = Inr ?a' \<and>
      Component zr (Location 4162) 1 = Inr ?g \<and>
      Component zr (Location 4146) 0 = Inr ?g \<and>
      Component zr (Location 4146) 1 = Inr ?a'"
    using pa pq pn nl cl nr cr by blast
  show ?thesis
    using concrete_slots(1,2) slot [of LeftToRight ?z] slot [of RightToLeft ?z] other
      same [of RightToLeft ?z] flat nested
    by blast
qed

text \<open>
  The claim as stated fails when the new index leaves the range of the index field:
  rebasing \<open>StackSlot 0 29\<close> by a delta of \<open>2 ^ 52\<close> slots fails the assertion of
  \<open>EncodeStackIndex\<close> instead of returning a slot with index \<open>2 ^ 52\<close>.
\<close>

theorem Rebase_index_overflow_counterexample:
  "StackSlot 0 29 = Inr (Location 9223372036854776740) \<and>
   base_reg (Location 9223372036854776740) = Inr 29 \<and>
   stack_index (Location 9223372036854776740) = Inr 0 \<and>
   Rebase (Suc 0) LeftToRight \<lparr>old_base = 29, new_base = 15, stack_delta = 2 ^ 52\<rparr>
      (Zone_empty 4096) (Location 9223372036854776740)
     = Some (Inl AssertionFailed) \<and>
   Rebase (Suc 0) RightToLeft \<lparr>old_base = 29, new_base = 15, stack_delta = 2 ^ 52\<rparr>
      (Zone_empty 4096) (Location 9223372036854776740)
     = Some (Inl AssertionFailed)"
proof -
  let ?fr = "\<lparr>old_base = 29, new_base = 15, stack_delta = 2 ^ 52\<rparr>"
  have b: "- kStackIndexBias \<le> 0" "0 < kStackIndexBias" "(29 :: nat) < 2 ^ kBitsForBaseReg"
    by (simp_all add: kStackIndexBias_eq kBitsForBaseReg_def)
  note sf = slot_facts [OF concrete_slots(3) b]
  have ob: "base_reg (Location 9223372036854776740) = Inr (old_base ?fr)"
    using sf(3) by simp
  have nb: "new_base ?fr < 2 ^ kBitsForBaseReg" by (simp add: kBitsForBaseReg_def)
  have out: "\<not> (- kStackIndexBias \<le> 0 + stack_delta ?fr \<and> 0 + stack_delta ?fr < kStackIndexBias)"
    by (simp add: kStackIndexBias_eq)
  show ?thesis
    using concrete_slots(3) sf(2,3)
      Rebase_index_out_of_range [OF sf(1) ob sf(2) nb out, of 0 LeftToRight "Zone_empty 4096"]
      Rebase_index_out_of_range [OF sf(1) ob sf(2) nb out, of 0 RightToLeft "Zone_empty 4096"]
    by simp
qed

end
